(* ===== verification/Ndk_Prelude.thy ===== *)
theory Ndk_Prelude
  imports Main "HOL-Library.Word"
begin

text \<open>
  The shared layer of the development: the names of the machine types, the lemma
  collections, and the generic facts on character lists that the components use.
  Nothing here models a particular function of the agent.
\<close>

section \<open>Types and lemma collections\<close>

text \<open>
  \<open>uptr\<close> is a machine register or address (\<open>uintptr_t\<close>, \<open>size_t\<close>): 64 bits wide; on the
  32-bit ABIs the code's arithmetic is cut to the low 32 bits where it is modelled.
  \<open>cint\<close> is the C \<open>int\<close>.
\<close>

type_synonym uptr = "64 word"
type_synonym cint = "32 word"

named_theorems fmt_simps \<open>parsed format strings and rendered conversions\<close>
named_theorems emit_simps \<open>what an emitter appends to its output buffer\<close>
named_theorems clean_simps \<open>strings that need no escaping\<close>

abbreviation NUL :: char where
  "NUL \<equiv> CHR 0x00"

abbreviation NL :: char where
  "NL \<equiv> CHR 0x0A"

abbreviation SQ :: char where
  "SQ \<equiv> CHR 0x27"

abbreviation DQ :: char where
  "DQ \<equiv> CHR 0x22"

abbreviation BSLASH :: char where
  "BSLASH \<equiv> CHR 0x5C"

text \<open>The ways a call can go: it returns, it waits for ever (a lock nobody releases), or it
  dereferences a null pointer.\<close>

datatype 'a outcome = Returns 'a | Blocks | Faults

fun bind_outcome :: "'a outcome \<Rightarrow> ('a \<Rightarrow> 'b outcome) \<Rightarrow> 'b outcome" where
  "bind_outcome (Returns x) f = f x"
| "bind_outcome Blocks f = Blocks"
| "bind_outcome Faults f = Faults"

lemma bind_Returns: "bind_outcome x f = Returns y \<longleftrightarrow> (\<exists>z. x = Returns z \<and> f z = Returns y)"
  by (cases x) auto

lemma bind_outcome_assoc:
  "bind_outcome (bind_outcome m f) g = bind_outcome m (\<lambda>x. bind_outcome (f x) g)"
  by (cases m) auto

text \<open>A call that returns, with a result that has a property.\<close>

definition returns_with :: "('a \<Rightarrow> bool) \<Rightarrow> 'a outcome \<Rightarrow> bool" where
  "returns_with P m \<longleftrightarrow> (\<exists>x. m = Returns x \<and> P x)"

lemma returns_with_Returns [simp]: "returns_with P (Returns x) = P x"
  by (simp add: returns_with_def)

lemma returns_with_bind: "returns_with P (bind_outcome m k) \<longleftrightarrow> returns_with (\<lambda>x. returns_with P (k x)) m"
  by (cases m) (simp_all add: returns_with_def)

lemma returns_with_mono: "returns_with P m \<Longrightarrow> (\<And>x. P x \<Longrightarrow> Q x) \<Longrightarrow> returns_with Q m"
  by (auto simp: returns_with_def)

text \<open>A result, if there is one, has a property; a sequence ends with its last call.\<close>

definition ensures :: "('a \<Rightarrow> bool) \<Rightarrow> 'a outcome \<Rightarrow> bool" where
  "ensures P m \<longleftrightarrow> (\<forall>x. m = Returns x \<longrightarrow> P x)"

lemma ensures_Returns [simp]: "ensures P (Returns x) = P x"
  by (simp add: ensures_def)

lemma ensures_bind: "(\<And>x. ensures P (k x)) \<Longrightarrow> ensures P (bind_outcome m k)"
  by (cases m) (simp_all add: ensures_def)

section \<open>Joining strings\<close>

fun join :: "string \<Rightarrow> string list \<Rightarrow> string" where
  "join sep [] = []"
| "join sep [x] = x"
| "join sep (x # y # xs) = x @ sep @ join sep (y # xs)"

lemma join_Cons: "join sep (x # xs) = (if xs = [] then x else x @ sep @ join sep xs)"
  by (cases xs) auto

lemma join_append:
  "xs \<noteq> [] \<Longrightarrow> ys \<noteq> [] \<Longrightarrow> join sep (xs @ ys) = join sep xs @ sep @ join sep ys"
  by (induction xs) (auto simp: join_Cons)

lemma map_join: "map f (join sep xs) = join (map f sep) (map (map f) xs)"
  by (induction xs) (auto simp: join_Cons)

lemma join_eq_Nil: "(\<And>x. x \<in> set xs \<Longrightarrow> x \<noteq> []) \<Longrightarrow> join sep xs = [] \<longleftrightarrow> xs = []"
  by (cases xs) (auto simp: join_Cons)

text \<open>Appending every item with its separator and dropping the last separator is a join.\<close>

lemma concat_sep_join:
  "xs \<noteq> [] \<Longrightarrow> concat (map (\<lambda>x. x @ [c]) xs) = join [c] xs @ [c]"
  by (induction xs) (auto simp: join_Cons)

lemma length_join:
  "length (join sep xs) = sum_list (map length xs) + length sep * (length xs - 1)"
  by (induction xs) (auto simp: join_Cons Suc_diff_Suc neq_Nil_conv)

lemma set_join_subset: "set (join sep xs) \<subseteq> set sep \<union> (\<Union>x\<in>set xs. set x)"
  by (induction xs) (auto simp: join_Cons split: if_splits)

section \<open>Lists\<close>

text \<open>The index of the first element that satisfies a predicate, cut at the list's end.\<close>

lemma takeWhile_append_stop:
  "(\<And>x. x \<in> set xs \<Longrightarrow> P x) \<Longrightarrow> \<not> P y \<Longrightarrow> takeWhile P (xs @ y # ys) = xs"
  by (induction xs) auto

lemma dropWhile_append_stop:
  "(\<And>x. x \<in> set xs \<Longrightarrow> P x) \<Longrightarrow> \<not> P y \<Longrightarrow> dropWhile P (xs @ y # ys) = y # ys"
  by (induction xs) auto

lemma takeWhile_id: "(\<And>x. x \<in> set xs \<Longrightarrow> P x) \<Longrightarrow> takeWhile P xs = xs"
  by (induction xs) auto

lemma take_Suc_snoc: "n < length xs \<Longrightarrow> take (Suc n) (xs[n := x]) = take n xs @ [x]"
  by (simp add: take_Suc_conv_app_nth)

lemma last_take_conv: "0 < n \<Longrightarrow> n \<le> length xs \<Longrightarrow> last (take n xs) = xs ! (n - 1)"
  by (cases n) (simp_all add: take_Suc_conv_app_nth)

lemma sum_list_const_bound:
  "(\<And>x. x \<in> set xs \<Longrightarrow> f x \<le> (k::nat)) \<Longrightarrow> sum_list (map f xs) \<le> k * length xs"
  by (induction xs) (auto simp: add_le_mono)

section \<open>Numbers written in a base\<close>

definition digit_char :: "nat \<Rightarrow> char" where
  "digit_char d = char_of (if d < 10 then 48 + d else 87 + d)"

lemma digit_char_simps [simp]:
  "digit_char 0 = CHR ''0''" "digit_char (Suc 0) = CHR ''1''" "digit_char 1 = CHR ''1''"
  "digit_char 2 = CHR ''2''" "digit_char 3 = CHR ''3''" "digit_char 4 = CHR ''4''"
  "digit_char 5 = CHR ''5''" "digit_char 6 = CHR ''6''" "digit_char 7 = CHR ''7''"
  "digit_char 8 = CHR ''8''" "digit_char 9 = CHR ''9''" "digit_char 10 = CHR ''a''"
  "digit_char 11 = CHR ''b''" "digit_char 12 = CHR ''c''" "digit_char 13 = CHR ''d''"
  "digit_char 14 = CHR ''e''" "digit_char 15 = CHR ''f''"
  by code_simp+

function radix :: "nat \<Rightarrow> nat \<Rightarrow> string" where
  "radix b n = (if b < 2 \<or> n < b then [digit_char n] else radix b (n div b) @ [digit_char (n mod b)])"
  by pat_completeness auto
termination
  by (relation "measure (\<lambda>(b, n). n)") auto

declare radix.simps [simp del]

lemma radix_nonempty [simp]: "radix b n \<noteq> []"
  by (subst radix.simps) simp

lemma radix_small: "n < b \<Longrightarrow> radix b n = [digit_char n]"
  by (simp add: radix.simps [of b n])

lemma length_radix:
  assumes "n < b ^ k" and "0 < k" and "2 \<le> b"
  shows "length (radix b n) \<le> k"
  using assms
proof (induction b n arbitrary: k rule: radix.induct)
  case (1 b n)
  show ?case
  proof (cases "n < b")
    case True
    with "1.prems" show ?thesis by (simp add: radix.simps [of b n])
  next
    case False
    from "1.prems" False obtain j where j: "k = Suc j" "0 < j"
      by (cases k; cases "k - 1") auto
    with "1.prems" have "n div b < b ^ j"
      by (simp add: less_mult_imp_div_less mult.commute)
    with "1.IH" "1.prems" False j have "length (radix b (n div b)) \<le> j" by simp
    with False j show ?thesis by (simp add: radix.simps [of b n])
  qed
qed

lemma of_char_digit_char:
  "d < 16 \<Longrightarrow> (of_char (digit_char d) :: nat) = (if d < 10 then 48 + d else 87 + d)"
  by (simp add: digit_char_def)

lemma set_radix:
  assumes "2 \<le> b"
  shows "set (radix b n) \<subseteq> digit_char ` {..<b}"
  using assms
proof (induction b n rule: radix.induct)
  case (1 b n)
  then show ?case
    by (auto simp: radix.simps [of b n])
qed

end
