(* ===== verification/C_Library.thy ===== *)
theory C_Library
  imports Ndk_Prelude
begin

text \<open>
  What the agent uses of the C and C++ standard libraries, written over character lists.
  A C string is the list of its characters before the terminating NUL; a null pointer is
  \<open>None\<close>. Every function here has the documented meaning of the library function it is
  named after, cut down to the arguments the agent passes.
\<close>

unbundle bit_operations_syntax

section \<open>Characters\<close>

abbreviation ord_of :: "char \<Rightarrow> nat" where
  "ord_of c \<equiv> of_char c"

definition isdigit :: "char \<Rightarrow> bool" where
  "isdigit c \<longleftrightarrow> 48 \<le> ord_of c \<and> ord_of c \<le> 57"

definition isspace :: "char \<Rightarrow> bool" where
  "isspace c \<longleftrightarrow> ord_of c = 32 \<or> (9 \<le> ord_of c \<and> ord_of c \<le> 13)"

definition isalpha :: "char \<Rightarrow> bool" where
  "isalpha c \<longleftrightarrow> (65 \<le> ord_of c \<and> ord_of c \<le> 90) \<or> (97 \<le> ord_of c \<and> ord_of c \<le> 122)"

definition tolower :: "char \<Rightarrow> char" where
  "tolower c = (if 65 \<le> ord_of c \<and> ord_of c \<le> 90 then char_of (ord_of c + 32) else c)"

text \<open>A character that may stand in a quoted report field as it is: no quote of either kind,
  no backslash, no control character.\<close>

definition clean_char :: "char \<Rightarrow> bool" where
  "clean_char c \<longleftrightarrow> c \<noteq> SQ \<and> c \<noteq> DQ \<and> c \<noteq> BSLASH \<and> 32 \<le> ord_of c"

definition clean :: "string \<Rightarrow> bool" where
  "clean s \<longleftrightarrow> list_all clean_char s"

lemma clean_Nil [clean_simps]: "clean []"
  by (simp add: clean_def)

lemma clean_Cons [clean_simps]: "clean (c # s) \<longleftrightarrow> clean_char c \<and> clean s"
  by (simp add: clean_def)

lemma clean_append [clean_simps]: "clean (s @ t) \<longleftrightarrow> clean s \<and> clean t"
  by (simp add: clean_def)

lemma clean_subset: "set s \<subseteq> set t \<Longrightarrow> clean t \<Longrightarrow> clean s"
  by (auto simp: clean_def list_all_iff)

lemma clean_set: "clean s \<longleftrightarrow> (\<forall>c \<in> set s. clean_char c)"
  by (simp add: clean_def list_all_iff)

lemma clean_char_not: "\<not> clean_char NUL" "\<not> clean_char SQ" "\<not> clean_char DQ" "\<not> clean_char BSLASH"
  "\<not> clean_char NL"
  by (simp_all add: clean_char_def)

lemma clean_not: "clean s \<Longrightarrow> NUL \<notin> set s" "clean s \<Longrightarrow> SQ \<notin> set s" "clean s \<Longrightarrow> DQ \<notin> set s"
  "clean s \<Longrightarrow> NL \<notin> set s"
  unfolding clean_set using clean_char_not by blast+

lemma clean_char_digit: "isdigit c \<Longrightarrow> clean_char c"
  by (auto simp: isdigit_def clean_char_def)

lemma clean_char_alpha: "isalpha c \<Longrightarrow> clean_char c"
  by (auto simp: isalpha_def clean_char_def)

section \<open>C strings and fixed arrays\<close>

definition c_str :: "string \<Rightarrow> string" where
  "c_str s = takeWhile (\<lambda>c. c \<noteq> NUL) s"

lemma c_str_no_NUL [simp]: "NUL \<notin> set (c_str s)"
  by (auto simp: c_str_def dest: set_takeWhileD)

lemma c_str_id: "NUL \<notin> set s \<Longrightarrow> c_str s = s"
  by (auto simp: c_str_def intro!: takeWhile_id)

lemma c_str_idem [simp]: "c_str (c_str s) = c_str s"
  by (simp add: c_str_id)

lemma length_c_str: "length (c_str s) \<le> length s"
  by (simp add: c_str_def length_takeWhile_le)

text \<open>
  \<open>strncpy(a, src, sizeof(a) - 1)\<close> into an array of \<open>n\<close> bytes whose last byte is 0: the
  array then holds the first \<open>n - 1\<close> bytes of \<open>src\<close> (shorter sources are padded with NULs).
\<close>

definition strncpy_array :: "nat \<Rightarrow> string \<Rightarrow> string" where
  "strncpy_array n src = take (n - 1) (c_str src)"

lemma length_strncpy_array: "length (strncpy_array n src) \<le> n - 1"
  by (simp add: strncpy_array_def)

lemma strncpy_array_id: "NUL \<notin> set src \<Longrightarrow> length src < n \<Longrightarrow> strncpy_array n src = src"
  by (simp add: strncpy_array_def c_str_id)

lemma set_strncpy_array: "set (strncpy_array n src) \<subseteq> set src"
  by (auto simp: strncpy_array_def c_str_def dest!: in_set_takeD set_takeWhileD)

text \<open>\<open>strncmp(a, b, n) == 0\<close>.\<close>

definition strncmp_eq :: "string \<Rightarrow> string \<Rightarrow> nat \<Rightarrow> bool" where
  "strncmp_eq a b n \<longleftrightarrow> take n (c_str a) = take n (c_str b)"

text \<open>
  \<open>fgets(buff, n, fp)\<close>: at most \<open>n - 1\<close> bytes, up to and including the first newline;
  a null result at the end of the file. The second component is what is left to read.
\<close>

fun fgets_line :: "nat \<Rightarrow> string \<Rightarrow> string \<times> string" where
  "fgets_line 0 s = ([], s)"
| "fgets_line (Suc n) [] = ([], [])"
| "fgets_line (Suc n) (c # s) =
     (if c = NL then ([c], s) else (let (l, r) = fgets_line n s in (c # l, r)))"

definition fgets :: "nat \<Rightarrow> string \<Rightarrow> (string \<times> string) option" where
  "fgets n s = (if s = [] then None else Some (fgets_line (n - 1) s))"

lemma fgets_line_append: "fst (fgets_line n s) @ snd (fgets_line n s) = s"
  by (induction n s rule: fgets_line.induct) (auto split: prod.splits)

lemma length_fgets_line: "length (fst (fgets_line n s)) \<le> n"
  by (induction n s rule: fgets_line.induct) (auto split: prod.splits)

lemma fgets_line_whole:
  "NL \<notin> set s \<Longrightarrow> length s < n \<Longrightarrow> fgets_line n (s @ NL # r) = (s @ [NL], r)"
proof (induction s arbitrary: n)
  case Nil
  then show ?case by (cases n) auto
next
  case (Cons c s)
  then show ?case by (cases n) auto
qed

lemma fgets_shorter:
  assumes "fgets n s = Some (l, r)" and "1 < n"
  shows "length r < length s"
proof -
  from assms(1) have s: "s \<noteq> []" and lr: "fgets_line (n - 1) s = (l, r)"
    by (auto simp: fgets_def split: if_splits)
  from lr have "l @ r = s"
    using fgets_line_append [of "n - 1" s] by simp
  moreover from s assms(2) lr have "l \<noteq> []"
    by (cases s; cases "n - 1") (auto simp: Let_def split: if_splits prod.splits)
  ultimately show ?thesis by auto
qed

section \<open>Tokens\<close>

text \<open>
  \<open>strtok_r(s, delim, &ptr)\<close> as a function of the saved position: \<open>None\<close> is the null
  position, after which every call gives a null token. The delimiter that ended the token
  is overwritten, so the next call starts after it.
\<close>

definition strtok_r :: "string \<Rightarrow> string option \<Rightarrow> string option \<times> string option" where
  "strtok_r delim pos =
     (case pos of
        None \<Rightarrow> (None, None)
      | Some s \<Rightarrow>
          (let s' = dropWhile (\<lambda>c. c \<in> set delim) s in
           if s' = [] then (None, None)
           else (let tok = takeWhile (\<lambda>c. c \<notin> set delim) s';
                     rest = dropWhile (\<lambda>c. c \<notin> set delim) s'
                 in (Some tok, if rest = [] then None else Some (tl rest)))))"

lemma strtok_r_None [simp]: "strtok_r delim None = (None, None)"
  by (simp add: strtok_r_def)

lemma strtok_r_token:
  assumes "t \<noteq> []" and "\<And>c. c \<in> set t \<Longrightarrow> c \<notin> set delim" and "d \<in> set delim"
    and "\<And>c. c \<in> set pre \<Longrightarrow> c \<in> set delim"
  shows "strtok_r delim (Some (pre @ t @ d # rest)) = (Some t, Some rest)"
proof -
  have drop: "dropWhile (\<lambda>c. c \<in> set delim) (pre @ t @ d # rest) = t @ d # rest"
    using assms(1,2,4) by (induction pre) (cases t, auto)+
  have take: "takeWhile (\<lambda>c. c \<notin> set delim) (t @ d # rest) = t"
    using assms(2,3) by (intro takeWhile_append_stop) auto
  have rest: "dropWhile (\<lambda>c. c \<notin> set delim) (t @ d # rest) = d # rest"
    using assms(2,3) by (intro dropWhile_append_stop) auto
  show ?thesis
    using assms(1) by (simp add: strtok_r_def drop take rest)
qed

lemma strtok_r_set:
  "strtok_r delim (Some s) = (Some t, pos) \<Longrightarrow> set t \<subseteq> set s"
proof
  fix c
  assume "strtok_r delim (Some s) = (Some t, pos)" and "c \<in> set t"
  then have "c \<in> set (takeWhile (\<lambda>c. c \<notin> set delim) (dropWhile (\<lambda>c. c \<in> set delim) s))"
    by (simp add: strtok_r_def Let_def split: if_split_asm)
  then show "c \<in> set s"
    by (meson set_dropWhileD set_takeWhileD)
qed

text \<open>Skipping a number of tokens: that many calls whose results are dropped.\<close>

fun strtok_skip :: "nat \<Rightarrow> string \<Rightarrow> string option \<Rightarrow> string option" where
  "strtok_skip 0 delim pos = pos"
| "strtok_skip (Suc n) delim pos = strtok_skip n delim (snd (strtok_r delim pos))"

text \<open>
  \<open>sscanf(token, "(%[A-Za-z0-9 _.:-])", value) == 1\<close>: an opening parenthesis, then the
  longest non-empty run of characters of the set; the closing parenthesis of the format
  comes after the only conversion and does not change the count. \<open>None\<close> when the count is
  not 1.
\<close>

definition name_char :: "char \<Rightarrow> bool" where
  "name_char c \<longleftrightarrow> isalpha c \<or> isdigit c \<or> c \<in> set '' _.:-''"

definition sscanf_name :: "string \<Rightarrow> string option" where
  "sscanf_name s =
     (case s of
        [] \<Rightarrow> None
      | c # cs \<Rightarrow>
          if c = CHR ''('' then
            (let v = takeWhile name_char cs in if v = [] then None else Some v)
          else None)"

section \<open>Numbers read from text\<close>

definition digit_val :: "nat \<Rightarrow> char \<Rightarrow> nat option" where
  "digit_val base c =
     (let d = (if isdigit c then ord_of c - 48
               else if 97 \<le> ord_of c \<and> ord_of c \<le> 122 then ord_of c - 87
               else if 65 \<le> ord_of c \<and> ord_of c \<le> 90 then ord_of c - 55 else base)
      in if d < base then Some d else None)"

fun digits_prefix :: "nat \<Rightarrow> nat \<Rightarrow> string \<Rightarrow> nat" where
  "digits_prefix base acc [] = acc"
| "digits_prefix base acc (c # cs) =
     (case digit_val base c of None \<Rightarrow> acc | Some d \<Rightarrow> digits_prefix base (base * acc + d) cs)"

text \<open>The optional sign and the magnitude that \<open>strtol\<close> and \<open>strtoull\<close> read.\<close>

definition signed_prefix :: "nat \<Rightarrow> string \<Rightarrow> bool \<times> nat" where
  "signed_prefix base s =
     (case dropWhile isspace s of
        [] \<Rightarrow> (False, 0)
      | c # cs \<Rightarrow>
          if c = CHR ''-'' then (True, digits_prefix base 0 cs)
          else if c = CHR ''+'' then (False, digits_prefix base 0 cs)
          else (False, digits_prefix base 0 (c # cs)))"

text \<open>\<open>strtol(s, nullptr, 10)\<close> where \<open>long\<close> has \<open>bits\<close> bits: it saturates.\<close>

definition strtol :: "nat \<Rightarrow> string \<Rightarrow> int" where
  "strtol bits s =
     (let (neg, m) = signed_prefix 10 s; v = (if neg then - int m else int m)
      in max (- (2 ^ (bits - 1))) (min (2 ^ (bits - 1) - 1) v))"

text \<open>\<open>strtoull(s, nullptr, base)\<close>: saturates at \<open>2^64 - 1\<close>; a minus sign negates modulo
  \<open>2^64\<close>. Base 16 here never sees the optional \<open>0x\<close> prefix (the kernel writes none).\<close>

definition strtoull :: "nat \<Rightarrow> string \<Rightarrow> 64 word" where
  "strtoull base s =
     (let (neg, m) = signed_prefix base s
      in if m \<ge> 2 ^ 64 then - 1 else if neg then - word_of_nat m else word_of_nat m)"

end
