(* ===== verification/C_Format.thy ===== *)
theory C_Format
  imports C_Library
begin

text \<open>
  \<open>printf\<close> formatting as the agent uses it: the conversions \<open>d u x p s\<close>, the flag \<open>0\<close>, a
  field width and the length modifiers \<open>l\<close> and \<open>z\<close>. A format string is parsed into items
  and the items consume the argument list in order, as \<open>va_arg\<close> does: an argument no
  conversion asks for is ignored.
\<close>

section \<open>Format strings\<close>

datatype lenmod = Len_int | Len_long | Len_size
datatype conv = Conv_d | Conv_u | Conv_x | Conv_p | Conv_s
datatype fmt_item = Lit char | Conv bool nat lenmod conv
datatype fmt_state = In_text | In_spec bool nat lenmod

text \<open>An integer or pointer argument is a 64-bit register; a conversion reads as many of its
  low bits as its type has.\<close>

datatype fmt_arg = Reg "64 word" | Str string

definition conv_of :: "char \<Rightarrow> conv option" where
  "conv_of c =
     (if c = CHR ''d'' then Some Conv_d else if c = CHR ''u'' then Some Conv_u
      else if c = CHR ''x'' then Some Conv_x else if c = CHR ''p'' then Some Conv_p
      else if c = CHR ''s'' then Some Conv_s else None)"

fun parse_fmt :: "fmt_state \<Rightarrow> string \<Rightarrow> fmt_item list" where
  "parse_fmt st [] = []"
| "parse_fmt In_text (c # cs) =
     (if c = CHR ''%'' then parse_fmt (In_spec False 0 Len_int) cs
      else Lit c # parse_fmt In_text cs)"
| "parse_fmt (In_spec z w m) (c # cs) =
     (if c = CHR ''0'' \<and> w = 0 then parse_fmt (In_spec True 0 m) cs
      else if isdigit c then parse_fmt (In_spec z (10 * w + (ord_of c - 48)) m) cs
      else if c = CHR ''l'' then parse_fmt (In_spec z w Len_long) cs
      else if c = CHR ''z'' then parse_fmt (In_spec z w Len_size) cs
      else (case conv_of c of
              Some k \<Rightarrow> Conv z w m k # parse_fmt In_text cs
            | None \<Rightarrow> parse_fmt In_text cs))"

section \<open>Rendering\<close>

text \<open>\<open>int\<close> is 32 bits wide; \<open>long\<close>, \<open>size_t\<close> and pointers are as wide as the ABI.\<close>

definition len_bits :: "nat \<Rightarrow> lenmod \<Rightarrow> nat" where
  "len_bits bits m = (case m of Len_int \<Rightarrow> 32 | Len_long \<Rightarrow> bits | Len_size \<Rightarrow> bits)"

definition unsigned_arg :: "nat \<Rightarrow> 64 word \<Rightarrow> nat" where
  "unsigned_arg n r = nat (take_bit n (uint r))"

definition signed_arg :: "nat \<Rightarrow> 64 word \<Rightarrow> int" where
  "signed_arg n r = signed_take_bit (n - 1) (uint r)"

definition pad_field :: "bool \<Rightarrow> nat \<Rightarrow> string \<Rightarrow> string \<Rightarrow> string" where
  "pad_field z w prefix ds =
     (let k = w - (length prefix + length ds)
      in if z then prefix @ replicate k (CHR ''0'') @ ds else replicate k (CHR '' '') @ prefix @ ds)"

definition show_int :: "int \<Rightarrow> string" where
  "show_int i = (if i < 0 then ''-'' else '''') @ radix 10 (nat \<bar>i\<bar>)"

fun render_conv :: "nat \<Rightarrow> bool \<Rightarrow> nat \<Rightarrow> lenmod \<Rightarrow> conv \<Rightarrow> fmt_arg \<Rightarrow> string" where
  "render_conv bits z w m Conv_d (Reg r) =
     (let v = signed_arg (len_bits bits m) r
      in pad_field z w (if v < 0 then ''-'' else '''') (radix 10 (nat \<bar>v\<bar>)))"
| "render_conv bits z w m Conv_u (Reg r) =
     pad_field z w '''' (radix 10 (unsigned_arg (len_bits bits m) r))"
| "render_conv bits z w m Conv_x (Reg r) =
     pad_field z w '''' (radix 16 (unsigned_arg (len_bits bits m) r))"
| "render_conv bits z w m Conv_p (Reg r) = pad_field z w ''0x'' (radix 16 (unsigned_arg bits r))"
| "render_conv bits z w m Conv_s (Str s) = pad_field False w '''' (c_str s)"
| "render_conv bits z w m k a = ''''"

fun render :: "nat \<Rightarrow> fmt_item list \<Rightarrow> fmt_arg list \<Rightarrow> string" where
  "render bits [] args = []"
| "render bits (Lit c # its) args = c # render bits its args"
| "render bits (Conv z w m k # its) [] = render bits its []"
| "render bits (Conv z w m k # its) (a # args) = render_conv bits z w m k a @ render bits its args"

definition vformat :: "nat \<Rightarrow> string \<Rightarrow> fmt_arg list \<Rightarrow> string" where
  "vformat bits fmt args = render bits (parse_fmt In_text fmt) args"

text \<open>\<open>vsnprintf(buffer, size, fmt, args)\<close>: what the buffer holds afterwards, as a C string.\<close>

definition vsnprintf :: "nat \<Rightarrow> nat \<Rightarrow> string \<Rightarrow> fmt_arg list \<Rightarrow> string" where
  "vsnprintf bits sz fmt args = take (sz - 1) (vformat bits fmt args)"

lemma length_vsnprintf: "length (vsnprintf bits sz fmt args) \<le> sz - 1"
  by (simp add: vsnprintf_def)

lemma vsnprintf_id:
  "length (vformat bits fmt args) < sz \<Longrightarrow> vsnprintf bits sz fmt args = vformat bits fmt args"
  by (simp add: vsnprintf_def)

section \<open>Facts on rendered fields\<close>

text \<open>Integers of the code's own widths survive the trip through a register.\<close>

lemma signed_arg_cint [simp]: "signed_arg 32 (ucast (i :: cint)) = sint i"
proof -
  have "uint (ucast i :: 64 word) = uint i"
    using uint_lt2p [of i] by (simp add: unsigned_ucast_eq take_bit_int_eq_self)
  then show ?thesis
    unfolding signed_arg_def
    by (simp add: sint_uint)
qed

lemma unsigned_arg_64 [simp]: "unsigned_arg 64 r = unat r"
proof -
  have "take_bit 64 (uint r) = uint r"
    by (simp flip: unsigned_take_bit_eq add: take_bit_word_eq_self)
  then show ?thesis by (simp only: unsigned_arg_def unat_eq_nat_uint)
qed

lemma signed_arg_64 [simp]: "signed_arg 64 r = sint r"
  by (simp add: signed_arg_def sint_uint)

lemma unsigned_arg_bound: "unsigned_arg n r < 2 ^ n"
proof -
  have "take_bit n (uint r) < 2 ^ n" and "0 \<le> take_bit n (uint r)"
    by simp_all
  then have "nat (take_bit n (uint r)) < nat (2 ^ n)"
    by (subst nat_less_eq_zless) auto
  then show ?thesis by (simp add: unsigned_arg_def nat_power_eq)
qed

lemma signed_arg_bound:
  "0 < n \<Longrightarrow> - (2 ^ (n - 1)) \<le> signed_arg n r \<and> signed_arg n r < 2 ^ (n - 1)"
  by (simp add: signed_arg_def signed_take_bit_int_greater_eq_minus_exp signed_take_bit_int_less_exp)

lemma pad_field_0 [simp]: "pad_field z 0 prefix ds = prefix @ ds"
  by (simp add: pad_field_def)

lemma length_pad_field: "length (pad_field z w p ds) = max w (length p + length ds)"
  by (auto simp: pad_field_def Let_def)

lemma set_pad_field:
  "set (pad_field z w p ds) \<subseteq> insert (CHR ''0'') (insert (CHR '' '') (set p \<union> set ds))"
  by (auto simp: pad_field_def Let_def)

lemma set_pad_field_zero:
  "set (pad_field True w p ds) \<subseteq> insert (CHR ''0'') (set p \<union> set ds)"
  by (auto simp: pad_field_def Let_def)

text \<open>Every digit of a number in base at most 16 is a plain alphanumeric character.\<close>

lemma digit_char_alnum: "d < 16 \<Longrightarrow> isdigit (digit_char d) \<or> isalpha (digit_char d)"
  by (auto simp: isdigit_def isalpha_def of_char_digit_char)

lemma digit_char_isdigit: "d < 10 \<Longrightarrow> isdigit (digit_char d)"
  by (auto simp: isdigit_def of_char_digit_char)

lemma radix10_digits: "c \<in> set (radix 10 n) \<Longrightarrow> isdigit c"
  using set_radix [of 10 n] digit_char_isdigit by auto

lemma radix16_alnum: "c \<in> set (radix 16 n) \<Longrightarrow> isdigit c \<or> isalpha c"
  using set_radix [of 16 n] digit_char_alnum by auto

lemma length_radix_unsigned:
  "n \<le> 64 \<Longrightarrow> length (radix 10 (unsigned_arg n r)) \<le> 20"
proof (rule length_radix)
  assume n: "n \<le> 64"
  have "unsigned_arg n r < 2 ^ n" by (rule unsigned_arg_bound)
  also have "\<dots> \<le> 2 ^ 64" using n by (intro power_increasing) auto
  finally show "unsigned_arg n r < 10 ^ 20" by simp
qed simp_all

lemma length_radix16_unsigned:
  "n \<le> 64 \<Longrightarrow> length (radix 16 (unsigned_arg n r)) \<le> 16"
proof (rule length_radix)
  assume n: "n \<le> 64"
  have "unsigned_arg n r < 2 ^ n" by (rule unsigned_arg_bound)
  also have "\<dots> \<le> 2 ^ 64" using n by (intro power_increasing) auto
  finally show "unsigned_arg n r < 16 ^ 16" by simp
qed simp_all

lemma length_show_signed:
  assumes "0 < n" "n \<le> 64"
  shows "length (show_int (signed_arg n r)) \<le> 20"
proof -
  have "signed_arg n r < 2 ^ (n - 1)" "- (2 ^ (n - 1)) \<le> signed_arg n r"
    using signed_arg_bound [OF assms(1), of r] by auto
  moreover have "(2::int) ^ (n - 1) \<le> 2 ^ 63"
    using assms by (intro power_increasing) auto
  ultimately have "\<bar>signed_arg n r\<bar> \<le> 2 ^ 63" by linarith
  then have "nat \<bar>signed_arg n r\<bar> < 10 ^ 19"
    by (simp add: nat_less_iff)
  then have "length (radix 10 (nat \<bar>signed_arg n r\<bar>)) \<le> 19"
    by (intro length_radix) auto
  then show ?thesis
    by (cases "signed_arg n r < 0") (simp_all add: show_int_def)
qed

lemma render_d_plain [fmt_simps]:
  "render_conv bits False 0 m Conv_d (Reg r) = show_int (signed_arg (len_bits bits m) r)"
  by (simp add: show_int_def Let_def)

lemma render_u_plain [fmt_simps]:
  "render_conv bits False 0 m Conv_u (Reg r) = radix 10 (unsigned_arg (len_bits bits m) r)"
  by simp

lemma render_s_plain [fmt_simps]: "render_conv bits False 0 m Conv_s (Str s) = c_str s"
  by simp

lemma len_bits_simps [simp]:
  "len_bits bits Len_int = 32" "len_bits bits Len_long = bits" "len_bits bits Len_size = bits"
  by (simp_all add: len_bits_def)

section \<open>Reading a rendered number back\<close>

lemma digit_val_digit_char: "d < b \<Longrightarrow> b \<le> 16 \<Longrightarrow> digit_val b (digit_char d) = Some d"
  by (auto simp: digit_val_def isdigit_def of_char_digit_char Let_def)

lemma digits_prefix_append:
  "(\<And>c. c \<in> set xs \<Longrightarrow> digit_val b c \<noteq> None) \<Longrightarrow>
   digits_prefix b acc (xs @ ys) = digits_prefix b (digits_prefix b acc xs) ys"
proof (induction xs arbitrary: acc)
  case (Cons x xs)
  then obtain d where "digit_val b x = Some d" by fastforce
  with Cons show ?case by auto
qed simp

lemma radix_digit_val: "2 \<le> b \<Longrightarrow> b \<le> 16 \<Longrightarrow> c \<in> set (radix b n) \<Longrightarrow> digit_val b c \<noteq> None"
  using set_radix [of b n] digit_val_digit_char [of _ b] by fastforce

lemma digits_prefix_radix:
  assumes "2 \<le> b" "b \<le> 16"
  shows "digits_prefix b 0 (radix b n) = n"
  using assms
proof (induction b n rule: radix.induct)
  case (1 b n)
  show ?case
  proof (cases "n < b")
    case True
    with "1.prems" show ?thesis by (simp add: radix_small digit_val_digit_char)
  next
    case False
    then have step: "radix b n = radix b (n div b) @ [digit_char (n mod b)]"
      using "1.prems" by (simp add: radix.simps [of b n])
    have "digits_prefix b 0 (radix b n) =
        digits_prefix b (digits_prefix b 0 (radix b (n div b))) [digit_char (n mod b)]"
      unfolding step using "1.prems" by (intro digits_prefix_append radix_digit_val) auto
    also have "digits_prefix b 0 (radix b (n div b)) = n div b"
      using "1.IH" "1.prems" False by simp
    finally show ?thesis
      using "1.prems" by (simp add: digit_val_digit_char)
  qed
qed

lemma radix_hd_not_sign:
  "2 \<le> b \<Longrightarrow> b \<le> 16 \<Longrightarrow> c \<in> set (radix b n) \<Longrightarrow> c \<noteq> CHR ''-'' \<and> c \<noteq> CHR ''+'' \<and> \<not> isspace c"
  using radix_digit_val [of b c n]
  by (auto simp: digit_val_def isdigit_def isspace_def Let_def split: if_splits)

lemma signed_prefix_radix:
  assumes "2 \<le> b" "b \<le> 16"
  shows "signed_prefix b (radix b n) = (False, n)"
proof -
  obtain c cs where r: "radix b n = c # cs"
    using radix_nonempty [of b n] by (cases "radix b n") auto
  then have "c \<noteq> CHR ''-'' \<and> c \<noteq> CHR ''+'' \<and> \<not> isspace c"
    using radix_hd_not_sign [OF assms, of c n] by simp
  then show ?thesis
    using digits_prefix_radix [OF assms, of n] by (simp add: signed_prefix_def r)
qed

lemma signed_prefix_minus:
  assumes "2 \<le> b" "b \<le> 16"
  shows "signed_prefix b (CHR ''-'' # radix b n) = (True, n)"
  using digits_prefix_radix [OF assms, of n] by (simp add: signed_prefix_def isspace_def)

lemma strtol_show_int:
  assumes "- (2 ^ (bits - 1)) \<le> i" "i < 2 ^ (bits - 1)"
  shows "strtol bits (show_int i) = i"
  using assms
  by (auto simp: strtol_def show_int_def signed_prefix_minus signed_prefix_radix)

lemma strtoull_radix:
  assumes "2 \<le> b" "b \<le> 16" "n < 2 ^ 64"
  shows "strtoull b (radix b n) = word_of_nat n"
  using assms by (simp add: strtoull_def signed_prefix_radix)

end
