(* ===== verification/Agent_Config.thy ===== *)
theory Agent_Config
  imports C_Format
begin

text \<open>
  The build the agent is compiled for, the limits of \<open>include/agent-ndk.h\<close>, and the machine
  state a signal handler is given (\<open>siginfo_t\<close>, the register part of \<open>ucontext_t\<close>).
\<close>

section \<open>Build configuration\<close>

datatype abi = ARM | AARCH64 | I386 | X86_64

text \<open>The enumerators of the x86 headers that index \<open>gregs\<close>.\<close>

datatype greg_name = REG_EAX | REG_EBX | REG_ECX | REG_EDX | REG_EDI | REG_ESI | REG_EBP | REG_ESP
  | REG_EIP | REG_RIP | REG_RSP | REG_TRAPNO | REG_ERR

text \<open>
  What the preprocessor decides: the target (\<open>__arm__\<close> and its siblings), \<open>__thumb__\<close>,
  \<open>ANDROID_ARM_NEON\<close>, and the platform headers' \<open>PATH_MAX\<close>, \<open>NGREG\<close> and register indices.
\<close>

record build =
  b_abi :: abi
  b_thumb :: bool
  b_neon :: bool
  b_path_max :: nat
  b_ngreg :: nat
  b_reg :: "greg_name \<Rightarrow> nat"

definition abi_bits :: "build \<Rightarrow> nat" where
  "abi_bits b = (case b_abi b of ARM \<Rightarrow> 32 | I386 \<Rightarrow> 32 | AARCH64 \<Rightarrow> 64 | X86_64 \<Rightarrow> 64)"

lemma abi_bits_range [simp]: "0 < abi_bits b" "abi_bits b \<le> 64"
  by (simp_all add: abi_bits_def split: abi.splits)

text \<open>\<open>a - b\<close> on \<open>uintptr_t\<close>: modulo the width of a pointer.\<close>

definition uptr_sub :: "build \<Rightarrow> uptr \<Rightarrow> uptr \<Rightarrow> uptr" where
  "uptr_sub b x y = take_bit (abi_bits b) (x - y)"

definition uptr_add :: "build \<Rightarrow> uptr \<Rightarrow> uptr \<Rightarrow> uptr" where
  "uptr_add b x y = take_bit (abi_bits b) (x + y)"

lemma uptr_add_sub: "uptr_add b (uptr_sub b x y) y = take_bit (abi_bits b) x"
proof -
  have cut: "take_bit n (take_bit n z + y) = take_bit n (z + y)" for n and z :: uptr
    by transfer (simp, metis min.idem take_bit_add take_bit_take_bit)
  have "take_bit n (take_bit n (x - y) + y) = take_bit n x" for n
    by (simp add: cut)
  then show ?thesis by (simp add: uptr_add_def uptr_sub_def)
qed

definition BACKTRACE_FRAMES_MAX :: nat where
  "BACKTRACE_FRAMES_MAX = 100"

definition BACKTRACE_FRAMES_SZ_MAX :: nat where
  "BACKTRACE_FRAMES_SZ_MAX = 1024"

definition BACKTRACE_THREADS_MAX :: nat where
  "BACKTRACE_THREADS_MAX = 100"

definition BACKTRACE_SZ_MAX :: nat where
  "BACKTRACE_SZ_MAX = 0x100000"

definition get_arch :: "build \<Rightarrow> string" where
  "get_arch b =
     (case b_abi b of
        ARM \<Rightarrow> if b_neon b then ''armabi-v7a NEON'' else ''armabi-v7a''
      | AARCH64 \<Rightarrow> ''arm64-v8a''
      | I386 \<Rightarrow> ''x86''
      | X86_64 \<Rightarrow> ''x86_64'')"

text \<open>\<open>strstr(s, sub) != nullptr\<close>.\<close>

fun strstr :: "string \<Rightarrow> string \<Rightarrow> bool" where
  "strstr [] sub = (sub = [])"
| "strstr (c # s) sub = (take (length sub) (c # s) = sub \<or> strstr s sub)"

definition arch_is_32b :: "build \<Rightarrow> bool" where
  "arch_is_32b b \<longleftrightarrow> \<not> strstr (get_arch b) ''64''"

section \<open>Signals and register contexts\<close>

text \<open>\<open>siginfo_t\<close>, the fields the agent reads.\<close>

record siginfo =
  si_signo :: cint
  si_code :: cint
  si_addr :: uptr

text \<open>
  \<open>mcontext_t\<close>. Every ABI has its own layout; the record holds the members of all of them and
  each branch of the code reads those of its own ABI. \<open>gregs\<close> (x86) and \<open>regs\<close> (arm64) are
  indexed memory; an index runs past neither array as long as the build's indices are right.
\<close>

record mcontext =
  mc_gregs :: "nat \<Rightarrow> uptr"
  mc_arm_r :: "nat \<Rightarrow> uptr"
  mc_arm_fp :: uptr
  mc_arm_ip :: uptr
  mc_arm_sp :: uptr
  mc_arm_lr :: uptr
  mc_arm_pc :: uptr
  mc_arm_cpsr :: uptr
  mc_trap_no :: uptr
  mc_error_code :: uptr
  mc_regs :: "nat \<Rightarrow> uptr"
  mc_sp :: uptr
  mc_pc :: uptr
  mc_pstate :: uptr
  mc_fault_address :: uptr

text \<open>A zeroed context, as \<open>ucontext_t _sa_ucontext = {}\<close> makes it.\<close>

definition zero_mcontext :: mcontext where
  "zero_mcontext = \<lparr>mc_gregs = (\<lambda>_. 0), mc_arm_r = (\<lambda>_. 0), mc_arm_fp = 0, mc_arm_ip = 0,
     mc_arm_sp = 0, mc_arm_lr = 0, mc_arm_pc = 0, mc_arm_cpsr = 0, mc_trap_no = 0,
     mc_error_code = 0, mc_regs = (\<lambda>_. 0), mc_sp = 0, mc_pc = 0, mc_pstate = 0,
     mc_fault_address = 0\<rparr>"

text \<open>Two builds for closed examples: arm64, and a thumb build of arm.\<close>

definition arm64_build :: build where
  "arm64_build = \<lparr>b_abi = AARCH64, b_thumb = False, b_neon = False, b_path_max = 4096,
     b_ngreg = 34, b_reg = (\<lambda>_. 0)\<rparr>"

definition arm_build :: build where
  "arm_build = \<lparr>b_abi = ARM, b_thumb = True, b_neon = True, b_path_max = 4096,
     b_ngreg = 16, b_reg = (\<lambda>_. 0)\<rparr>"

lemma arm64_build_simps [simp]:
  "abi_bits arm64_build = 64" "b_path_max arm64_build = 4096" "b_abi arm64_build = AARCH64"
  by (simp_all add: abi_bits_def arm64_build_def)

text \<open>
  The architecture name decides the word size: the \<open>strstr\<close> test on \<open>get_arch()\<close> says
  "32-bit" exactly for the ABIs whose pointers are 32 bits wide, and the name always fits the
  16-byte \<open>arch\<close> field of a backtrace together with its terminator.
\<close>

theorem arch_is_32b_iff:
  "(arch_is_32b b \<longleftrightarrow> abi_bits b = 32) \<and> strncpy_array 16 (get_arch b) = get_arch b"
  by (cases "b_abi b"; cases "b_neon b")
    (simp_all add: arch_is_32b_def get_arch_def abi_bits_def strncpy_array_def c_str_def)

end
