(* ===== verification/Signal_Utils.thy ===== *)
theory Signal_Utils
  imports Agent_Config
begin

text \<open>
  \<open>signal-utils.cpp\<close>: the descriptions of signals, and the wrappers around the kernel's signal
  state (dispositions, the calling thread's mask, the alternate stack). The kernel state is
  explicit; whether a call succeeds is decided by a record of outcomes.
\<close>

unbundle bit_operations_syntax

section \<open>Signal numbers and codes\<close>

definition SIGINT :: int where "SIGINT = 2"
definition SIGQUIT :: int where "SIGQUIT = 3"
definition SIGILL :: int where "SIGILL = 4"
definition SIGTRAP :: int where "SIGTRAP = 5"
definition SIGABRT :: int where "SIGABRT = 6"
definition SIGBUS :: int where "SIGBUS = 7"
definition SIGFPE :: int where "SIGFPE = 8"
definition SIGKILL :: int where "SIGKILL = 9"
definition SIGSEGV :: int where "SIGSEGV = 11"
definition SI_TKILL :: int where "SI_TKILL = -6"

lemmas signo_defs = SIGINT_def SIGQUIT_def SIGILL_def SIGTRAP_def SIGABRT_def SIGBUS_def
  SIGFPE_def SIGKILL_def SIGSEGV_def SI_TKILL_def

text \<open>A C \<open>switch\<close> whose cases all return: the first matching label, else the default.\<close>

fun switch :: "int \<Rightarrow> (int \<times> 'a) list \<Rightarrow> 'a \<Rightarrow> 'a" where
  "switch v [] d = d"
| "switch v ((k, r) # cs) d = (if v = k then r else switch v cs d)"

lemma switch_cases: "switch v cs d \<in> insert d (snd ` set cs)"
  by (induction v cs d rule: switch.induct) auto

definition get_subcode_description :: "int \<Rightarrow> string \<Rightarrow> string" where
  "get_subcode_description code default_description =
     switch code [(SI_TKILL, ''SIG_TKILL'')] default_description"

definition ill_description :: "int \<Rightarrow> string" where
  "ill_description code = switch code
     [(-1, ''SIGILL''), (1, ''Illegal opcode''), (2, ''Illegal operand''),
      (3, ''Illegal addressing mode''), (4, ''Illegal trap''), (5, ''Privileged opcode''),
      (6, ''Privileged register''), (7, ''Coprocessor error''), (8, ''Internal stack error'')]
     (get_subcode_description code ''Illegal operation'')"

definition trap_description :: "int \<Rightarrow> string" where
  "trap_description code = switch code
     [(-1, ''SIGTRAP''), (1, ''Process breakpoint''), (2, ''Process trace trap'')]
     (get_subcode_description code ''Trap'')"

definition segv_description :: "int \<Rightarrow> string" where
  "segv_description code = switch code
     [(-1, ''SIGSEGV''), (1, ''Address not mapped to object''),
      (2, ''Invalid permissions for mapped object'')]
     (get_subcode_description code ''Segmentation violation'')"

definition fpe_description :: "int \<Rightarrow> string" where
  "fpe_description code = switch code
     [(-1, ''SIGFPE''), (1, ''Integer divide by zero''), (2, ''Integer overflow''),
      (3, ''Floating-point divide by zero''), (4, ''Floating-point overflow''),
      (5, ''Floating-point underflow''), (6, ''Floating-point inexact result''),
      (7, ''Invalid floating-point operation''), (8, ''Subscript out of range'')]
     (get_subcode_description code ''Floating-point'')"

definition bus_description :: "int \<Rightarrow> string" where
  "bus_description code = switch code
     [(-1, ''SIGBUS''), (1, ''Invalid address alignment''), (2, ''Nonexistent physical address''),
      (3, ''Object-specific hardware error'')]
     (get_subcode_description code ''Bus error'')"

definition plain_description :: "string \<Rightarrow> string \<Rightarrow> int \<Rightarrow> string" where
  "plain_description name dflt code =
     switch code [(-1, name)] (get_subcode_description code dflt)"

definition get_signal_description :: "int \<Rightarrow> int \<Rightarrow> string" where
  "get_signal_description signo code = switch signo
     [(SIGILL, ill_description code),
      (SIGTRAP, trap_description code),
      (SIGABRT, plain_description ''SIGABRT'' ''Process abort signal'' code),
      (SIGSEGV, segv_description code),
      (SIGFPE, fpe_description code),
      (SIGBUS, bus_description code),
      (SIGINT, plain_description ''SIGINT'' ''Terminal interrupt signal'' code),
      (SIGKILL, plain_description ''SIGKILL'' ''Killed'' code),
      (SIGQUIT, plain_description ''SIGQUIT'' ''Terminal quit signal (ANR)'' code)]
     ''UNKNOWN''"

lemmas description_defs = get_signal_description_def ill_description_def trap_description_def
  segv_description_def fpe_description_def bus_description_def plain_description_def
  get_subcode_description_def

text \<open>
  Every description is drawn from this finite table; facts about all descriptions are
  checked on it once.
\<close>

definition all_descriptions :: "string list" where
  "all_descriptions =
     [''SIG_TKILL'', ''UNKNOWN'', ''SIGILL'', ''Illegal opcode'', ''Illegal operand'',
      ''Illegal addressing mode'', ''Illegal trap'', ''Privileged opcode'', ''Privileged register'',
      ''Coprocessor error'', ''Internal stack error'', ''Illegal operation'', ''SIGTRAP'',
      ''Process breakpoint'', ''Process trace trap'', ''Trap'', ''SIGABRT'', ''Process abort signal'',
      ''SIGSEGV'', ''Address not mapped to object'', ''Invalid permissions for mapped object'',
      ''Segmentation violation'', ''SIGFPE'', ''Integer divide by zero'', ''Integer overflow'',
      ''Floating-point divide by zero'', ''Floating-point overflow'', ''Floating-point underflow'',
      ''Floating-point inexact result'', ''Invalid floating-point operation'',
      ''Subscript out of range'', ''Floating-point'', ''SIGBUS'', ''Invalid address alignment'',
      ''Nonexistent physical address'', ''Object-specific hardware error'', ''Bus error'',
      ''SIGINT'', ''Terminal interrupt signal'', ''SIGKILL'', ''Killed'', ''SIGQUIT'',
      ''Terminal quit signal (ANR)'']"

lemma switch_in: "d \<in> A \<Longrightarrow> snd ` set cs \<subseteq> A \<Longrightarrow> switch v cs d \<in> A"
  using switch_cases [of v cs d] by auto

lemma subcode_in: "d \<in> set all_descriptions \<Longrightarrow> get_subcode_description code d \<in> set all_descriptions"
  unfolding get_subcode_description_def by (rule switch_in) (simp_all add: all_descriptions_def)

lemma description_in_table: "get_signal_description signo code \<in> set all_descriptions"
proof -
  have "ill_description code \<in> set all_descriptions" "trap_description code \<in> set all_descriptions"
    "segv_description code \<in> set all_descriptions" "fpe_description code \<in> set all_descriptions"
    "bus_description code \<in> set all_descriptions"
    unfolding ill_description_def trap_description_def segv_description_def fpe_description_def
      bus_description_def
    by (rule switch_in [OF subcode_in]; simp add: all_descriptions_def)+
  moreover have "plain_description n d code \<in> set all_descriptions"
    if "n \<in> set all_descriptions" "d \<in> set all_descriptions" for n d
    unfolding plain_description_def using that by (intro switch_in subcode_in) auto
  ultimately show ?thesis
    unfolding get_signal_description_def
    by (intro switch_in) (simp_all add: all_descriptions_def)
qed

lemma description_table_facts:
  "list_all (\<lambda>d. d \<noteq> '''' \<and> length d \<le> 40 \<and> clean d) all_descriptions"
  by (simp add: all_descriptions_def clean_def clean_char_def)

lemma description_facts:
  "get_signal_description signo code \<noteq> ''''"
  "length (get_signal_description signo code) \<le> 40"
  "clean (get_signal_description signo code)"
  using description_table_facts description_in_table [of signo code] by (auto simp: list_all_iff)

section \<open>The kernel's signal state\<close>

datatype handler = SIG_DFL | SIG_IGN | Interceptor | Anr_Interceptor | App_Handler nat

definition SA_SIGINFO :: cint where "SA_SIGINFO = 4"
definition SA_ONSTACK :: cint where "SA_ONSTACK = 0x08000000"

text \<open>\<open>struct sigaction\<close>; \<open>sa_handler\<close> and \<open>sa_sigaction\<close> share their storage.\<close>

record sigact =
  sa_flags :: cint
  sa_handler :: handler

definition zero_sigact :: sigact where
  "zero_sigact = \<lparr>sa_flags = 0, sa_handler = SIG_DFL\<rparr>"

text \<open>\<open>stack_t\<close>; \<open>ss_sp\<close> is a heap block or null.\<close>

record sigstack =
  ss_sp :: "nat option"
  ss_size :: nat
  ss_flags :: cint

record kernel =
  k_disp :: "int \<Rightarrow> sigact"
  k_blocked :: "int \<Rightarrow> bool"
  k_altstack :: "sigstack option"
  k_heap :: "nat list"
  k_fresh :: nat

text \<open>Outcomes of the library calls; \<open>True\<close> is success.\<close>

record outcomes =
  o_malloc :: bool
  o_sigaltstack :: bool
  o_sigemptyset :: bool
  o_sigaddset :: "int \<Rightarrow> bool"
  o_sigmask :: bool
  o_sigaction :: "int \<Rightarrow> bool"

definition all_ok :: outcomes where
  "all_ok = \<lparr>o_malloc = True, o_sigaltstack = True, o_sigemptyset = True,
     o_sigaddset = (\<lambda>_. True), o_sigmask = True, o_sigaction = (\<lambda>_. True)\<rparr>"

section \<open>Wrappers\<close>

definition malloc :: "outcomes \<Rightarrow> kernel \<Rightarrow> nat option \<times> kernel" where
  "malloc os k =
     (if o_malloc os
      then (Some (k_fresh k), k\<lparr>k_heap := k_fresh k # k_heap k, k_fresh := Suc (k_fresh k)\<rparr>)
      else (None, k))"

definition set_sigstack :: "outcomes \<Rightarrow> sigstack \<Rightarrow> nat \<Rightarrow> kernel \<Rightarrow> bool \<times> sigstack \<times> kernel" where
  "set_sigstack os stk stackSize k =
     (let (p, k1) = malloc os k; stk1 = stk\<lparr>ss_sp := p\<rparr>
      in case p of
           Some _ \<Rightarrow>
             (let stk2 = stk1\<lparr>ss_size := stackSize, ss_flags := 0\<rparr>
              in if o_sigaltstack os then (True, stk2, k1\<lparr>k_altstack := Some stk2\<rparr>)
                 else (False, stk2, k1))
         | None \<Rightarrow> (False, stk1, k1))"

definition block_signal :: "outcomes \<Rightarrow> int \<Rightarrow> kernel \<Rightarrow> bool \<times> kernel" where
  "block_signal os signo k =
     (if o_sigemptyset os \<and> o_sigaddset os signo \<and> o_sigmask os
      then (True, k\<lparr>k_blocked := (k_blocked k)(signo := True)\<rparr>) else (False, k))"

definition unblock_signal :: "outcomes \<Rightarrow> int \<Rightarrow> kernel \<Rightarrow> bool \<times> kernel" where
  "unblock_signal os signo k =
     (if o_sigemptyset os \<and> o_sigaddset os signo \<and> o_sigmask os
      then (True, k\<lparr>k_blocked := (k_blocked k)(signo := False)\<rparr>) else (False, k))"

text \<open>\<open>sigaction(signo, &act, &old)\<close>: the result code 0 as \<open>True\<close>, and the old action, which
  is written only on success.\<close>

definition sigaction :: "outcomes \<Rightarrow> int \<Rightarrow> sigact \<Rightarrow> kernel \<Rightarrow> bool \<times> sigact option \<times> kernel" where
  "sigaction os signo act k =
     (if o_sigaction os signo
      then (True, Some (k_disp k signo), k\<lparr>k_disp := (k_disp k)(signo := act)\<rparr>)
      else (False, None, k))"

definition install_handler ::
  "outcomes \<Rightarrow> int \<Rightarrow> handler \<Rightarrow> cint \<Rightarrow> kernel \<Rightarrow> bool \<times> sigact option \<times> kernel" where
  "install_handler os signo sig_action flags k =
     (if o_sigemptyset os
      then sigaction os signo (zero_sigact\<lparr>sa_flags := SA_SIGINFO OR flags, sa_handler := sig_action\<rparr>) k
      else (False, None, k))"

definition uninstall_handler1 :: "outcomes \<Rightarrow> int \<Rightarrow> sigact \<Rightarrow> kernel \<Rightarrow> bool \<times> kernel" where
  "uninstall_handler1 os signo act k = (let (ok, _, k') = sigaction os signo act k in (ok, k'))"

lemma SA_SIGINFO_in_flags: "(SA_SIGINFO OR flags) AND SA_SIGINFO = SA_SIGINFO"
  by (simp add: and.commute)

end
