(* ===== verification/Unwinder.thy ===== *)
theory Unwinder
  imports Signal_Utils
begin

text \<open>
  \<open>unwinder.cpp\<close>: recording the frames of the crashing stack into the fixed array of a
  \<open>backtrace_state_t\<close>, and resolving an address to a stack frame.
  The platform's unwinder (\<open>_Unwind_Backtrace\<close>) walks the stack and hands the callback one
  context after another until the callback asks it to stop; \<open>dladdr\<close> and the C++ demangler are
  parameters.
\<close>

unbundle bit_operations_syntax

section \<open>State\<close>

record backtrace_state =
  bs_frames :: "uptr list"
  bs_frame_cnt :: nat
  bs_skipped_frames :: int
  bs_crash_ip :: uptr
  bs_sa_ucontext :: "mcontext option"
  bs_siginfo :: "siginfo option"

text \<open>\<open>backtrace_state_t\<close> as \<open>backtrace_t backtrace = {}\<close> zeroes it.\<close>

definition zero_backtrace_state :: backtrace_state where
  "zero_backtrace_state = \<lparr>bs_frames = replicate BACKTRACE_FRAMES_MAX 0, bs_frame_cnt = 0,
     bs_skipped_frames = 0, bs_crash_ip = 0, bs_sa_ucontext = None, bs_siginfo = None\<rparr>"

datatype unwind_reason = URC_NO_REASON | URC_END_OF_STACK

section \<open>Recording frames\<close>

definition crash_ip_from_mcontext :: "build \<Rightarrow> mcontext \<Rightarrow> uptr" where
  "crash_ip_from_mcontext b mc =
     (case b_abi b of
        I386 \<Rightarrow> mc_gregs mc (b_reg b REG_EIP)
      | X86_64 \<Rightarrow> mc_gregs mc (b_reg b REG_RIP)
      | ARM \<Rightarrow> mc_arm_pc mc
      | AARCH64 \<Rightarrow> mc_pc mc)"

definition clear_thumb_bit :: "build \<Rightarrow> uptr \<Rightarrow> uptr" where
  "clear_thumb_bit b ip = (if b_thumb b then ip AND NOT 1 else ip)"

definition record_frame :: "build \<Rightarrow> uptr \<Rightarrow> backtrace_state \<Rightarrow> bool \<times> backtrace_state" where
  "record_frame b ip0 st =
     (if bs_frame_cnt st \<ge> BACKTRACE_FRAMES_MAX then (False, st)
      else
        (let ip = clear_thumb_bit b ip0 in
         if bs_frame_cnt st > 0 \<and> ip = 0 then
           (True, st\<lparr>bs_skipped_frames := bs_skipped_frames st + 1\<rparr>)
         else if bs_frame_cnt st > 0 \<and> ip = bs_frames st ! (bs_frame_cnt st - 1) then
           (True, st\<lparr>bs_skipped_frames := bs_skipped_frames st + 1\<rparr>)
         else
           (True, st\<lparr>bs_frames := (bs_frames st)[bs_frame_cnt st := ip],
                     bs_frame_cnt := Suc (bs_frame_cnt st)\<rparr>)))"

text \<open>The adjustment of an instruction pointer that is not the crash address.\<close>

definition adjust_ip :: "build \<Rightarrow> uptr \<Rightarrow> uptr" where
  "adjust_ip b ip = (if ip > 0 \<and> b_abi b = AARCH64 then ip - 4 else ip)"

text \<open>
  The callback. A context of the unwinder is the instruction pointer \<open>_Unwind_GetIPInfo\<close> reads
  from it; the "ip before instruction" flag is only logged.
\<close>

definition unwinder_cb :: "build \<Rightarrow> uptr \<Rightarrow> backtrace_state \<Rightarrow> unwind_reason \<times> backtrace_state" where
  "unwinder_cb b ip st =
     (let (ip', st') =
        (if ip = bs_crash_ip st
         then (ip, st\<lparr>bs_skipped_frames := int (bs_frame_cnt st), bs_frame_cnt := 0\<rparr>)
         else (adjust_ip b ip, st));
        (ok, st'') = record_frame b ip' st'
      in (if ok then URC_NO_REASON else URC_END_OF_STACK, st''))"

text \<open>\<open>_Unwind_Backtrace(cb, arg)\<close> over the stack's contexts, innermost first.\<close>

fun Unwind_Backtrace :: "('c \<Rightarrow> 's \<Rightarrow> unwind_reason \<times> 's) \<Rightarrow> 'c list \<Rightarrow> 's \<Rightarrow> 's" where
  "Unwind_Backtrace cb [] s = s"
| "Unwind_Backtrace cb (c # cs) s =
     (case cb c s of
        (URC_NO_REASON, s') \<Rightarrow> Unwind_Backtrace cb cs s'
      | (URC_END_OF_STACK, s') \<Rightarrow> s')"

definition unwind_backtrace :: "build \<Rightarrow> uptr list \<Rightarrow> backtrace_state \<Rightarrow> bool \<times> backtrace_state" where
  "unwind_backtrace b contexts st =
     (case bs_sa_ucontext st of
        None \<Rightarrow> (False, st)
      | Some mc \<Rightarrow>
          (True, Unwind_Backtrace (unwinder_cb b) contexts
             (st\<lparr>bs_skipped_frames := 0, bs_frame_cnt := 0,
                 bs_crash_ip := crash_ip_from_mcontext b mc\<rparr>)))"

section \<open>The recorded stack as a list\<close>

definition captured :: "backtrace_state \<Rightarrow> uptr list" where
  "captured st = take (bs_frame_cnt st) (bs_frames st)"

definition wf_bstate :: "backtrace_state \<Rightarrow> bool" where
  "wf_bstate st \<longleftrightarrow> length (bs_frames st) = BACKTRACE_FRAMES_MAX \<and> bs_frame_cnt st \<le> BACKTRACE_FRAMES_MAX"

text \<open>What one callback does, on lists: a crash address starts the list anew, a null or repeated
  address is dropped, a full list stops the walk.\<close>

definition spec_record :: "build \<Rightarrow> uptr \<Rightarrow> uptr list \<Rightarrow> bool \<times> uptr list" where
  "spec_record b ip0 xs =
     (if length xs \<ge> BACKTRACE_FRAMES_MAX then (False, xs)
      else (let ip = clear_thumb_bit b ip0 in
            (True, if xs \<noteq> [] \<and> (ip = 0 \<or> ip = last xs) then xs else xs @ [ip])))"

definition spec_cb :: "build \<Rightarrow> uptr \<Rightarrow> uptr \<Rightarrow> uptr list \<Rightarrow> unwind_reason \<times> uptr list" where
  "spec_cb b crash ip xs =
     (let (ok, ys) = (if ip = crash then spec_record b ip [] else spec_record b (adjust_ip b ip) xs)
      in (if ok then URC_NO_REASON else URC_END_OF_STACK, ys))"

lemma length_captured [simp]: "wf_bstate st \<Longrightarrow> length (captured st) = bs_frame_cnt st"
  by (simp add: captured_def wf_bstate_def)

lemma record_frame_refines:
  assumes "wf_bstate st"
  shows "wf_bstate (snd (record_frame b ip st)) \<and>
    fst (record_frame b ip st) = fst (spec_record b ip (captured st)) \<and>
    captured (snd (record_frame b ip st)) = snd (spec_record b ip (captured st)) \<and>
    bs_crash_ip (snd (record_frame b ip st)) = bs_crash_ip st"
proof (cases "bs_frame_cnt st \<ge> BACKTRACE_FRAMES_MAX")
  case True
  with assms show ?thesis by (simp add: record_frame_def spec_record_def)
next
  case False
  with assms have lt: "bs_frame_cnt st < length (bs_frames st)"
    and len: "length (bs_frames st) = BACKTRACE_FRAMES_MAX"
    by (simp_all add: wf_bstate_def)
  have last: "bs_frame_cnt st > 0 \<Longrightarrow> last (captured st) = bs_frames st ! (bs_frame_cnt st - 1)"
    using lt by (simp add: captured_def last_take_conv)
  have ne: "captured st \<noteq> [] \<longleftrightarrow> bs_frame_cnt st > 0"
    using lt by (auto simp: captured_def)
  show ?thesis
    using assms False lt len last ne
    by (auto simp: record_frame_def spec_record_def Let_def wf_bstate_def take_Suc_snoc captured_def)
qed

lemma unwinder_cb_refines:
  assumes "wf_bstate st"
  shows "wf_bstate (snd (unwinder_cb b ip st)) \<and>
    fst (unwinder_cb b ip st) = fst (spec_cb b (bs_crash_ip st) ip (captured st)) \<and>
    captured (snd (unwinder_cb b ip st)) = snd (spec_cb b (bs_crash_ip st) ip (captured st)) \<and>
    bs_crash_ip (snd (unwinder_cb b ip st)) = bs_crash_ip st"
proof (cases "ip = bs_crash_ip st")
  case True
  let ?st = "st\<lparr>bs_skipped_frames := int (bs_frame_cnt st), bs_frame_cnt := 0\<rparr>"
  have "wf_bstate ?st" and "captured ?st = []"
    using assms by (simp_all add: wf_bstate_def captured_def)
  with True show ?thesis
    using record_frame_refines [of ?st b ip]
    by (auto simp: unwinder_cb_def spec_cb_def split: prod.splits)
next
  case False
  then show ?thesis
    using record_frame_refines [OF assms, of b "adjust_ip b ip"]
    by (auto simp: unwinder_cb_def spec_cb_def split: prod.splits)
qed

lemma Unwind_Backtrace_refines:
  assumes "wf_bstate st"
  shows "wf_bstate (Unwind_Backtrace (unwinder_cb b) cs st) \<and>
    captured (Unwind_Backtrace (unwinder_cb b) cs st) =
      Unwind_Backtrace (spec_cb b (bs_crash_ip st)) cs (captured st)"
  using assms
proof (induction cs arbitrary: st)
  case Nil
  then show ?case by simp
next
  case (Cons c cs)
  obtain r st' where cb: "unwinder_cb b c st = (r, st')" by fastforce
  obtain ys where sp: "spec_cb b (bs_crash_ip st) c (captured st) = (r, ys)"
    and "wf_bstate st'" "captured st' = ys" "bs_crash_ip st' = bs_crash_ip st"
    using unwinder_cb_refines [OF Cons.prems, of b c] cb
    by (cases "spec_cb b (bs_crash_ip st) c (captured st)") auto
  then show ?case
    using Cons.IH [of st'] by (cases r) (simp_all add: cb sp)
qed

section \<open>What the list specification computes\<close>

definition stack_inv :: "uptr list \<Rightarrow> bool" where
  "stack_inv xs \<longleftrightarrow> length xs \<le> BACKTRACE_FRAMES_MAX \<and> distinct_adj xs \<and> 0 \<notin> set (tl xs)"

lemma stack_inv_snoc:
  "stack_inv xs \<Longrightarrow> length xs < BACKTRACE_FRAMES_MAX \<Longrightarrow> xs = [] \<or> (x \<noteq> 0 \<and> x \<noteq> last xs) \<Longrightarrow> stack_inv (xs @ [x])"
  by (auto simp: stack_inv_def distinct_adj_append_iff tl_append split: list.splits)

lemma stack_inv_Nil [simp]: "stack_inv []"
  by (simp add: stack_inv_def)

lemma spec_record_inv: "stack_inv xs \<Longrightarrow> stack_inv (snd (spec_record b ip xs))"
  using stack_inv_snoc [of xs "clear_thumb_bit b ip"] by (auto simp: spec_record_def Let_def)

lemma spec_cb_inv: "stack_inv xs \<Longrightarrow> stack_inv (snd (spec_cb b crash ip xs))"
  using spec_record_inv [of xs b "adjust_ip b ip"] spec_record_inv [of "[]" b ip]
  by (auto simp: spec_cb_def split: prod.splits)

lemma Unwind_Backtrace_inv:
  "stack_inv xs \<Longrightarrow> stack_inv (Unwind_Backtrace (spec_cb b crash) cs xs)"
proof (induction cs arbitrary: xs)
  case (Cons c cs)
  obtain r ys where cb: "spec_cb b crash c xs = (r, ys)" by fastforce
  then have "stack_inv ys" using spec_cb_inv [OF Cons.prems, of b crash c] by simp
  then show ?case using Cons.IH by (cases r) (simp_all add: cb)
qed simp

text \<open>
  Away from the crash address the walk appends what is left of the stack once nulls and
  immediate repetitions are gone, up to the array's size.
\<close>

definition visible :: "build \<Rightarrow> uptr list \<Rightarrow> uptr list" where
  "visible b cs = filter (\<lambda>a. a \<noteq> 0) (map (\<lambda>ip. clear_thumb_bit b (adjust_ip b ip)) cs)"

lemma remdups_adj_append_distinct:
  assumes "xs \<noteq> []" and "distinct_adj xs"
  shows "remdups_adj (xs @ ys) = xs @ tl (remdups_adj (last xs # ys))"
proof -
  have "remdups_adj (butlast xs @ last xs # ys) =
      remdups_adj (butlast xs @ [last xs]) @ tl (remdups_adj (last xs # ys))"
    by (rule remdups_adj_append)
  moreover have "butlast xs @ [last xs] = xs"
    using assms(1) by simp
  moreover from this have "butlast xs @ last xs # ys = xs @ ys"
    by (metis append.assoc append_Cons append_Nil)
  ultimately show ?thesis
    using assms(2) by (simp add: distinct_adj_altdef)
qed

lemma remdups_adj_append_same:
  "xs \<noteq> [] \<Longrightarrow> distinct_adj xs \<Longrightarrow> remdups_adj (xs @ last xs # ys) = remdups_adj (xs @ ys)"
  by (simp add: remdups_adj_append_distinct)

lemma visible_Cons:
  "visible b (c # cs) =
    (let ip = clear_thumb_bit b (adjust_ip b c) in if ip = 0 then visible b cs else ip # visible b cs)"
  by (simp add: visible_def Let_def)

lemma spec_walk:
  assumes "crash \<notin> set cs" and "xs \<noteq> []" and "distinct_adj xs"
    and "length xs \<le> BACKTRACE_FRAMES_MAX"
  shows "Unwind_Backtrace (spec_cb b crash) cs xs =
    take BACKTRACE_FRAMES_MAX (remdups_adj (xs @ visible b cs))"
  using assms
proof (induction cs arbitrary: xs)
  case Nil
  then show ?case by (simp add: visible_def distinct_adj_altdef)
next
  case (Cons c cs)
  let ?ip = "clear_thumb_bit b (adjust_ip b c)"
  have other: "c \<noteq> crash" "crash \<notin> set cs"
    using Cons.prems(1) by auto
  consider (full) "length xs = BACKTRACE_FRAMES_MAX"
    | (skip) "length xs < BACKTRACE_FRAMES_MAX" "?ip = 0 \<or> ?ip = last xs"
    | (add) "length xs < BACKTRACE_FRAMES_MAX" "?ip \<noteq> 0" "?ip \<noteq> last xs"
    using Cons.prems(4) by linarith
  then show ?case
  proof cases
    case full
    then have "spec_cb b crash c xs = (URC_END_OF_STACK, xs)"
      using other by (simp add: spec_cb_def spec_record_def)
    with full Cons.prems(2,3) show ?thesis
      by (simp add: remdups_adj_append_distinct)
  next
    case skip
    then have "spec_cb b crash c xs = (URC_NO_REASON, xs)"
      using other Cons.prems(2) by (auto simp: spec_cb_def spec_record_def Let_def)
    moreover have "remdups_adj (xs @ visible b (c # cs)) = remdups_adj (xs @ visible b cs)"
      using skip(2) Cons.prems(2,3) by (auto simp: visible_Cons Let_def remdups_adj_append_same)
    ultimately show ?thesis
      using Cons.IH [OF other(2) Cons.prems(2-4)] by simp
  next
    case add
    then have "spec_cb b crash c xs = (URC_NO_REASON, xs @ [?ip])"
      using other Cons.prems(2) by (auto simp: spec_cb_def spec_record_def Let_def)
    moreover have "distinct_adj (xs @ [?ip])" "length (xs @ [?ip]) \<le> BACKTRACE_FRAMES_MAX"
      using add Cons.prems(3) by (auto simp: distinct_adj_append_iff)
    ultimately show ?thesis
      using Cons.IH [OF other(2), of "xs @ [?ip]"] add by (simp add: visible_Cons)
  qed
qed

text \<open>Before the crash address: at most one entry per callback, so the walk goes on while the
  array cannot have filled up.\<close>

lemma spec_prefix:
  assumes "length xs + length pre \<le> BACKTRACE_FRAMES_MAX"
  shows "\<exists>ys. Unwind_Backtrace (spec_cb b crash) (pre @ cs) xs = Unwind_Backtrace (spec_cb b crash) cs ys
    \<and> length ys \<le> BACKTRACE_FRAMES_MAX"
  using assms
proof (induction pre arbitrary: xs)
  case Nil
  then show ?case by auto
next
  case (Cons c pre)
  obtain r ys where cb: "spec_cb b crash c xs = (r, ys)" by fastforce
  with Cons.prems have "r = URC_NO_REASON" "length ys \<le> Suc (length xs)"
    by (auto simp: spec_cb_def spec_record_def Let_def split: if_splits)
  with cb Cons.prems Cons.IH [of ys] show ?case by auto
qed

lemma spec_crash_step:
  "spec_cb b crash crash xs = (URC_NO_REASON, [clear_thumb_bit b crash])"
  by (simp add: spec_cb_def spec_record_def BACKTRACE_FRAMES_MAX_def)

lemma spec_whole_walk:
  assumes "length pre \<le> BACKTRACE_FRAMES_MAX" and "crash \<notin> set post"
  shows "Unwind_Backtrace (spec_cb b crash) (pre @ crash # post) [] =
    take BACKTRACE_FRAMES_MAX (remdups_adj (clear_thumb_bit b crash # visible b post))"
proof -
  obtain ys where "Unwind_Backtrace (spec_cb b crash) (pre @ crash # post) [] =
      Unwind_Backtrace (spec_cb b crash) (crash # post) ys"
    using spec_prefix [of "[]" pre b crash "crash # post"] assms(1) by auto
  also have "\<dots> = Unwind_Backtrace (spec_cb b crash) post [clear_thumb_bit b crash]"
    by (simp add: spec_crash_step)
  also have "\<dots> = take BACKTRACE_FRAMES_MAX (remdups_adj ([clear_thumb_bit b crash] @ visible b post))"
    using assms(2) by (intro spec_walk) (simp_all add: BACKTRACE_FRAMES_MAX_def)
  finally show ?thesis by simp
qed

section \<open>Resolving an address\<close>

record stackframe =
  sf_index :: uptr
  sf_address :: uptr
  sf_pc :: uptr
  sf_so_path :: string
  sf_sym_name :: string
  sf_so_base :: uptr
  sf_sym_addr :: uptr
  sf_sym_addr_offset :: uptr

definition zero_stackframe :: stackframe where
  "zero_stackframe = \<lparr>sf_index = 0, sf_address = 0, sf_pc = 0, sf_so_path = [], sf_sym_name = [],
     sf_so_base = 0, sf_sym_addr = 0, sf_sym_addr_offset = 0\<rparr>"

text \<open>\<open>Dl_info\<close>, and the two services an address is resolved with: \<open>dladdr\<close> (\<open>None\<close> when it
  returns 0) and \<open>__cxa_demangle\<close> (\<open>None\<close> when it returns null or a non-zero status).\<close>

record dl_info =
  dli_fname :: "string option"
  dli_fbase :: uptr
  dli_sname :: "string option"
  dli_saddr :: uptr

record symbols =
  s_dladdr :: "uptr \<Rightarrow> dl_info option"
  s_demangle :: "string \<Rightarrow> string option"

definition symbol_name :: "symbols \<Rightarrow> string \<Rightarrow> string" where
  "symbol_name sy symbol = (case s_demangle sy symbol of Some d \<Rightarrow> d | None \<Rightarrow> symbol)"

definition transform_addr_to_stackframe ::
  "build \<Rightarrow> symbols \<Rightarrow> uptr \<Rightarrow> uptr \<Rightarrow> stackframe \<Rightarrow> stackframe" where
  "transform_addr_to_stackframe b sy index address sf0 =
     (let sf = sf0\<lparr>sf_index := index, sf_address := address\<rparr>
      in case s_dladdr sy address of
           None \<Rightarrow> sf
         | Some info \<Rightarrow>
             (let sf1 = (case dli_fname info of
                           Some f \<Rightarrow> sf\<lparr>sf_so_path := strncpy_array (b_path_max b) f\<rparr>
                         | None \<Rightarrow> sf);
                  sf2 = (case dli_sname info of
                           Some s \<Rightarrow> sf1\<lparr>sf_sym_name := strncpy_array 255 (symbol_name sy s)\<rparr>
                         | None \<Rightarrow> sf1);
                  sf3 = sf2\<lparr>sf_so_base := dli_fbase info, sf_sym_addr := dli_saddr info\<rparr>;
                  sf4 = (if sf_sym_addr sf3 \<noteq> 0
                         then sf3\<lparr>sf_sym_addr_offset := uptr_sub b address (sf_sym_addr sf3)\<rparr>
                         else sf3)
              in sf4\<lparr>sf_pc := uptr_sub b address (sf_so_base sf4)\<rparr>))"

definition resolve_frame :: "build \<Rightarrow> symbols \<Rightarrow> nat \<Rightarrow> uptr \<Rightarrow> stackframe" where
  "resolve_frame b sy i a = transform_addr_to_stackframe b sy (word_of_nat i) a zero_stackframe"

lemma resolve_frame_strings:
  "length (sf_so_path (resolve_frame b sy i a)) \<le> b_path_max b - 1"
  "length (sf_sym_name (resolve_frame b sy i a)) \<le> 254"
  using length_strncpy_array [of "b_path_max b"] length_strncpy_array [of 255]
  by (auto simp: resolve_frame_def transform_addr_to_stackframe_def zero_stackframe_def Let_def
      split: option.splits)

lemma resolve_frame_index [simp]:
  "sf_index (resolve_frame b sy i a) = word_of_nat i" "sf_address (resolve_frame b sy i a) = a"
  by (auto simp: resolve_frame_def transform_addr_to_stackframe_def Let_def split: option.splits)

section \<open>Properties\<close>

text \<open>The start of a walk, and the walk as the list specification sees it.\<close>

lemma unwind_backtrace_spec:
  assumes "bs_sa_ucontext st = Some mc" and "length (bs_frames st) = BACKTRACE_FRAMES_MAX"
  shows "wf_bstate (snd (unwind_backtrace b contexts st)) \<and>
    captured (snd (unwind_backtrace b contexts st)) =
      Unwind_Backtrace (spec_cb b (crash_ip_from_mcontext b mc)) contexts []"
proof -
  let ?st = "st\<lparr>bs_skipped_frames := 0, bs_frame_cnt := 0, bs_crash_ip := crash_ip_from_mcontext b mc\<rparr>"
  have "wf_bstate ?st" and "captured ?st = []"
    using assms(2) by (simp_all add: wf_bstate_def captured_def)
  with Unwind_Backtrace_refines [of ?st b contexts] assms(1) show ?thesis
    by (simp add: unwind_backtrace_def)
qed

text \<open>
  C15. Refinement: the walk over the fixed array, its counter and its in-place resets computes
  the list specification, in which a crash address starts the list anew, an address that repeats
  the last one, or is null with the list not empty, is dropped, and a list of 100 entries ends the
  walk. A null first address is recorded. Without a register context nothing is recorded and the
  state is returned as it was.
\<close>

theorem unwind_refines_list_walk:
  assumes "length (bs_frames st) = BACKTRACE_FRAMES_MAX"
  shows "case bs_sa_ucontext st of
      None \<Rightarrow> unwind_backtrace b contexts st = (False, st)
    | Some mc \<Rightarrow> fst (unwind_backtrace b contexts st) \<and>
        captured (snd (unwind_backtrace b contexts st)) =
          Unwind_Backtrace (spec_cb b (crash_ip_from_mcontext b mc)) contexts []"
  using unwind_backtrace_spec [OF _ assms]
  by (auto simp: unwind_backtrace_def split: option.splits)

theorem unwind_refines_list_walk_witness:
  "captured (snd (unwind_backtrace arm64_build [0x1000, 0x2004, 0x2004, 0x3008]
      (zero_backtrace_state\<lparr>bs_sa_ucontext := Some zero_mcontext\<rparr>))) =
    Unwind_Backtrace (spec_cb arm64_build 0) [0x1000, 0x2004, 0x2004, 0x3008] []"
  using unwind_refines_list_walk
    [of "zero_backtrace_state\<lparr>bs_sa_ucontext := Some zero_mcontext\<rparr>" arm64_build
      "[0x1000, 0x2004, 0x2004, 0x3008]"]
  by (simp add: zero_backtrace_state_def crash_ip_from_mcontext_def arm64_build_def zero_mcontext_def)

text \<open>
  C20. The shape of every recorded stack: whatever addresses the platform's unwinder reports,
  the array bounds are never exceeded, no two neighbouring frames are equal and no frame after
  the first is null.
\<close>

theorem unwind_stack_inv:
  assumes "bs_sa_ucontext st = Some mc" and "length (bs_frames st) = BACKTRACE_FRAMES_MAX"
    and "unwind_backtrace b contexts st = (r, st')"
  shows "bs_frame_cnt st' \<le> BACKTRACE_FRAMES_MAX \<and> length (bs_frames st') = BACKTRACE_FRAMES_MAX \<and>
    distinct_adj (captured st') \<and> 0 \<notin> set (tl (captured st'))"
proof -
  have "stack_inv (captured st')" and "wf_bstate st'"
    using unwind_backtrace_spec [OF assms(1,2), of b contexts] assms(3)
      Unwind_Backtrace_inv [OF stack_inv_Nil] by simp_all
  then show ?thesis by (simp add: stack_inv_def wf_bstate_def)
qed

theorem unwind_stack_inv_witness:
  "let st = zero_backtrace_state\<lparr>bs_sa_ucontext := Some zero_mcontext\<rparr>;
       st' = snd (unwind_backtrace arm64_build [0x1000, 0x1000, 4, 0x2004] st)
   in distinct_adj (captured st') \<and> 0 \<notin> set (tl (captured st'))"
  using unwind_stack_inv [of "zero_backtrace_state\<lparr>bs_sa_ucontext := Some zero_mcontext\<rparr>"
      zero_mcontext arm64_build "[0x1000, 0x1000, 4, 0x2004]", OF _ _ prod.collapse [symmetric]]
  by (simp add: zero_backtrace_state_def Let_def)

text \<open>
  C19. The crash stack: when the unwinder meets the crash address after at most 100 inner frames
  (the signal handler's own), those are all discarded, and the report's stack is the crash
  address followed by the outer frames, adjusted for the ABI, without nulls and immediate
  repetitions, cut at 100 entries.
\<close>

theorem unwind_crash_stack:
  assumes "bs_sa_ucontext st = Some mc" and "length (bs_frames st) = BACKTRACE_FRAMES_MAX"
    and "crash_ip_from_mcontext b mc = crash" and "crash \<notin> set post"
    and "length pre \<le> BACKTRACE_FRAMES_MAX"
  shows "captured (snd (unwind_backtrace b (pre @ crash # post) st)) =
    take BACKTRACE_FRAMES_MAX (remdups_adj (clear_thumb_bit b crash # visible b post))"
  using unwind_backtrace_spec [OF assms(1,2)] spec_whole_walk [OF assms(5,4)] assms(3) by simp

theorem unwind_crash_stack_witness:
  "captured (snd (unwind_backtrace arm64_build [0x7004, 0x7008, 0x5000, 0x3004, 0x3004, 0, 0x2004]
      (zero_backtrace_state\<lparr>bs_sa_ucontext := Some (zero_mcontext\<lparr>mc_pc := 0x5000\<rparr>)\<rparr>))) =
    [0x5000, 0x3000, 0x2000]"
  using unwind_crash_stack
    [of "zero_backtrace_state\<lparr>bs_sa_ucontext := Some (zero_mcontext\<lparr>mc_pc := 0x5000\<rparr>)\<rparr>"
      "zero_mcontext\<lparr>mc_pc := 0x5000\<rparr>" arm64_build "0x5000" "[0x3004, 0x3004, 0, 0x2004]"
      "[0x7004, 0x7008]"]
  by (simp add: zero_backtrace_state_def crash_ip_from_mcontext_def arm64_build_def
      zero_mcontext_def BACKTRACE_FRAMES_MAX_def visible_def adjust_ip_def clear_thumb_bit_def)

text \<open>
  C24. Relative addresses are exact: when \<open>dladdr\<close> knows the address, adding the module base to
  the reported \<open>pc\<close>, or the symbol's address to the reported offset, gives the address back
  modulo the pointer width, and both names fit their arrays with a terminator.
\<close>

theorem resolve_frame_addresses:
  assumes "s_dladdr sy a = Some info" and "0 < b_path_max b"
  shows "uptr_add b (sf_pc (resolve_frame b sy i a)) (dli_fbase info) = take_bit (abi_bits b) a \<and>
    (dli_saddr info \<noteq> 0 \<longrightarrow>
      uptr_add b (sf_sym_addr_offset (resolve_frame b sy i a)) (dli_saddr info) = take_bit (abi_bits b) a) \<and>
    (dli_saddr info = 0 \<longrightarrow> sf_sym_addr_offset (resolve_frame b sy i a) = 0) \<and>
    length (sf_so_path (resolve_frame b sy i a)) < b_path_max b \<and>
    length (sf_sym_name (resolve_frame b sy i a)) < 255"
proof -
  let ?f = "resolve_frame b sy i a"
  have "sf_pc ?f = uptr_sub b a (dli_fbase info)"
    "sf_sym_addr_offset ?f = (if dli_saddr info \<noteq> 0 then uptr_sub b a (dli_saddr info) else 0)"
    using assms(1)
    by (auto simp: resolve_frame_def transform_addr_to_stackframe_def zero_stackframe_def Let_def
        split: option.splits)
  then show ?thesis
    using resolve_frame_strings [where b = b and sy = sy and i = i and a = a] assms(2)
    by (auto simp: uptr_add_sub)
qed

theorem resolve_frame_addresses_witness:
  "let sy = \<lparr>s_dladdr = (\<lambda>_. Some \<lparr>dli_fname = Some ''/lib/libc.so'', dli_fbase = 0x1000,
                 dli_sname = Some ''abort'', dli_saddr = 0x1200\<rparr>), s_demangle = (\<lambda>_. None)\<rparr>;
       f = resolve_frame arm64_build sy 0 0x1234
   in uptr_add arm64_build (sf_pc f) 0x1000 = 0x1234 \<and>
      uptr_add arm64_build (sf_sym_addr_offset f) 0x1200 = 0x1234"
proof -
  let ?info = "\<lparr>dli_fname = Some ''/lib/libc.so'', dli_fbase = 0x1000,
                 dli_sname = Some ''abort'', dli_saddr = 0x1200\<rparr>"
  show ?thesis
    using resolve_frame_addresses
      [of "\<lparr>s_dladdr = (\<lambda>_. Some ?info), s_demangle = (\<lambda>_. None)\<rparr>" "0x1234" ?info arm64_build 0]
    by (simp add: Let_def)
qed

end
