(* ===== verification/Procfs.thy ===== *)
theory Procfs
  imports Unwinder
begin

text \<open>
  \<open>procfs.cpp\<close>: reading the process and thread files under \<open>/proc\<close>. The file system is a
  parameter: the content of a file that can be opened, the entries of a directory that can be
  opened. A reader returns the new value of its \<open>std::string\<close> argument.
\<close>

record filesystem =
  fs_read :: "string \<Rightarrow> string option"
  fs_dir :: "string \<Rightarrow> string list option"

section \<open>Trimming\<close>

definition ws_chars :: string where
  "ws_chars = [NL, CHR 0x0D, CHR 0x09, CHR '' '']"

text \<open>\<open>strpbrk(s, accept) != nullptr\<close>.\<close>

definition strpbrk :: "string \<Rightarrow> string \<Rightarrow> bool" where
  "strpbrk s accept \<longleftrightarrow> list_ex (\<lambda>c. c \<in> set accept) s"

text \<open>
  The loop of \<open>trim_trailing_ws\<close>: \<open>i\<close> is the offset of \<open>buffEol\<close> from \<open>buff\<close>; writing a NUL
  at offset \<open>i\<close> cuts the C string there. For an empty buffer \<open>buffEol\<close> starts before \<open>buff\<close> and
  the loop does not run, as at offset 0.
\<close>

fun trim_loop :: "string \<Rightarrow> nat \<Rightarrow> string" where
  "trim_loop s 0 = s"
| "trim_loop s (Suc i) =
     (if strpbrk (drop (Suc i) s) ws_chars then trim_loop (take (Suc i) s) i else s)"

definition trim_trailing_ws :: "string \<Rightarrow> string" where
  "trim_trailing_ws buff = trim_loop buff (length buff - 1)"

section \<open>Paths and readers\<close>

definition proc_path :: "build \<Rightarrow> string \<Rightarrow> fmt_arg list \<Rightarrow> string" where
  "proc_path b fmt args = vsnprintf (abi_bits b) (b_path_max b) fmt args"

abbreviation int_arg :: "cint \<Rightarrow> fmt_arg" where
  "int_arg i \<equiv> Reg (ucast i)"

text \<open>The first line of a file through a 1024-byte buffer, trimmed; \<open>None\<close> when the file
  cannot be opened or is empty.\<close>

definition first_line :: "filesystem \<Rightarrow> string \<Rightarrow> string option" where
  "first_line fs path =
     (case fs_read fs path of
        None \<Rightarrow> None
      | Some content \<Rightarrow>
          (case fgets 1024 content of
             None \<Rightarrow> None
           | Some (buff, _) \<Rightarrow> Some (trim_trailing_ws (c_str buff))))"

definition get_process_name :: "build \<Rightarrow> filesystem \<Rightarrow> cint \<Rightarrow> string" where
  "get_process_name b fs pid =
     (case first_line fs (proc_path b ''/proc/%d/cmdline'' [int_arg pid]) of
        Some l \<Rightarrow> l | None \<Rightarrow> ''<unknown>'')"

definition get_thread_name :: "build \<Rightarrow> filesystem \<Rightarrow> cint \<Rightarrow> cint \<Rightarrow> string" where
  "get_thread_name b fs pid tid =
     (case first_line fs (proc_path b ''/proc/%d/task/%d/comm'' [int_arg pid, int_arg tid]) of
        Some l \<Rightarrow> l | None \<Rightarrow> ''<unknown>'')"

definition get_thread_status_path :: "build \<Rightarrow> cint \<Rightarrow> cint \<Rightarrow> string" where
  "get_thread_status_path b pid tid =
     proc_path b ''/proc/%d/task/%d/status'' [int_arg pid, int_arg tid]"

definition get_thread_stat :: "build \<Rightarrow> filesystem \<Rightarrow> cint \<Rightarrow> cint \<Rightarrow> string \<Rightarrow> string" where
  "get_thread_stat b fs pid tid stat =
     (case first_line fs (proc_path b ''/proc/%d/task/%d/stat'' [int_arg pid, int_arg tid]) of
        Some l \<Rightarrow> l | None \<Rightarrow> stat)"

definition get_task_path :: "build \<Rightarrow> cint \<Rightarrow> string" where
  "get_task_path b pid = proc_path b ''/proc/%d/task'' [int_arg pid]"

definition get_process_stat :: "build \<Rightarrow> filesystem \<Rightarrow> cint \<Rightarrow> string \<Rightarrow> string" where
  "get_process_stat b fs pid statResult =
     (case first_line fs (proc_path b ''/proc/%d/stat'' [int_arg pid]) of
        Some l \<Rightarrow> l | None \<Rightarrow> statResult)"

section \<open>Lemmas\<close>

definition rstrip :: "string \<Rightarrow> string" where
  "rstrip s = rev (dropWhile (\<lambda>c. c \<in> set ws_chars) (rev s))"

lemma trim_loop_snoc:
  "trim_loop (s @ [c]) (length s) =
    (if s = [] then [c]
     else if c \<in> set ws_chars then trim_trailing_ws s else s @ [c])"
proof (cases s rule: rev_cases)
  case Nil
  then show ?thesis by simp
next
  case (snoc t d)
  then show ?thesis
    by (simp add: strpbrk_def trim_trailing_ws_def)
qed

lemma trim_snoc:
  "trim_trailing_ws (s @ [c]) =
    (if s = [] then [c] else if c \<in> set ws_chars then trim_trailing_ws s else s @ [c])"
  using trim_loop_snoc [of s c] by (simp add: trim_trailing_ws_def)

lemma trim_Nil [simp]: "trim_trailing_ws [] = []"
  by (simp add: trim_trailing_ws_def)

lemma rstrip_snoc: "rstrip (s @ [c]) = (if c \<in> set ws_chars then rstrip s else s @ [c])"
  by (simp add: rstrip_def)

lemma rstrip_Nil [simp]: "rstrip [] = []"
  by (simp add: rstrip_def)

lemma set_trim: "set (trim_trailing_ws s) \<subseteq> set s"
proof (induction s rule: rev_induct)
  case (snoc c s)
  then show ?case by (auto simp: trim_snoc split: if_splits)
qed simp

lemma length_trim: "length (trim_trailing_ws s) \<le> length s"
proof -
  have "length (trim_loop s i) \<le> length s" for i
    by (induction s i rule: trim_loop.induct) auto
  then show ?thesis by (simp add: trim_trailing_ws_def)
qed

lemma length_first_line:
  assumes "first_line fs path = Some l"
  shows "length l \<le> 1023"
proof -
  obtain content buff rest where "fgets_line 1023 content = (buff, rest)" "l = trim_trailing_ws (c_str buff)"
    using assms by (auto simp: first_line_def fgets_def split: option.splits if_splits)
  then show ?thesis
    using length_trim [of "c_str buff"] length_c_str [of buff] length_fgets_line [of 1023 content] by simp
qed

lemma length_get_process_name: "length (get_process_name b fs pid) \<le> 1023"
  by (auto simp: get_process_name_def dest: length_first_line split: option.splits)

lemma trim_line:
  "s \<noteq> [] \<Longrightarrow> last s \<notin> set ws_chars \<Longrightarrow> trim_trailing_ws (s @ [NL]) = s"
  unfolding trim_snoc
  by (cases s rule: rev_cases) (simp_all add: trim_snoc ws_chars_def)

lemma first_line_whole:
  assumes "fs_read fs path = Some (line @ NL # tail)"
    and "line \<noteq> []" "last line \<notin> set ws_chars" "NL \<notin> set line" "NUL \<notin> set line"
    and "length line < 1023"
  shows "first_line fs path = Some line"
proof -
  have "fgets_line 1023 (line @ NL # tail) = (line @ [NL], tail)"
    using assms(4,6) by (rule fgets_line_whole)
  then show ?thesis
    using assms by (simp add: first_line_def fgets_def c_str_id trim_line)
qed

text \<open>
  Trimming removes exactly the trailing blanks, tabs and line ends, except that it never
  removes the first character: a line of blanks only is cut to its first character, and the
  empty line stays empty.
\<close>

theorem trim_trailing_ws_spec:
  "trim_trailing_ws s = (if rstrip s = [] then take 1 s else rstrip s)"
proof (induction s rule: rev_induct)
  case (snoc c s)
  then show ?case
    unfolding trim_snoc rstrip_snoc by (cases "s = []") (auto simp: Suc_le_eq)
qed simp

end
