(* ===== verification/Thread_State.thy ===== *)
theory Thread_State
  imports Procfs
begin

text \<open>
  The thread part of \<open>backtrace.cpp\<close>: reading one thread's \<open>/proc/<pid>/task/<tid>/stat\<close> line
  (\<open>collect_thread_info\<close>) and walking the process' task directory (\<open>collect_thread_state\<close>).
\<close>

section \<open>State\<close>

record threadinfo =
  ti_tid :: cint
  ti_thread_name :: string
  ti_crashed :: bool
  ti_thread_state :: string
  ti_priority :: cint
  ti_stack :: uptr
  ti_backtrace_state :: "backtrace_state option"

definition zero_threadinfo :: threadinfo where
  "zero_threadinfo = \<lparr>ti_tid = 0, ti_thread_name = [], ti_crashed = False, ti_thread_state = [],
     ti_priority = 0, ti_stack = 0, ti_backtrace_state = None\<rparr>"

record backtrace =
  bt_state :: backtrace_state
  bt_description :: string
  bt_timestamp :: uptr
  bt_arch :: string
  bt_pid :: cint
  bt_ppid :: cint
  bt_uid :: cint
  bt_threads :: "threadinfo list"

definition zero_backtrace :: backtrace where
  "zero_backtrace = \<lparr>bt_state = zero_backtrace_state, bt_description = [], bt_timestamp = 0,
     bt_arch = [], bt_pid = 0, bt_ppid = 0, bt_uid = 0, bt_threads = []\<rparr>"

text \<open>The calling process and thread: \<open>getpid()\<close>, \<open>getppid()\<close>, \<open>getuid()\<close>, \<open>gettid()\<close>, \<open>time(0)\<close>.\<close>

record process =
  p_pid :: cint
  p_ppid :: cint
  p_uid :: cint
  p_tid :: cint
  p_time :: uptr

section \<open>One thread\<close>

definition state_name :: "char \<Rightarrow> string" where
  "state_name c =
     (let l = tolower c in
      if l = CHR ''r'' then ''RUNNING''
      else if l = CHR ''s'' \<or> l = CHR ''d'' then ''SLEEPING''
      else if l = CHR ''z'' then ''ZOMBIE''
      else if l = CHR ''t'' then ''STOPPED''
      else if l = CHR ''x'' then ''DEAD''
      else if l = CHR ''w'' then ''WAKING''
      else if l = CHR ''k'' then ''WAKE KILL''
      else if l = CHR ''p'' then ''PARKED''
      else ''unknown'')"

text \<open>
  The tokens of the stat line, read with \<open>strtok_r\<close> from the position \<open>pos\<close> each call leaves.
  A token is never empty, so \<open>*token\<close> is its first character.
\<close>

definition set_name :: "string option \<Rightarrow> threadinfo \<Rightarrow> threadinfo" where
  "set_name token ti =
     (case token of
        Some t \<Rightarrow> (case sscanf_name t of
                     Some v \<Rightarrow> ti\<lparr>ti_thread_name := strncpy_array 32 v\<rparr>
                   | None \<Rightarrow> ti)
      | None \<Rightarrow> ti)"

definition set_state :: "string option \<Rightarrow> threadinfo \<Rightarrow> threadinfo" where
  "set_state token ti =
     (case token of
        Some (c # _) \<Rightarrow> ti\<lparr>ti_thread_state := strncpy_array 16 (state_name c)\<rparr>
      | _ \<Rightarrow> ti)"

definition set_priority :: "build \<Rightarrow> string option \<Rightarrow> threadinfo \<Rightarrow> threadinfo" where
  "set_priority b token ti =
     (case token of
        Some t \<Rightarrow> ti\<lparr>ti_priority := word_of_int (strtol (abi_bits b) t)\<rparr>
      | None \<Rightarrow> ti)"

definition set_stack :: "build \<Rightarrow> string option \<Rightarrow> threadinfo \<Rightarrow> threadinfo" where
  "set_stack b token ti =
     (case token of
        Some t \<Rightarrow> ti\<lparr>ti_stack := take_bit (abi_bits b) (strtoull 10 t)\<rparr>
      | None \<Rightarrow> ti)"

definition parse_thread_stat :: "build \<Rightarrow> string \<Rightarrow> threadinfo \<Rightarrow> threadinfo" where
  "parse_thread_stat b tstat ti =
     (let (token, pos) = strtok_r '' '' (Some tstat) in
      if token = None then ti
      else
        (let (token, pos) = strtok_r '')'' pos;
             ti = set_name token ti;
             (token, pos) = strtok_r '' '' pos;
             ti = set_state token ti;
             pos = strtok_skip 14 '' '' pos;
             (token, pos) = strtok_r '' '' pos;
             ti = set_priority b token ti;
             pos = strtok_skip 9 '' '' pos;
             (token, pos) = strtok_r '' '' pos
         in set_stack b token ti))"

definition collect_thread_info ::
  "build \<Rightarrow> filesystem \<Rightarrow> process \<Rightarrow> cint \<Rightarrow> threadinfo \<Rightarrow> threadinfo" where
  "collect_thread_info b fs p tid ti =
     (let tstat = get_thread_stat b fs (p_pid p) tid [];
          ti = ti\<lparr>ti_tid := tid\<rparr>;
          ti = (if tstat \<noteq> [] then parse_thread_stat b tstat ti else ti)
      in ti\<lparr>ti_crashed := (tid = p_tid p)\<rparr>)"

section \<open>All threads\<close>

definition numeric_entry :: "string \<Rightarrow> bool" where
  "numeric_entry name = (case name of c # _ \<Rightarrow> isdigit c | [] \<Rightarrow> False)"

definition entry_tid :: "build \<Rightarrow> string \<Rightarrow> cint" where
  "entry_tid b name = word_of_int (strtol (abi_bits b) name)"

definition thread_of_entry ::
  "build \<Rightarrow> filesystem \<Rightarrow> process \<Rightarrow> backtrace_state \<Rightarrow> cint \<Rightarrow> threadinfo" where
  "thread_of_entry b fs p st tid =
     (let ti = collect_thread_info b fs p tid zero_threadinfo
      in if ti_crashed ti \<and> bs_frame_cnt st > 0 then ti\<lparr>ti_backtrace_state := Some st\<rparr> else ti)"

text \<open>The \<open>readdir\<close> loop: it ends with the directory or at 100 threads.\<close>

fun collect_entries :: "build \<Rightarrow> filesystem \<Rightarrow> process \<Rightarrow> string list \<Rightarrow> backtrace \<Rightarrow> backtrace" where
  "collect_entries b fs p [] bt = bt"
| "collect_entries b fs p (name # names) bt =
     (if length (bt_threads bt) < BACKTRACE_THREADS_MAX then
        (if numeric_entry name
         then collect_entries b fs p names
                (bt\<lparr>bt_threads := bt_threads bt @ [thread_of_entry b fs p (bt_state bt) (entry_tid b name)]\<rparr>)
         else collect_entries b fs p names bt)
      else bt)"

definition collect_thread_state :: "build \<Rightarrow> filesystem \<Rightarrow> process \<Rightarrow> backtrace \<Rightarrow> backtrace" where
  "collect_thread_state b fs p bt =
     (case fs_dir fs (get_task_path b (p_pid p)) of
        None \<Rightarrow> bt
      | Some names \<Rightarrow> collect_entries b fs p names bt)"

section \<open>Lemmas on one thread\<close>

definition state_names :: "string list" where
  "state_names = [''RUNNING'', ''SLEEPING'', ''ZOMBIE'', ''STOPPED'', ''DEAD'', ''WAKING'',
     ''WAKE KILL'', ''PARKED'', ''unknown'']"

lemma state_name_cases: "state_name c \<in> set state_names"
  by (simp add: state_name_def state_names_def Let_def)

lemma state_names_fit: "s \<in> set state_names \<Longrightarrow> strncpy_array 16 s = s"
  by (auto simp: state_names_def strncpy_array_def c_str_def)

lemma state_names_clean: "s \<in> set state_names \<Longrightarrow> clean s \<and> length s \<le> 9"
  by (auto simp: state_names_def clean_simps clean_char_def)

text \<open>What the scan set lets into a thread's name needs no escaping.\<close>

lemma name_char_clean: "name_char c \<Longrightarrow> clean_char c"
  by (auto simp: name_char_def intro: clean_char_digit clean_char_alpha) (simp_all add: clean_char_def)

lemma sscanf_name_chars: "sscanf_name t = Some v \<Longrightarrow> c \<in> set v \<Longrightarrow> name_char c"
  by (auto simp: sscanf_name_def Let_def split: list.splits if_splits dest: set_takeWhileD)

text \<open>The invariant of a collected thread.\<close>

definition wf_thread :: "threadinfo \<Rightarrow> bool" where
  "wf_thread ti \<longleftrightarrow> length (ti_thread_name ti) \<le> 31 \<and> list_all name_char (ti_thread_name ti) \<and>
     (ti_thread_state ti = [] \<or> ti_thread_state ti \<in> set state_names)"

lemma wf_zero_threadinfo [simp]: "wf_thread zero_threadinfo"
  by (simp add: wf_thread_def zero_threadinfo_def)

lemma wf_set_name: "wf_thread ti \<Longrightarrow> wf_thread (set_name token ti)"
  using length_strncpy_array [of 32] set_strncpy_array [of 32]
  by (fastforce simp: wf_thread_def set_name_def list_all_iff split: option.splits
      dest: sscanf_name_chars)

lemma wf_set_state: "wf_thread ti \<Longrightarrow> wf_thread (set_state token ti)"
  using state_name_cases state_names_fit
  by (auto simp: wf_thread_def set_state_def split: option.splits list.splits)

lemma wf_frame [simp]:
  "wf_thread (set_priority b token ti) = wf_thread ti"
  "wf_thread (set_stack b token ti) = wf_thread ti"
  "wf_thread (ti\<lparr>ti_tid := t\<rparr>) = wf_thread ti"
  "wf_thread (ti\<lparr>ti_crashed := cr\<rparr>) = wf_thread ti"
  "wf_thread (ti\<lparr>ti_backtrace_state := s\<rparr>) = wf_thread ti"
  by (auto simp: wf_thread_def set_priority_def set_stack_def split: option.splits)

lemma wf_parse_thread_stat: "wf_thread ti \<Longrightarrow> wf_thread (parse_thread_stat b s ti)"
  by (auto simp: parse_thread_stat_def Let_def wf_set_name wf_set_state split: prod.splits)

lemma wf_collect_thread_info: "wf_thread ti \<Longrightarrow> wf_thread (collect_thread_info b fs p tid ti)"
  by (simp add: collect_thread_info_def Let_def wf_parse_thread_stat)

lemma wf_thread_of_entry: "wf_thread (thread_of_entry b fs p st tid)"
  by (simp add: thread_of_entry_def Let_def wf_collect_thread_info)

lemma parse_frame [simp]:
  "ti_tid (parse_thread_stat b s ti) = ti_tid ti"
  "ti_backtrace_state (parse_thread_stat b s ti) = ti_backtrace_state ti"
  by (auto simp: parse_thread_stat_def set_name_def set_state_def set_priority_def set_stack_def
      Let_def split: prod.splits option.splits list.splits)

lemma collect_thread_info_tid [simp]:
  "ti_tid (collect_thread_info b fs p tid ti) = tid"
  "ti_crashed (collect_thread_info b fs p tid ti) \<longleftrightarrow> tid = p_tid p"
  "ti_backtrace_state (collect_thread_info b fs p tid ti) = ti_backtrace_state ti"
  by (simp_all add: collect_thread_info_def Let_def)

lemma thread_of_entry_simps [simp]:
  "ti_tid (thread_of_entry b fs p st tid) = tid"
  "ti_crashed (thread_of_entry b fs p st tid) \<longleftrightarrow> tid = p_tid p"
  "ti_backtrace_state (thread_of_entry b fs p st tid) =
    (if tid = p_tid p \<and> bs_frame_cnt st > 0 then Some st else None)"
  by (simp_all add: thread_of_entry_def Let_def zero_threadinfo_def)

section \<open>Lemmas on all threads\<close>

lemma collect_entries_eq:
  "collect_entries b fs p names bt =
    bt\<lparr>bt_threads := bt_threads bt @
       map (\<lambda>n. thread_of_entry b fs p (bt_state bt) (entry_tid b n))
         (take (BACKTRACE_THREADS_MAX - length (bt_threads bt)) (filter numeric_entry names))\<rparr>"
proof (induction names arbitrary: bt)
  case Nil
  then show ?case by simp
next
  case (Cons name names)
  show ?case
  proof (cases "length (bt_threads bt) < BACKTRACE_THREADS_MAX")
    case True
    then obtain k where "BACKTRACE_THREADS_MAX - length (bt_threads bt) = Suc k"
      and "BACKTRACE_THREADS_MAX - Suc (length (bt_threads bt)) = k"
      by (metis Suc_diff_Suc)
    with True Cons show ?thesis by simp
  qed simp
qed

text \<open>The kernel's stat line: the thread id, the name in parentheses, the state, and the fields
  from the parent's id on.\<close>

definition stat_line :: "int \<Rightarrow> string \<Rightarrow> char \<Rightarrow> string list \<Rightarrow> string" where
  "stat_line tid comm st flds =
     show_int tid @ '' ('' @ comm @ '') '' @ [st] @ concat (map (\<lambda>f. CHR '' '' # f) flds)"

definition plain_field :: "string \<Rightarrow> bool" where
  "plain_field f \<longleftrightarrow> f \<noteq> [] \<and> list_all (\<lambda>c. clean_char c \<and> c \<noteq> CHR '' '') f"

lemma plain_clean: "plain_field f \<Longrightarrow> clean f"
  by (auto simp: plain_field_def clean_def list_all_iff)

lemma plain_last: "plain_field f \<Longrightarrow> last f \<notin> set ws_chars"
proof -
  assume "plain_field f"
  then have "clean_char (last f)" "last f \<noteq> CHR '' ''"
    by (simp_all add: plain_field_def list_all_iff)
  then show ?thesis by (auto simp: ws_chars_def clean_char_def)
qed

lemma plain_radix10: "plain_field (radix 10 n)"
proof -
  have "clean_char c \<and> c \<noteq> CHR '' ''" if "c \<in> set (radix 10 n)" for c
    using clean_char_digit [OF radix10_digits [OF that]] radix_hd_not_sign [OF _ _ that]
    by (auto simp: isspace_def)
  then show ?thesis by (simp add: plain_field_def list_all_iff)
qed

lemma plain_show_int: "plain_field (show_int i)"
  using plain_radix10 [of "nat \<bar>i\<bar>"] by (auto simp: show_int_def plain_field_def clean_char_def)

lemma strtok_field:
  assumes "plain_field f"
  shows "strtok_r '' '' (Some (f @ CHR '' '' # rest)) = (Some f, Some rest)"
    and "strtok_r '' '' (Some (CHR '' '' # f @ CHR '' '' # rest)) = (Some f, Some rest)"
  using assms strtok_r_token [of f "'' ''" "CHR '' ''" "''''" rest]
    strtok_r_token [of f "'' ''" "CHR '' ''" "'' ''" rest]
  by (auto simp: plain_field_def list_all_iff)

definition spaced :: "string list \<Rightarrow> string" where
  "spaced fs = concat (map (\<lambda>f. f @ '' '') fs)"

lemma spaced_simps [simp]:
  "spaced [] = []" "spaced (f # fs) = f @ CHR '' '' # spaced fs" "spaced (fs @ gs) = spaced fs @ spaced gs"
  by (simp_all add: spaced_def)

lemma strtok_skip_fields:
  assumes "list_all plain_field fs" and "length fs = n"
  shows "strtok_skip n '' '' (Some (spaced fs @ rest)) = Some rest"
  using assms by (induction fs arbitrary: rest n) (auto simp: strtok_field)

lemma stat_fields:
  "gs \<noteq> [] \<Longrightarrow> concat (map (\<lambda>f. CHR '' '' # f) (fs @ gs)) =
     CHR '' '' # spaced fs @ tl (concat (map (\<lambda>f. CHR '' '' # f) gs))"
proof (induction fs)
  case Nil
  then show ?case by (cases gs) auto
qed simp

lemma sscanf_comm:
  assumes "comm \<noteq> []" and "list_all name_char comm"
  shows "sscanf_name (CHR ''('' # comm) = Some comm"
proof -
  have "takeWhile name_char comm = comm"
    using assms(2) by (intro takeWhile_id) (simp add: list_all_iff)
  with assms(1) show ?thesis by (simp add: sscanf_name_def Let_def del: takeWhile_eq_all_conv)
qed

lemma name_char_not_paren: "\<not> name_char (CHR '')'')"
  by (simp add: name_char_def isalpha_def isdigit_def)

lemma strtok_comm:
  assumes "list_all name_char comm"
  shows "strtok_r '')'' (Some (CHR ''('' # comm @ CHR '')'' # rest)) = (Some (CHR ''('' # comm), Some rest)"
  using strtok_r_token [of "CHR ''('' # comm" "'')''" "CHR '')''" "''''" rest] assms name_char_not_paren
  by (auto simp: list_all_iff)

text \<open>The tokens of a line whose name has no closing parenthesis: the state is the next token,
  the priority and the stack follow 14 and 9 skipped ones.\<close>

lemma parse_stat_tokens:
  assumes "CHR '')'' \<notin> set name"
    and "strtok_r '' '' (Some r0) = (Some s, Some r1)" "strtok_skip 14 '' '' (Some r1) = Some (p @ CHR '' '' # r2)"
    and "strtok_skip 9 '' '' (Some r2) = Some (k @ CHR '' '' # r3)" "plain_field p" "plain_field k"
  shows "parse_thread_stat b (show_int tid @ CHR '' '' # CHR ''('' # name @ CHR '')'' # r0) ti =
    set_stack b (Some k) (set_priority b (Some p) (set_state (Some s) (set_name (Some (CHR ''('' # name)) ti)))"
proof -
  have t1: "strtok_r '' '' (Some (show_int tid @ CHR '' '' # r)) = (Some (show_int tid), Some r)" for r
    by (rule strtok_field(1) [OF plain_show_int])
  have t2: "strtok_r '')'' (Some (CHR ''('' # name @ CHR '')'' # r)) = (Some (CHR ''('' # name), Some r)" for r
    using strtok_r_token [of "CHR ''('' # name" "'')''" "CHR '')''" "''''" r] assms(1) by auto
  show ?thesis
    unfolding parse_thread_stat_def
    by (simp only: Let_def t1 t2 assms(2-4) strtok_field(1) [OF assms(5)] strtok_field(1) [OF assms(6)]
        prod.case option.distinct if_False simp_thms)
qed

lemma parse_stat_line:
  assumes "comm \<noteq> []" "list_all name_char comm"
    and "st \<noteq> CHR '' ''" "clean_char st"
    and "list_all plain_field pre" "length pre = 14"
    and "list_all plain_field mid" "length mid = 9"
    and "rest \<noteq> []"
  shows "parse_thread_stat b
      (stat_line tid comm st (pre @ [show_int prio] @ mid @ [radix 10 stk] @ rest)) ti =
    set_stack b (Some (radix 10 stk)) (set_priority b (Some (show_int prio))
      (set_state (Some [st]) (set_name (Some (CHR ''('' # comm)) ti)))"
proof -
  let ?R = "tl (concat (map (\<lambda>f. CHR '' '' # f) rest))"
  have line: "stat_line tid comm st (pre @ [show_int prio] @ mid @ [radix 10 stk] @ rest) =
      show_int tid @ CHR '' '' # CHR ''('' # comm @ CHR '')'' # CHR '' '' # [st] @ CHR '' '' #
      spaced pre @ show_int prio @ CHR '' '' # spaced mid @ radix 10 stk @ CHR '' '' # ?R"
    using stat_fields [OF assms(9), of "pre @ [show_int prio] @ mid @ [radix 10 stk]"] by (simp add: stat_line_def)
  have "CHR '')'' \<notin> set comm"
    using assms(2) name_char_not_paren by (auto simp: list_all_iff)
  then show ?thesis
    unfolding line
  proof (rule parse_stat_tokens)
    show "strtok_r '' '' (Some (CHR '' '' # [st] @ CHR '' '' # r)) = (Some [st], Some r)" for r
      by (rule strtok_field(2)) (use assms(3,4) in \<open>simp add: plain_field_def\<close>)
    show "strtok_skip 14 '' '' (Some (spaced pre @ r)) = Some r" for r
      by (rule strtok_skip_fields [OF assms(5,6)])
    show "strtok_skip 9 '' '' (Some (spaced mid @ r)) = Some r" for r
      by (rule strtok_skip_fields [OF assms(7,8)])
  qed (simp_all add: plain_show_int plain_radix10)
qed

text \<open>A stat line of printable fields comes through the file: it is the first line, and trimming
  leaves it as it is.\<close>

lemma stat_line_read:
  assumes "clean comm" "clean_char st" "list_all plain_field flds" "flds \<noteq> []"
    and "line = stat_line tid comm st flds" "length line < 1023"
    and "fs_read fs (proc_path b ''/proc/%d/task/%d/stat'' [int_arg pid, int_arg tid']) = Some (line @ NL # tail)"
  shows "get_thread_stat b fs pid tid' [] = line" "line \<noteq> []"
proof -
  show nonempty: "line \<noteq> []"
    by (simp add: assms(5) stat_line_def)
  have "clean (concat (map (\<lambda>f. CHR '' '' # f) fs))" if "list_all plain_field fs" for fs
    using that by (induction fs) (auto simp: clean_simps plain_clean clean_char_def)
  then have "clean line"
    using assms(1-3) plain_clean [OF plain_show_int] by (simp add: assms(5) stat_line_def clean_simps clean_char_def)
  moreover obtain front f where flds: "flds = front @ [f]"
    using assms(4) by (cases flds rule: rev_cases) auto
  have f: "plain_field f" using assms(3) flds by simp
  then have "last line = last f"
    by (simp add: assms(5) stat_line_def flds plain_field_def)
  then have "last line \<notin> set ws_chars"
    using plain_last [OF f] by simp
  ultimately show "get_thread_stat b fs pid tid' [] = line"
    using nonempty assms(6,7) by (simp add: get_thread_stat_def first_line_whole clean_not)
qed

lemma strtol_show_sint: "strtol (abi_bits b) (show_int (sint (n :: cint))) = sint n"
proof (rule strtol_show_int)
  have "- (2 ^ 31) \<le> sint n" "sint n < 2 ^ 31"
    using sint_range_size [of n] by (simp_all add: word_size)
  moreover have "(2::int) ^ 31 \<le> 2 ^ (abi_bits b - 1)"
    by (simp add: abi_bits_def split: abi.splits)
  ultimately show "- (2 ^ (abi_bits b - 1)) \<le> sint n" "sint n < 2 ^ (abi_bits b - 1)"
    by linarith+
qed

section \<open>Properties\<close>

text \<open>
  C16. Round trip through the kernel's stat line: for a thread whose name uses the characters
  of the scan set, the collected record holds the printed name cut to 31 characters, and
  exactly the printed state, priority and start of stack, whatever the other fields are;
  \<open>crashed\<close> marks the calling thread. The name is not empty and fits the 256 bytes it is
  scanned into (a longer one would overrun them), the line fits its buffer, and the other
  fields are words without spaces.
\<close>

theorem thread_stat_roundtrip:
  assumes "comm \<noteq> []" "length comm \<le> 255" "list_all name_char comm"
    and "st \<noteq> CHR '' ''" "clean_char st"
    and "list_all plain_field pre" "length pre = 14"
    and "list_all plain_field mid" "length mid = 9"
    and "rest \<noteq> []" "list_all plain_field rest"
    and "line = stat_line (sint tid) comm st (pre @ [show_int (sint (prio :: cint))] @ mid @ [radix 10 (unat stk)] @ rest)"
    and "length line < 1023" and "take_bit (abi_bits b) stk = stk"
    and "fs_read fs (proc_path b ''/proc/%d/task/%d/stat'' [int_arg (p_pid p), int_arg tid]) = Some (line @ NL # tail)"
  shows "collect_thread_info b fs p tid zero_threadinfo =
    \<lparr>ti_tid = tid, ti_thread_name = take 31 comm, ti_crashed = (tid = p_tid p), ti_thread_state = state_name st,
     ti_priority = prio, ti_stack = stk, ti_backtrace_state = None\<rparr>"
proof -
  have comm: "clean comm"
    using assms(3) name_char_clean by (simp add: clean_def list_all_iff)
  have "list_all plain_field (pre @ [show_int (sint prio)] @ mid @ [radix 10 (unat stk)] @ rest)"
    using assms(6,8,11) by (simp add: plain_show_int plain_radix10)
  note line = stat_line_read [OF comm assms(5) this _ assms(12,13,15)]
  have stk: "strtoull 10 (radix 10 (unat stk)) = stk"
    by (subst strtoull_radix) (use unsigned_less [of stk] in auto)
  have name: "strncpy_array 32 comm = take 31 comm"
    using comm by (simp add: strncpy_array_def c_str_id clean_not)
  have "parse_thread_stat b line (zero_threadinfo\<lparr>ti_tid := tid\<rparr>) =
    \<lparr>ti_tid = tid, ti_thread_name = take 31 comm, ti_crashed = False, ti_thread_state = state_name st,
     ti_priority = prio, ti_stack = stk, ti_backtrace_state = None\<rparr>"
    unfolding assms(12) parse_stat_line [OF assms(1,3,4,5,6,7,8,9,10)]
    using assms(14) state_names_fit [OF state_name_cases]
    by (simp add: set_name_def set_state_def set_priority_def set_stack_def sscanf_comm [OF assms(1,3)]
        strtol_show_sint stk name zero_threadinfo_def)
  then show ?thesis
    using line by (simp add: collect_thread_info_def)
qed

theorem thread_stat_roundtrip_witness:
  "let p = \<lparr>p_pid = 77, p_ppid = 1, p_uid = 10, p_tid = 78, p_time = 0\<rparr>;
       line = stat_line 78 (replicate 33 CHR ''n'') (CHR ''S'')
         (replicate 14 ''0'' @ [''-4''] @ replicate 9 ''0'' @ [''5000''] @ [''0'', ''0'']);
       fs = \<lparr>fs_read = (\<lambda>_. Some (line @ [NL])), fs_dir = (\<lambda>_. None)\<rparr>
   in collect_thread_info arm64_build fs p 78 zero_threadinfo =
      \<lparr>ti_tid = 78, ti_thread_name = replicate 31 CHR ''n'', ti_crashed = True, ti_thread_state = ''SLEEPING'',
       ti_priority = - 4, ti_stack = 5000, ti_backtrace_state = None\<rparr>"
proof -
  let ?p = "\<lparr>p_pid = 77, p_ppid = 1, p_uid = 10, p_tid = 78, p_time = 0\<rparr>"
  let ?line = "stat_line 78 (replicate 33 CHR ''n'') (CHR ''S'')
    (replicate 14 ''0'' @ [''-4''] @ replicate 9 ''0'' @ [''5000''] @ [''0'', ''0''])"
  let ?fs = "\<lparr>fs_read = (\<lambda>_. Some (?line @ [NL])), fs_dir = (\<lambda>_. None)\<rparr>"
  have len: "length ?line < 1023"
    by (simp add: stat_line_def show_int_def radix.simps length_concat sum_list_replicate comp_def)
  have "collect_thread_info arm64_build ?fs ?p 78 zero_threadinfo =
    \<lparr>ti_tid = 78, ti_thread_name = take 31 (replicate 33 CHR ''n''), ti_crashed = (78 = p_tid ?p),
     ti_thread_state = state_name (CHR ''S''), ti_priority = - 4, ti_stack = 5000, ti_backtrace_state = None\<rparr>"
    by (rule thread_stat_roundtrip [where pre = "replicate 14 ''0''" and mid = "replicate 9 ''0''"
          and rest = "[''0'', ''0'']" and line = ?line and tail = "''''"])
      (use len in \<open>simp_all add: show_int_def radix.simps list_all_iff name_char_def isalpha_def isdigit_def plain_field_def clean_char_def\<close>)
  moreover have "state_name (CHR ''S'') = ''SLEEPING''"
    by code_simp
  ultimately show ?thesis
    by (simp add: Let_def)
qed

text \<open>
  C23. The thread list: when the task directory can be read, a fresh backtrace holds the
  first 100 entries whose name starts with a digit, in directory order; only the calling
  thread carries the unwound stack, and only if a frame was recorded. The rest of the
  backtrace is untouched.
\<close>

theorem collect_thread_state_spec:
  assumes "bt_threads bt = []"
  shows "collect_thread_state b fs p bt =
    bt\<lparr>bt_threads :=
      (case fs_dir fs (get_task_path b (p_pid p)) of
         None \<Rightarrow> []
       | Some names \<Rightarrow>
           map (\<lambda>n. (collect_thread_info b fs p (entry_tid b n) zero_threadinfo)
                   \<lparr>ti_backtrace_state :=
                      (if entry_tid b n = p_tid p \<and> bs_frame_cnt (bt_state bt) > 0
                       then Some (bt_state bt) else None)\<rparr>)
             (take BACKTRACE_THREADS_MAX (filter numeric_entry names)))\<rparr>"
proof -
  have "thread_of_entry b fs p st t =
      (collect_thread_info b fs p t zero_threadinfo)
        \<lparr>ti_backtrace_state := (if t = p_tid p \<and> bs_frame_cnt st > 0 then Some st else None)\<rparr>" for st t
    by (rule threadinfo.equality)
      (simp_all add: thread_of_entry_def Let_def zero_threadinfo_def)
  then show ?thesis
    using assms by (simp add: collect_thread_state_def collect_entries_eq split: option.splits)
qed

theorem collect_thread_state_spec_witness:
  "map ti_tid (bt_threads (collect_thread_state arm64_build
      \<lparr>fs_read = (\<lambda>_. None), fs_dir = (\<lambda>_. Some [''.'', ''..'', ''12'', ''34''])\<rparr>
      \<lparr>p_pid = 12, p_ppid = 1, p_uid = 10, p_tid = 34, p_time = 0\<rparr> zero_backtrace)) = [12, 34]"
  using collect_thread_state_spec [of zero_backtrace arm64_build
      "\<lparr>fs_read = (\<lambda>_. None), fs_dir = (\<lambda>_. Some [''.'', ''..'', ''12'', ''34''])\<rparr>"
      "\<lparr>p_pid = 12, p_ppid = 1, p_uid = 10, p_tid = 34, p_time = 0\<rparr>"]
  by (simp add: zero_backtrace_def numeric_entry_def isdigit_def BACKTRACE_THREADS_MAX_def
      entry_tid_def strtol_def signed_prefix_def digit_val_def isspace_def)



lemma stat_line_split:
  assumes "list_all plain_field flds" "24 < length flds"
  shows "\<exists>R. stat_line tid name st flds = show_int tid @ CHR '' '' # CHR ''('' # name @ CHR '')'' # CHR '' '' #
      spaced ([st] # take 13 flds) @ (flds ! 13) @ CHR '' '' # spaced (take 9 (drop 14 flds)) @ (flds ! 23) @ CHR '' '' # R"
proof -
  let ?A = "take 13 flds" and ?B = "take 9 (drop 14 flds)" and ?C = "drop 24 flds"
  have split1: "flds = ?A @ flds ! 13 # drop 14 flds"
    using assms(2) id_take_nth_drop [of 13 flds] by simp
  have split2: "drop 14 flds = ?B @ flds ! 23 # ?C"
    using assms(2) id_take_nth_drop [of 9 "drop 14 flds"] by simp
  have "?C \<noteq> []" using assms(2) by simp
  from stat_fields [OF this, of "?A @ [flds ! 13] @ ?B @ [flds ! 23]"]
  have "concat (map (\<lambda>f. CHR '' '' # f) flds) = CHR '' '' # spaced ?A @ (flds ! 13) @ CHR '' '' #
      spaced ?B @ (flds ! 23) @ CHR '' '' # tl (concat (map (\<lambda>f. CHR '' '' # f) ?C))"
    by (subst split1, subst split2) simp
  then show ?thesis unfolding stat_line_def by simp
qed

text \<open>
  A closing parenthesis at the end of a thread's name misplaces every later field: the
  name is cut there, the rest of the name is taken for the state, and priority and stack are
  read one field early (field 13 and 23 after the state, where the kernel writes them as
  fields 14 and 24).
\<close>

theorem thread_name_paren_misread:
  assumes "CHR '')'' \<notin> set name" and "st \<noteq> CHR '' ''" "clean_char st"
    and "list_all plain_field flds" and "24 < length flds"
  shows "ti_thread_state (parse_thread_stat b (stat_line tid (name @ '')'') st flds) ti) = ''unknown'' \<and>
    ti_priority (parse_thread_stat b (stat_line tid (name @ '')'') st flds) ti) =
      word_of_int (strtol (abi_bits b) (flds ! 13)) \<and>
    ti_stack (parse_thread_stat b (stat_line tid (name @ '')'') st flds) ti) =
      take_bit (abi_bits b) (strtoull 10 (flds ! 23))"
proof -
  let ?A = "take 13 flds" and ?B = "take 9 (drop 14 flds)"
  have plain: "list_all plain_field ?A" "list_all plain_field ?B" "plain_field (flds ! 13)" "plain_field (flds ! 23)"
    using assms(4,5) by (auto simp: list_all_iff dest: in_set_takeD in_set_dropD)
  have lens: "length ?A = 13" "length ?B = 9"
    using assms(5) by simp_all
  obtain R where line: "stat_line tid (name @ '')'') st flds = show_int tid @ CHR '' '' # CHR ''('' # (name @ '')'') @ CHR '')'' #
      CHR '' '' # spaced ([st] # ?A) @ (flds ! 13) @ CHR '' '' # spaced ?B @ (flds ! 23) @ CHR '' '' # R"
    using stat_line_split [OF assms(4,5)] by blast
  have "parse_thread_stat b (show_int tid @ CHR '' '' # CHR ''('' # name @ CHR '')'' # '')'' @ CHR '' '' #
      spaced ([st] # ?A) @ (flds ! 13) @ CHR '' '' # spaced ?B @ (flds ! 23) @ CHR '' '' # R) ti =
    set_stack b (Some (flds ! 23)) (set_priority b (Some (flds ! 13))
      (set_state (Some '')'') (set_name (Some (CHR ''('' # name)) ti)))"
  proof (rule parse_stat_tokens [OF assms(1)])
    show "strtok_r '' '' (Some ('')'' @ CHR '' '' # r)) = (Some '')'', Some r)" for r
      by (rule strtok_field(1)) (simp add: plain_field_def clean_char_def)
    show "strtok_skip 14 '' '' (Some (spaced ([st] # ?A) @ r)) = Some r" for r
      by (rule strtok_skip_fields) (use assms(2,3) plain(1) lens in \<open>auto simp: plain_field_def\<close>)
    show "strtok_skip 9 '' '' (Some (spaced ?B @ r)) = Some r" for r
      by (rule strtok_skip_fields [OF plain(2) lens(2)])
  qed (fact plain)+
  moreover have "strncpy_array 16 (state_name (CHR '')'')) = ''unknown''"
    by code_simp
  ultimately show ?thesis
    unfolding line by (simp add: set_stack_def set_priority_def set_state_def)
qed

theorem thread_name_paren_misread_witness:
  "ti_priority (parse_thread_stat arm64_build
      (stat_line 9 ''w(1)'' (CHR ''R'') (replicate 13 ''0'' @ [''5'', ''20''] @ replicate 10 ''0'' @ [''0'']))
      zero_threadinfo) = 5"
  using thread_name_paren_misread [of "''w(1''" "CHR ''R''"
      "replicate 13 ''0'' @ [''5'', ''20''] @ replicate 10 ''0'' @ [''0'']" arm64_build 9 zero_threadinfo]
  by (simp add: clean_char_def list_all_iff plain_field_def nth_append strtol_def signed_prefix_def
      isspace_def digit_val_def isdigit_def)

end
