(* ===== verification/Json_Spec.thy ===== *)
theory Json_Spec
  imports C_Format
begin

text \<open>
  The abstract specification the emitter is measured against: JSON values, their compact text
  with a given quote character, and a parser for a subset of JSON (no white space, integers
  without leading zeros, strings without escapes). What this parser accepts, every JSON parser
  accepts, with the same value.
\<close>

section \<open>Values and their text\<close>

datatype json = JInt int | JBool bool | JStr string | JArr "json list" | JObj "(string \<times> json) list"

fun show_json :: "char \<Rightarrow> json \<Rightarrow> string" where
  "show_json q (JInt i) = show_int i"
| "show_json q (JBool v) = (if v then ''true'' else ''false'')"
| "show_json q (JStr s) = q # s @ [q]"
| "show_json q (JArr js) = ''['' @ join '','' (map (show_json q) js) @ '']''"
| "show_json q (JObj ms) = ''{'' @ join '','' (map (\<lambda>(k, v). q # k @ q # CHR '':'' # show_json q v) ms) @ ''}''"

definition show_member :: "char \<Rightarrow> string \<times> json \<Rightarrow> string" where
  "show_member q m = q # fst m @ q # CHR '':'' # show_json q (snd m)"

definition show_members :: "char \<Rightarrow> (string \<times> json) list \<Rightarrow> string" where
  "show_members q ms = join '','' (map (show_member q) ms)"

lemma show_JObj: "show_json q (JObj ms) = ''{'' @ show_members q ms @ ''}''"
  by (simp add: show_members_def show_member_def case_prod_unfold cong: map_cong)

text \<open>No string needs an escape.\<close>

fun clean_json :: "json \<Rightarrow> bool" where
  "clean_json (JStr s) \<longleftrightarrow> clean s"
| "clean_json (JArr js) \<longleftrightarrow> list_all clean_json js"
| "clean_json (JObj ms) \<longleftrightarrow> list_all (\<lambda>(k, v). clean k \<and> clean_json v) ms"
| "clean_json _ \<longleftrightarrow> True"

section \<open>Parsing\<close>

definition string_char :: "char \<Rightarrow> bool" where
  "string_char c \<longleftrightarrow> c \<noteq> DQ \<and> c \<noteq> BSLASH \<and> 32 \<le> ord_of c"

text \<open>The rest of a string after its opening quote.\<close>

definition parse_string :: "string \<Rightarrow> (string \<times> string) option" where
  "parse_string s =
     (case dropWhile string_char s of
        [] \<Rightarrow> None
      | c # r \<Rightarrow> if c = DQ then Some (takeWhile string_char s, r) else None)"

definition parse_nat :: "string \<Rightarrow> (nat \<times> string) option" where
  "parse_nat s =
     (let ds = takeWhile isdigit s in
      if ds = [] \<or> (hd ds = CHR ''0'' \<and> ds \<noteq> ''0'') then None
      else Some (digits_prefix 10 0 ds, dropWhile isdigit s))"

definition parse_number :: "string \<Rightarrow> (json \<times> string) option" where
  "parse_number s =
     (case s of
        [] \<Rightarrow> None
      | c # cs \<Rightarrow>
          if c = CHR ''-'' then map_option (\<lambda>(n, r). (JInt (- int n), r)) (parse_nat cs)
          else map_option (\<lambda>(n, r). (JInt (int n), r)) (parse_nat s))"

fun parse_value :: "nat \<Rightarrow> string \<Rightarrow> (json \<times> string) option"
  and parse_elems :: "nat \<Rightarrow> string \<Rightarrow> (json list \<times> string) option"
  and parse_members :: "nat \<Rightarrow> string \<Rightarrow> ((string \<times> json) list \<times> string) option" where
  "parse_value 0 s = None"
| "parse_value (Suc n) [] = None"
| "parse_value (Suc n) (c # s) =
     (if c = CHR ''{'' then
        (if take 1 s = ''}'' then Some (JObj [], drop 1 s)
         else map_option (\<lambda>(ms, r). (JObj ms, r)) (parse_members n s))
      else if c = CHR ''['' then
        (if take 1 s = '']'' then Some (JArr [], drop 1 s)
         else map_option (\<lambda>(js, r). (JArr js, r)) (parse_elems n s))
      else if c = DQ then map_option (\<lambda>(t, r). (JStr t, r)) (parse_string s)
      else if take 4 (c # s) = ''true'' then Some (JBool True, drop 4 (c # s))
      else if take 5 (c # s) = ''false'' then Some (JBool False, drop 5 (c # s))
      else parse_number (c # s))"
| "parse_elems 0 s = None"
| "parse_elems (Suc n) s =
     (case parse_value n s of
        Some (v, c # r) \<Rightarrow>
          (if c = CHR '']'' then Some ([v], r)
           else if c = CHR '','' then map_option (\<lambda>(vs, r'). (v # vs, r')) (parse_elems n r)
           else None)
      | _ \<Rightarrow> None)"
| "parse_members 0 s = None"
| "parse_members (Suc n) s =
     (case s of
        [] \<Rightarrow> None
      | d # s' \<Rightarrow>
          if d \<noteq> DQ then None else
          (case parse_string s' of
             Some (k, e # r) \<Rightarrow>
               if e \<noteq> CHR '':'' then None else
               (case parse_value n r of
                  Some (v, c # r') \<Rightarrow>
                    (if c = CHR ''}'' then Some ([(k, v)], r')
                     else if c = CHR '','' then
                       map_option (\<lambda>(ms, r''). ((k, v) # ms, r'')) (parse_members n r')
                     else None)
                | _ \<Rightarrow> None)
           | _ \<Rightarrow> None))"

text \<open>A whole document: one value, nothing after it. The fuel is twice the length, which
  bounds the number of nested and consecutive calls.\<close>

definition parse_json :: "string \<Rightarrow> json option" where
  "parse_json s =
     (case parse_value (2 * length s) s of
        Some (v, r) \<Rightarrow> if r = [] then Some v else None
      | None \<Rightarrow> None)"

section \<open>Round trip\<close>

lemma string_char_clean: "clean_char c \<Longrightarrow> string_char c"
  by (simp add: clean_char_def string_char_def)

lemma parse_string_show:
  assumes "clean s"
  shows "parse_string (s @ DQ # r) = Some (s, r)"
proof -
  have "\<And>c. c \<in> set s \<Longrightarrow> string_char c"
    using assms by (simp add: clean_set string_char_clean)
  moreover have "\<not> string_char DQ"
    by (simp add: string_char_def)
  ultimately have "dropWhile string_char (s @ DQ # r) = DQ # r"
    and "takeWhile string_char (s @ DQ # r) = s"
    by (blast intro: dropWhile_append_stop takeWhile_append_stop)+
  then show ?thesis
    unfolding parse_string_def by (simp only: list.case if_True refl)
qed

lemma radix10_lead: "take 1 (radix 10 n) = ''0'' \<Longrightarrow> radix 10 n = ''0''"
proof (induction "10 :: nat" n rule: radix.induct)
  case (1 n)
  show ?case
  proof (cases "n < 10")
    case True
    then show ?thesis using "1.prems" by (simp add: radix_small)
  next
    case False
    then have step: "radix 10 n = radix 10 (n div 10) @ [digit_char (n mod 10)]"
      by (simp add: radix.simps [of 10 n])
    with "1.prems" have "take 1 (radix 10 (n div 10)) = ''0''"
      using radix_nonempty [of 10 "n div 10"] by (cases "radix 10 (n div 10)") auto
    with "1.hyps" False have "radix 10 (n div 10) = ''0''" by simp
    then have "digits_prefix 10 0 (radix 10 (n div 10)) = 0"
      by (simp add: digit_val_def isdigit_def)
    then have "n div 10 = 0" by (simp add: digits_prefix_radix)
    with False show ?thesis by simp
  qed
qed

definition no_digit_hd :: "string \<Rightarrow> bool" where
  "no_digit_hd s = (case s of [] \<Rightarrow> True | c # _ \<Rightarrow> \<not> isdigit c)"

lemma no_digit_span:
  assumes "no_digit_hd r" and "\<And>c. c \<in> set ds \<Longrightarrow> isdigit c"
  shows "takeWhile isdigit (ds @ r) = ds" "dropWhile isdigit (ds @ r) = r"
proof -
  have "takeWhile isdigit r = []" "dropWhile isdigit r = r"
    using assms(1) by (cases r; simp add: no_digit_hd_def)+
  with assms(2) show "takeWhile isdigit (ds @ r) = ds" "dropWhile isdigit (ds @ r) = r"
    by (simp_all add: takeWhile_append dropWhile_append)
qed

lemma parse_nat_show:
  assumes "no_digit_hd r"
  shows "parse_nat (radix 10 n @ r) = Some (n, r)"
proof -
  note span = no_digit_span [OF assms, of "radix 10 n", OF radix10_digits]
  have "hd (radix 10 n) = CHR ''0'' \<Longrightarrow> radix 10 n = ''0''"
    using radix10_lead [of n] by (cases "radix 10 n") auto
  then show ?thesis
    by (auto simp: parse_nat_def Let_def span digits_prefix_radix)
qed

lemma radix10_hd:
  obtains c cs where "radix 10 n = c # cs" and "isdigit c"
  using radix_nonempty [of 10 n] radix10_digits [of _ n]
  by (cases "radix 10 n") auto

lemma parse_value_int:
  assumes "no_digit_hd r"
  shows "parse_value (Suc n) (show_int i @ r) = Some (JInt i, r)"
proof -
  obtain c cs where r10: "radix 10 (nat \<bar>i\<bar>) = c # cs" and d: "isdigit c"
    by (rule radix10_hd)
  then have c: "c \<noteq> CHR ''{''" "c \<noteq> CHR ''[''" "c \<noteq> DQ" "c \<noteq> CHR ''t''" "c \<noteq> CHR ''f''" "c \<noteq> CHR ''-''"
    by (auto simp: isdigit_def)
  have "parse_nat (c # cs @ r) = Some (nat \<bar>i\<bar>, r)"
    using parse_nat_show [OF assms, of "nat \<bar>i\<bar>"] by (simp add: r10)
  then show ?thesis
    using c by (auto simp: show_int_def r10 parse_number_def)
qed

fun jfuel :: "json \<Rightarrow> nat" where
  "jfuel (JArr js) = Suc (sum_list (map (\<lambda>j. Suc (jfuel j)) js))"
| "jfuel (JObj ms) = Suc (sum_list (map (\<lambda>(k, v). Suc (jfuel v)) ms))"
| "jfuel _ = 1"

lemma show_int_length: "0 < length (show_int i)"
  by (simp add: show_int_def)

lemma jfuel_length: "jfuel j \<le> 2 * length (show_json q j)"
proof (induction j rule: show_json.induct)
  case (1 q i)
  then show ?case using show_int_length [of i] by (simp add: Suc_le_eq)
next
  case (4 q js)
  have "sum_list (map (\<lambda>j. Suc (jfuel j)) js) \<le> length js + 2 * sum_list (map (length \<circ> show_json q) js)"
    using 4
  proof (induction js)
    case (Cons a js)
    have "jfuel a \<le> 2 * length (show_json q a)" by (simp add: Cons.prems)
    moreover have "sum_list (map (\<lambda>j. Suc (jfuel j)) js) \<le> length js + 2 * sum_list (map (length \<circ> show_json q) js)"
      by (rule Cons.IH) (simp add: Cons.prems)
    ultimately show ?case by (simp add: o_def)
  qed simp
  then show ?case by (simp add: length_join)
next
  case (5 q ms)
  have "sum_list (map (\<lambda>(k, v). Suc (jfuel v)) ms) \<le>
      length ms + 2 * sum_list (map (length \<circ> (\<lambda>(k, v). q # k @ q # CHR '':'' # show_json q v)) ms)"
    using 5 by (induction ms) fastforce+
  then show ?case by (simp add: length_join)
qed simp_all

lemma show_json_hd:
  "\<exists>c cs. show_json DQ j = c # cs \<and> c \<noteq> CHR '']'' \<and> c \<noteq> CHR ''}''"
proof (cases j)
  case (JInt i)
  obtain c cs where "radix 10 (nat \<bar>i\<bar>) = c # cs" "isdigit c"
    by (rule radix10_hd)
  with JInt show ?thesis by (auto simp: show_int_def isdigit_def)
qed auto

lemma no_digit_hd_simps [simp]:
  "no_digit_hd []" "no_digit_hd (CHR '','' # s)" "no_digit_hd (CHR '']'' # s)" "no_digit_hd (CHR ''}'' # s)"
  by (simp_all add: no_digit_hd_def isdigit_def)

lemma parse_elems_show:
  assumes "js \<noteq> []"
    and "\<And>j n r. j \<in> set js \<Longrightarrow> jfuel j \<le> n \<Longrightarrow> no_digit_hd r \<Longrightarrow> parse_value n (show_json DQ j @ r) = Some (j, r)"
    and "sum_list (map (\<lambda>j. Suc (jfuel j)) js) \<le> n"
  shows "parse_elems n (join '','' (map (show_json DQ) js) @ CHR '']'' # r) = Some (js, r)"
  using assms
proof (induction js arbitrary: n)
  case (Cons j js)
  then obtain m where n: "n = Suc m" by (cases n) auto
  have m: "jfuel j \<le> m" "sum_list (map (\<lambda>j. Suc (jfuel j)) js) \<le> m"
    using Cons.prems(3) n by auto
  show ?case
  proof (cases js)
    case Nil
    then show ?thesis using Cons.prems(2) m(1) by (simp add: n)
  next
    case (Cons j' js')
    then have "parse_elems m (join '','' (map (show_json DQ) js) @ CHR '']'' # r) = Some (js, r)"
      using Cons.IH [of m] Cons.prems(2) m(2) by simp
    then show ?thesis
      using Cons.prems(2) m(1) Cons by (simp add: n)
  qed
qed simp

lemma parse_members_show:
  assumes "ms \<noteq> []"
    and "\<And>k v n r. (k, v) \<in> set ms \<Longrightarrow> jfuel v \<le> n \<Longrightarrow> no_digit_hd r \<Longrightarrow> parse_value n (show_json DQ v @ r) = Some (v, r)"
    and "\<And>k v. (k, v) \<in> set ms \<Longrightarrow> clean k"
    and "sum_list (map (\<lambda>(k, v). Suc (jfuel v)) ms) \<le> n"
  shows "parse_members n (show_members DQ ms @ CHR ''}'' # r) = Some (ms, r)"
  using assms
proof (induction ms arbitrary: n)
  case (Cons m ms)
  obtain k v where kv: "m = (k, v)" by fastforce
  obtain l where n: "n = Suc l" using Cons.prems(4) kv by (cases n) auto
  have l: "jfuel v \<le> l" "sum_list (map (\<lambda>(k, v). Suc (jfuel v)) ms) \<le> l"
    using Cons.prems(4) n kv by auto
  have k: "parse_string (k @ DQ # s) = Some (k, s)" for s
    using Cons.prems(3) kv by (intro parse_string_show) auto
  have v: "parse_value l (show_json DQ v @ s) = Some (v, s)" if "no_digit_hd s" for s
    by (rule Cons.prems(2) [of k]) (simp_all add: kv l(1) that)
  show ?case
  proof (cases ms)
    case Nil
    then show ?thesis using k v by (simp add: n kv show_members_def show_member_def)
  next
    case (Cons m' ms')
    then have "parse_members l (show_members DQ ms @ CHR ''}'' # r) = Some (ms, r)"
      using Cons.IH [of l] Cons.prems(2,3) l(2) by (metis list.distinct(1) list.set_intros(2))
    then show ?thesis
      using k v Cons by (simp add: n kv show_members_def show_member_def)
  qed
qed simp

lemma parse_value_show:
  "clean_json j \<Longrightarrow> jfuel j \<le> n \<Longrightarrow> no_digit_hd r \<Longrightarrow> parse_value n (show_json DQ j @ r) = Some (j, r)"
proof (induction j arbitrary: n r)
  case (JInt i)
  then show ?case by (cases n) (simp_all add: parse_value_int)
next
  case (JBool v)
  then show ?case by (cases n) auto
next
  case (JStr s)
  then show ?case by (cases n) (auto simp: parse_string_show)
next
  case (JArr js)
  then obtain m where n: "n = Suc m" by (cases n) auto
  show ?case
  proof (cases "js = []")
    case True
    then show ?thesis by (simp add: n)
  next
    case False
    then obtain j js' where js: "js = j # js'" by (cases js) auto
    obtain c cs where "show_json DQ j = c # cs" "c \<noteq> CHR '']''"
      using show_json_hd by blast
    then have "take 1 (join '','' (map (show_json DQ) js) @ CHR '']'' # r) \<noteq> '']''"
      by (simp add: js join_Cons)
    moreover have "parse_elems m (join '','' (map (show_json DQ) js) @ CHR '']'' # r) = Some (js, r)"
      using False JArr n by (intro parse_elems_show) (auto simp: list_all_iff)
    ultimately show ?thesis by (simp add: n)
  qed
next
  case (JObj ms)
  then obtain m where n: "n = Suc m" by (cases n) auto
  show ?case
  proof (cases "ms = []")
    case True
    then show ?thesis by (simp add: n)
  next
    case False
    then have "take 1 (show_members DQ ms @ CHR ''}'' # r) \<noteq> ''}''"
      by (cases ms) (auto simp: show_members_def join_Cons show_member_def)
    moreover have "parse_members m (show_members DQ ms @ CHR ''}'' # r) = Some (ms, r)"
      using False JObj n by (intro parse_members_show) (auto simp: list_all_iff)
    ultimately show ?thesis
      unfolding n show_JObj by simp
  qed
qed

theorem parse_json_show: "clean_json j \<Longrightarrow> parse_json (show_json DQ j) = Some j"
  using parse_value_show [of j "2 * length (show_json DQ j)" "[]"] jfuel_length [of j DQ]
  by (simp add: parse_json_def)

section \<open>Changing the quote character\<close>

definition requote :: "char \<Rightarrow> char" where
  "requote c = (if c = SQ then DQ else c)"

lemma requote_id: "SQ \<notin> set s \<Longrightarrow> map requote s = s"
  by (induction s) (auto simp: requote_def)

lemma requote_NUL: "NUL \<in> set (map requote s) \<longleftrightarrow> NUL \<in> set s"
  by (induction s) (auto simp: requote_def)

lemma requote_show_int: "map requote (show_int i) = show_int i"
proof (rule requote_id)
  have "\<not> isdigit SQ" by (simp add: isdigit_def)
  then show "SQ \<notin> set (show_int i)"
    using radix10_digits by (auto simp: show_int_def)
qed

lemma requote_show: "clean_json j \<Longrightarrow> map requote (show_json SQ j) = show_json DQ j"
proof (induction j)
  case (JInt i)
  then show ?case by (simp add: requote_show_int)
next
  case (JStr s)
  then show ?case by (simp add: requote_id clean_not) (simp add: requote_def)
next
  case (JArr js)
  then show ?case
    by (simp add: map_join list_all_iff cong: map_cong) (simp add: requote_def)
next
  case (JObj ms)
  have "map requote (show_member SQ m) = show_member DQ m" if "m \<in> set ms" for m
    using JObj that by (cases m) (auto simp: show_member_def list_all_iff requote_id clean_not, simp_all add: requote_def)
  then show ?case
    unfolding show_JObj by (simp add: show_members_def map_join cong: map_cong) (simp add: requote_def)
qed (simp_all add: requote_def)

end
