(* ===== verification/Native_Context.thy ===== *)
theory Native_Context
  imports Agent_Config
begin

text \<open>
  \<open>jni/native-context.cpp\<close>: the process-wide record of what the managed side passed in. A Java
  reference or method id is an opaque number, 0 the null reference.
\<close>

record native_context =
  nc_initialized :: bool
  nc_jvm :: nat
  nc_jniDelegateObject :: nat
  nc_onNativeCrash :: nat
  nc_onNativeException :: nat
  nc_onApplicationNotResponding :: nat
  nc_reportPathAbsolute :: string
  nc_sessionId :: string
  nc_buildId :: string
  nc_anrMonitorEnabled :: bool

text \<open>The static instance, zero before its first use.\<close>

definition zero_native_context :: native_context where
  "zero_native_context = \<lparr>nc_initialized = False, nc_jvm = 0, nc_jniDelegateObject = 0,
     nc_onNativeCrash = 0, nc_onNativeException = 0, nc_onApplicationNotResponding = 0,
     nc_reportPathAbsolute = [], nc_sessionId = [], nc_buildId = [], nc_anrMonitorEnabled = False\<rparr>"

end
