(* ===== verification/Emitter_Spec.thy ===== *)
theory Emitter_Spec
  imports Emitter
begin

text \<open>
  The JSON value every emitter writes, and the proofs that it writes exactly that value's text:
  first the fields, then frames, signal, registers, context, threads and the whole report.
\<close>

section \<open>Fields\<close>

text \<open>A bound on the text of a format, from the format alone: it decides that the 2048-byte
  buffer of \<open>_EMIT_F\<close> cuts nothing off.\<close>

fun item_bound :: "fmt_item \<Rightarrow> nat" where
  "item_bound (Lit c) = 1"
| "item_bound (Conv z w m k) = max w 20"

fun arg_bound :: "fmt_arg \<Rightarrow> nat" where
  "arg_bound (Reg r) = 0"
| "arg_bound (Str s) = length s"

lemma length_render_conv:
  assumes "0 < bits" "bits \<le> 64"
  shows "length (render_conv bits z w m k a) \<le> max w 20 + arg_bound a"
proof (cases a)
  case (Reg r)
  have n: "0 < len_bits bits m" "len_bits bits m \<le> 64"
    using assms by (auto simp: len_bits_def split: lenmod.splits)
  show ?thesis
  proof (cases k)
    case Conv_d
    then show ?thesis
      using length_show_signed [OF n, of r] Reg
      by (auto simp: length_pad_field show_int_def Let_def split: if_splits)
  next
    case Conv_u
    then show ?thesis
      using length_radix_unsigned [OF n(2), of r] Reg by (simp add: length_pad_field)
  next
    case Conv_x
    then show ?thesis
      using length_radix16_unsigned [OF n(2), of r] Reg by (simp add: length_pad_field)
  next
    case Conv_p
    then show ?thesis
      using length_radix16_unsigned [OF assms(2), of r] Reg by (simp add: length_pad_field)
  qed (simp add: Reg)
next
  case (Str s)
  then show ?thesis
    using length_c_str [of s] by (cases k) (simp_all add: length_pad_field)
qed

lemma length_render:
  assumes "0 < bits" "bits \<le> 64"
  shows "length (render bits its args) \<le> sum_list (map item_bound its) + sum_list (map arg_bound args)"
  using assms
proof (induction bits its args rule: render.induct)
  case (4 bits z w m k its a args)
  then show ?case using length_render_conv [of bits z w m k a] by simp
qed auto

lemma EMIT_F_eq [emit_simps]:
  assumes "sum_list (map item_bound (parse_fmt In_text fmt)) + sum_list (map arg_bound args) < 2048"
  shows "EMIT_F b state fmt args = state @ render (abi_bits b) (parse_fmt In_text fmt) args"
  using length_render [of "abi_bits b" "parse_fmt In_text fmt" args] assms
  by (simp add: EMIT_F_def vsnprintf_def vformat_def)

declare render_conv.simps [simp del]

lemma render_fields [fmt_simps]:
  "render_conv bits True w m Conv_u (Reg r) = pad_field True w '''' (radix 10 (unsigned_arg (len_bits bits m) r))"
  "render_conv bits True w m Conv_x (Reg r) = pad_field True w '''' (radix 16 (unsigned_arg (len_bits bits m) r))"
  "render_conv bits True w m Conv_p (Reg r) = pad_field True w ''0x'' (radix 16 (unsigned_arg bits r))"
  "render_conv bits False 0 m Conv_p (Reg r) = ''0x'' @ radix 16 (unsigned_arg bits r)"
  "render_conv bits True w m Conv_d (Reg r) =
     pad_field True w (if signed_arg (len_bits bits m) r < 0 then ''-'' else '''')
       (radix 10 (nat \<bar>signed_arg (len_bits bits m) r\<bar>))"
  by (simp_all add: render_conv.simps Let_def)

lemma show_int_nat [simp]: "show_int (int n) = radix 10 n"
  by (simp add: show_int_def)

lemmas emit_field_simps = emit_simps fmt_simps conv_of_def isdigit_def show_member_def c_str_id clean_not

section \<open>Names of elements and lists of items\<close>

lemma show_json_no_NUL: "clean_json j \<Longrightarrow> NUL \<notin> set (show_json SQ j)"
proof (induction j)
  case (JInt i)
  have "\<not> isdigit NUL" by (simp add: isdigit_def)
  then show ?case using radix10_digits by (auto simp: show_int_def)
next
  case (JArr js)
  then show ?case using set_join_subset [of "'',''" "map (show_json SQ) js"] by (fastforce simp: list_all_iff)
next
  case (JObj ms)
  then have "NUL \<notin> set (show_member SQ m)" if "m \<in> set ms" for m
    using that by (cases m) (auto simp: show_member_def list_all_iff clean_not)
  then show ?case
    using set_join_subset [of "'',''" "map (show_member SQ) ms"]
    unfolding show_JObj by (fastforce simp: show_members_def)
qed (auto simp: clean_not)

lemma show_members_no_NUL: "clean_json (JObj ms) \<Longrightarrow> NUL \<notin> set (show_members SQ ms)"
  using show_json_no_NUL [of "JObj ms"] unfolding show_JObj by simp

lemma show_members_append:
  "xs \<noteq> [] \<Longrightarrow> ys \<noteq> [] \<Longrightarrow> show_members q (xs @ ys) = show_members q xs @ '','' @ show_members q ys"
  by (simp add: show_members_def join_append)

lemma show_members_Cons:
  "show_members q (m # ms) = show_member q m @ (if ms = [] then [] else '','' @ show_members q ms)"
  by (simp add: show_members_def join_Cons)

lemma emit_name_eq:
  assumes "clean n" "length n \<le> 100"
  shows "emit_name b state (Some n) = state @ SQ # n @ SQ # '':''"
  using assms by (simp add: emit_name_def emit_field_simps)

text \<open>An object with one pre-rendered item, as every caller but \<open>emit_backtrace\<close> makes it.\<close>

lemma EMIT_E_members:
  assumes "clean_json (JObj ms)"
  shows "EMIT_E b state None [Some (show_members SQ ms), None] = state @ show_json SQ (JObj ms)"
  using show_members_no_NUL [OF assms]
  by (simp add: EMIT_E_def emit_name_def c_str_id show_JObj del: show_json.simps)

lemma EMIT_E_named:
  assumes "clean_json (JObj ms)" "clean n" "length n \<le> 100"
  shows "EMIT_E b state (Some n) [Some (show_members SQ ms), None] = state @ show_member SQ (n, JObj ms)"
  using show_members_no_NUL [OF assms(1)] assms
  by (simp add: EMIT_E_def emit_name_eq c_str_id show_JObj show_member_def del: show_json.simps)

lemma EMIT_A_named:
  assumes "clean_json (JArr js)" "clean n" "length n \<le> 100"
  shows "EMIT_A b state (Some n) [Some (join '','' (map (show_json SQ) js)), None] =
    state @ show_member SQ (n, JArr js)"
proof -
  have "NUL \<notin> set (join '','' (map (show_json SQ) js))"
    using show_json_no_NUL [OF assms(1)] by simp
  then show ?thesis
    using assms by (simp add: EMIT_A_def emit_name_eq c_str_id show_member_def)
qed

section \<open>Lists of rendered items\<close>

text \<open>
  The loop shared by \<open>emit_callstack\<close> and \<open>emit_thread_state\<close>: append every item and a comma,
  then drop the last comma. It is a join as long as an item is a C string.
\<close>

locale sep_emitter =
  fixes item :: "'a \<Rightarrow> string" and ok :: "'a \<Rightarrow> bool"
  assumes item_no_NUL: "ok x \<Longrightarrow> NUL \<notin> set (item x)"
begin

lemma loop_concat:
  "list_all ok xs \<Longrightarrow>
   fold (\<lambda>x acc. EMIT_C acc [Some (item x), Some '','', None]) xs acc =
     acc @ concat (map (\<lambda>s. s @ '','') (map item xs))"
proof (induction xs arbitrary: acc)
  case (Cons x xs)
  then show ?case by (simp add: c_str_id item_no_NUL)
qed simp

lemma loop_join:
  assumes "list_all ok xs"
    and "acc = fold (\<lambda>x acc. EMIT_C acc [Some (item x), Some '','', None]) xs []"
  shows "(if acc \<noteq> [] then butlast acc else acc) = join '','' (map item xs)"
proof (cases "xs = []")
  case False
  then have "acc = join '','' (map item xs) @ '',''"
    using loop_concat [OF assms(1), of "[]"] assms(2) concat_sep_join [of "map item xs" "CHR '',''"]
    by simp
  then show ?thesis by simp
qed (simp add: assms(2))

end

section \<open>Stack frames\<close>

text \<open>A frame whose strings need no escape and fit the formatting buffer.\<close>

definition wf_frame :: "stackframe \<Rightarrow> bool" where
  "wf_frame sf \<longleftrightarrow> clean (sf_so_path sf) \<and> clean (sf_sym_name sf) \<and>
     length (sf_so_path sf) \<le> 1023 \<and> length (sf_sym_name sf) \<le> 254"

definition frame_text :: "build \<Rightarrow> stackframe \<Rightarrow> string" where
  "frame_text b sf =
     ''#'' @ pad_field True 2 '''' (radix 10 (unsigned_arg (abi_bits b) (sf_index sf))) @
     '' pc '' @ pad_field True 16 '''' (radix 16 (unsigned_arg 32 (sf_pc sf))) @
     '' '' @ sf_so_path sf @
     (if sf_sym_name sf \<noteq> []
      then '' ('' @ sf_sym_name sf @ ''+'' @ show_int (signed_arg 32 (sf_sym_addr_offset sf)) @ '')''
      else '''')"

definition word_json :: "build \<Rightarrow> uptr \<Rightarrow> json" where
  "word_json b r = JInt (int (unsigned_arg (abi_bits b) r))"

definition frame_members :: "build \<Rightarrow> stackframe \<Rightarrow> (string \<times> json) list" where
  "frame_members b sf =
     [(''cstr'', JStr (frame_text b sf)),
      (''index'', JInt (signed_arg 32 (sf_index sf))),
      (''address'', word_json b (sf_address sf)),
      (''pc'', word_json b (sf_pc sf)),
      (''so_base'', word_json b (sf_so_base sf)),
      (''sym_addr'', word_json b (sf_sym_addr sf)),
      (''sym_addr_offset'', word_json b (sf_sym_addr_offset sf))] @
     (if sf_so_path sf \<noteq> [] then [(''so_path'', JStr (sf_so_path sf))] else []) @
     (if sf_sym_name sf \<noteq> [] then [(''sym_name'', JStr (sf_sym_name sf))] else [])"

definition frame_json :: "build \<Rightarrow> stackframe \<Rightarrow> json" where
  "frame_json b sf = JObj (frame_members b sf)"

lemma clean_pad_field:
  "clean p \<Longrightarrow> clean ds \<Longrightarrow> clean (pad_field z w p ds)"
  using set_pad_field [of z w p ds] by (fastforce simp: clean_set clean_char_def)

lemma clean_radix10 [simp]: "clean (radix 10 n)"
  by (auto simp: clean_set intro: clean_char_digit dest: radix10_digits)

lemma clean_radix16 [simp]: "clean (radix 16 n)"
  using radix16_alnum clean_char_digit clean_char_alpha by (fastforce simp: clean_set)

lemma clean_show_int [simp]: "clean (show_int i)"
  by (simp add: show_int_def clean_simps clean_char_def)

lemma clean_frame_text: "wf_frame sf \<Longrightarrow> clean (frame_text b sf)"
  by (simp add: frame_text_def wf_frame_def clean_simps clean_pad_field clean_char_def)

lemma length_frame_text: "wf_frame sf \<Longrightarrow> length (frame_text b sf) \<le> 1400"
  using length_radix_unsigned [of "abi_bits b" "sf_index sf"]
    length_radix16_unsigned [of 32 "sf_pc sf"] length_show_signed [of 32 "sf_sym_addr_offset sf"]
  by (auto simp: frame_text_def wf_frame_def length_pad_field max_def)

lemma frame_to_string_eq: "wf_frame sf \<Longrightarrow> frame_to_string b sf state = state @ frame_text b sf"
  by (simp add: frame_to_string_def frame_text_def wf_frame_def emit_field_simps numeral_2_eq_2)

lemma clean_frame_json: "wf_frame sf \<Longrightarrow> clean_json (frame_json b sf)"
  using clean_frame_text [of sf b]
  by (simp add: frame_json_def frame_members_def wf_frame_def word_json_def clean_simps clean_char_def)

lemma emit_stackframe_json:
  assumes "wf_frame sf"
  shows "emit_stackframe b sf state = state @ show_json SQ (frame_json b sf)"
proof -
  note facts = clean_frame_text [OF assms, of b] length_frame_text [OF assms, of b]
  have "emit_stackframe b sf state =
      EMIT_E b state None [Some (show_members SQ (frame_members b sf)), None]"
    using assms facts
    by (simp add: emit_stackframe_def frame_to_json_def frame_to_string_eq frame_members_def
        show_members_Cons wf_frame_def word_json_def emit_field_simps)
  then show ?thesis
    using clean_frame_json [OF assms] by (simp add: EMIT_E_members frame_json_def del: show_json.simps clean_json.simps)
qed

interpretation frames: sep_emitter "\<lambda>sf. emit_stackframe b sf []" wf_frame for b
  by unfold_locales (simp add: emit_stackframe_json show_json_no_NUL clean_frame_json)

section \<open>Signal and registers\<close>

definition signal_info_members :: "build \<Rightarrow> siginfo \<Rightarrow> (string \<times> json) list" where
  "signal_info_members b si =
     [(''signalName'', JStr (get_signal_description (sint (si_signo si)) (- 1))),
      (''signalCode'', JInt (sint (si_code si))),
      (''faultAddress'', word_json b (si_addr si))]"

definition exception_members :: "build \<Rightarrow> siginfo \<Rightarrow> (string \<times> json) list" where
  "exception_members b si =
     [(''name'', JStr ''Native exception''),
      (''cause'', JStr (get_signal_description (sint (si_signo si)) (sint (si_code si)))),
      (''signalInfo'', JObj (signal_info_members b si))]"

lemma clean_signal_json: "clean_json (JObj (signal_info_members b si))"
  using description_facts by (simp add: signal_info_members_def word_json_def clean_simps clean_char_def)

lemma clean_exception_json: "clean_json (JObj (exception_members b si))"
  using description_facts clean_signal_json [of b si]
  by (simp add: exception_members_def clean_simps clean_char_def)

lemma emit_signal_context_json:
  "emit_signal_context b (Some si) state = state @ show_member SQ (''exception'', JObj (exception_members b si))"
proof -
  note fits = description_facts [of "sint (si_signo si)" "sint (si_code si)"]
    description_facts [of "sint (si_signo si)" "- 1"]
  have info: "EMIT_F b (EMIT_F b (EMIT_F b [] '''signalName':'%s','' [Str (get_signal_description (sint (si_signo si)) (- 1))])
       '''signalCode':%d,'' [int_arg (si_code si)]) '''faultAddress':%zu'' [word_arg (si_addr si)] =
     show_members SQ (signal_info_members b si)"
    using fits by (simp add: signal_info_members_def show_members_Cons word_json_def emit_field_simps)
  have "EMIT_E b (EMIT_F b (EMIT_F b [] '''name':'%s','' [Str ''Native exception'']) '''cause':'%s',''
       [Str (get_signal_description (sint (si_signo si)) (sint (si_code si)))])
     (Some ''signalInfo'') [Some (show_members SQ (signal_info_members b si)), None] =
     show_members SQ (exception_members b si)"
    unfolding EMIT_E_named [OF clean_signal_json]
    using fits by (subst EMIT_E_named [OF clean_signal_json])
      (simp_all add: exception_members_def show_members_Cons emit_field_simps clean_simps clean_char_def)
  then show ?thesis
    unfolding emit_signal_context_def
    by (simp add: info EMIT_E_named [OF clean_exception_json] clean_simps clean_char_def Let_def)
qed

text \<open>A register as the report has it: digits of its low bits, zero-padded to a width.\<close>

definition hex_json :: "nat \<Rightarrow> nat \<Rightarrow> uptr \<Rightarrow> json" where
  "hex_json w n r = JStr (pad_field True w '''' (radix 16 (unsigned_arg n r)))"

definition dec_json :: "nat \<Rightarrow> nat \<Rightarrow> uptr \<Rightarrow> json" where
  "dec_json w n r = JStr (pad_field True w '''' (radix 10 (unsigned_arg n r)))"

definition sdec_json :: "nat \<Rightarrow> nat \<Rightarrow> uptr \<Rightarrow> json" where
  "sdec_json w n r =
     JStr (pad_field True w (if signed_arg n r < 0 then ''-'' else '''') (radix 10 (nat \<bar>signed_arg n r\<bar>)))"

definition ptr_json :: "bool \<Rightarrow> nat \<Rightarrow> nat \<Rightarrow> uptr \<Rightarrow> json" where
  "ptr_json z w n r = JStr (pad_field z w ''0x'' (radix 16 (unsigned_arg n r)))"

definition reg_key :: "string \<Rightarrow> nat \<Rightarrow> string" where
  "reg_key p i = p @ show_int (signed_arg 32 (word_of_nat i))"

lemma clean_register_json [simp]:
  "clean_json (hex_json w n r)" "clean_json (dec_json w n r)" "clean_json (sdec_json w n r)"
  "clean_json (ptr_json z w n r)"
  by (simp_all add: hex_json_def dec_json_def sdec_json_def ptr_json_def clean_pad_field clean_simps clean_char_def)

lemma clean_reg_key [simp]: "clean (reg_key p i) \<longleftrightarrow> clean p"
  by (simp add: reg_key_def clean_simps)

text \<open>The registers of the document the emitter writes, not of the one it means to write: on ARM r0 to
  r10 are the enumerators' values, on i386 edx is EAX, and the arm64 registers are cut to 32 bits,
  as in the source (\<open>Report_Limits\<close> has the consequences).\<close>

definition registers_members :: "build \<Rightarrow> mcontext \<Rightarrow> (string \<times> json) list" where
  "registers_members b mc =
     (let g = (\<lambda>r. mc_gregs mc (b_reg b r)); r = mc_arm_r mc in
      case b_abi b of
        I386 \<Rightarrow>
          [(''eax'', dec_json 8 32 (g REG_EAX)), (''ebx'', dec_json 8 32 (g REG_EBX)),
           (''ecx'', dec_json 8 32 (g REG_ECX)), (''edx'', dec_json 8 32 (g REG_EAX)),
           (''edi'', dec_json 8 32 (g REG_EDI)), (''esi'', dec_json 8 32 (g REG_ESI)),
           (''ebp'', dec_json 8 32 (g REG_EBP)), (''esp'', hex_json 8 32 (g REG_ESP)),
           (''eip'', hex_json 8 32 (g REG_EIP)), (''trapno'', JInt (signed_arg 32 (g REG_TRAPNO))),
           (''error_code'', JInt (signed_arg 32 (g REG_ERR)))]
      | X86_64 \<Rightarrow>
          map (\<lambda>i. (reg_key ''r'' i, sdec_json 16 64 (mc_gregs mc i))) [0..<b_ngreg b] @
          [(''rip'', hex_json 16 32 (g REG_RIP)), (''rsp'', hex_json 16 32 (g REG_RSP)),
           (''trapno'', JInt (signed_arg 32 (g REG_TRAPNO))),
           (''error_code'', JInt (signed_arg 32 (g REG_ERR)))]
      | ARM \<Rightarrow>
          [(''r0'', hex_json 8 32 0), (''r1'', hex_json 8 32 1), (''r2'', hex_json 8 32 2),
           (''r3'', hex_json 8 32 3), (''r4'', hex_json 8 32 4), (''r5'', hex_json 8 32 5),
           (''r6'', hex_json 8 32 6), (''r7'', hex_json 8 32 7), (''r8'', hex_json 8 32 8),
           (''r9'', hex_json 8 32 9), (''r10'', hex_json 8 32 10),
           (''fp'', hex_json 8 32 (mc_arm_fp mc)), (''ip'', hex_json 8 32 (mc_arm_ip mc)),
           (''sp'', hex_json 8 32 (mc_arm_sp mc)), (''lr'', hex_json 8 32 (mc_arm_lr mc)),
           (''pc'', hex_json 8 32 (mc_arm_pc mc)), (''cpsr'', hex_json 8 32 (mc_arm_cpsr mc)),
           (''trapno'', JInt (signed_arg 32 (mc_trap_no mc))),
           (''error_code'', JInt (signed_arg 32 (mc_error_code mc))),
           (''fault_address'', ptr_json False 0 32 (mc_fault_address mc))]
      | AARCH64 \<Rightarrow>
          map (\<lambda>i. (reg_key ''x'' i, hex_json 16 32 (mc_regs mc i))) [0..<30] @
          [(''lr'', hex_json 16 32 (mc_regs mc 30)), (''sp'', hex_json 16 32 (mc_sp mc)),
           (''pc'', hex_json 16 32 (mc_pc mc)), (''pst'', hex_json 16 32 (mc_pstate mc)),
           (''fault_address'', ptr_json True 16 64 (mc_fault_address mc))])"

lemma clean_registers_json: "clean_json (JObj (registers_members b mc))"
  by (cases "b_abi b")
    (simp_all add: registers_members_def Let_def list_all_iff clean_simps clean_char_def del: upt_Suc upt_rec_numeral)

lemma show_members_loop:
  "rest \<noteq> [] \<Longrightarrow> show_members q (map f is @ rest) = concat (map (\<lambda>i. show_member q (f i) @ '','') is) @ show_members q rest"
  by (induction "is") (simp_all add: show_members_Cons)

lemmas register_json_defs = hex_json_def dec_json_def sdec_json_def ptr_json_def

lemma fold_append_eq:
  "(\<And>i acc. f i acc = acc @ g i) \<Longrightarrow> fold f is acc = acc @ concat (map g is)"
  by (induction "is" arbitrary: acc) auto

lemma registers_i386_text:
  assumes "b_abi b = I386"
  shows "registers_i386 b mc = show_members SQ (registers_members b mc)"
proof -
  have "abi_bits b = 32" using assms by (simp add: abi_bits_def)
  then show ?thesis
    by (simp add: registers_i386_def registers_members_def assms greg_def Let_def show_members_Cons
        register_json_defs emit_field_simps)
qed

lemma registers_arm_text:
  assumes "b_abi b = ARM"
  shows "registers_arm b mc = show_members SQ (registers_members b mc)"
proof -
  have "abi_bits b = 32" using assms by (simp add: abi_bits_def)
  then show ?thesis
    by (simp add: registers_arm_def registers_members_def assms Let_def show_members_Cons
        register_json_defs emit_field_simps)
qed

lemma registers_x86_64_text:
  assumes "b_abi b = X86_64"
  shows "registers_x86_64 b mc = show_members SQ (registers_members b mc)"
proof -
  have bits: "abi_bits b = 64" using assms by (simp add: abi_bits_def)
  have "fold (\<lambda>i registers. EMIT_F b registers '''r%d':'%016ld',''
          [Reg (word_of_nat i), word_arg (mc_gregs mc i)]) [0..<b_ngreg b] [] =
      concat (map (\<lambda>i. show_member SQ (reg_key ''r'' i, sdec_json 16 64 (mc_gregs mc i)) @ '','') [0..<b_ngreg b])"
    by (subst fold_append_eq)
      (simp_all add: reg_key_def register_json_defs emit_field_simps bits)
  then show ?thesis
    by (simp add: registers_x86_64_def registers_members_def assms bits greg_def Let_def show_members_Cons
        show_members_loop register_json_defs emit_field_simps del: upt_Suc)
qed

lemma registers_aarch64_text:
  assumes "b_abi b = AARCH64"
  shows "registers_aarch64 b mc = show_members SQ (registers_members b mc)"
proof -
  have bits: "abi_bits b = 64" using assms by (simp add: abi_bits_def)
  have "fold (\<lambda>i registers. EMIT_F b registers '''x%d':'%016x',''
          [Reg (word_of_nat i), word_arg (mc_regs mc i)]) [0..<30] [] =
      concat (map (\<lambda>i. show_member SQ (reg_key ''x'' i, hex_json 16 32 (mc_regs mc i)) @ '','') [0..<30])"
    by (subst fold_append_eq)
      (simp_all add: reg_key_def register_json_defs emit_field_simps bits del: upt_Suc upt_rec_numeral)
  then show ?thesis
    by (simp add: registers_aarch64_def registers_members_def assms bits Let_def show_members_Cons
        show_members_loop register_json_defs emit_field_simps del: upt_Suc upt_rec_numeral)
qed

lemma emit_registers_json:
  "emit_registers b (Some mc) state = Some (state @ show_member SQ (''registers'', JObj (registers_members b mc)))"
  by (cases "b_abi b")
    (simp_all add: emit_registers_def registers_i386_text registers_arm_text registers_x86_64_text
      registers_aarch64_text EMIT_E_named [OF clean_registers_json] clean_simps clean_char_def)

section \<open>Process context\<close>

definition context_members ::
  "build \<Rightarrow> filesystem \<Rightarrow> native_context \<Rightarrow> backtrace \<Rightarrow> (string \<times> json) list" where
  "context_members b fs nc bt =
     [(''name'', JStr (get_process_name b fs (bt_pid bt))),
      (''description'', JStr (bt_description bt)),
      (''timestamp'', JInt (signed_arg (abi_bits b) (bt_timestamp bt))),
      (''abi'', JStr (bt_arch bt)),
      (''pid'', JInt (sint (bt_pid bt))),
      (''ppid'', JInt (sint (bt_ppid bt))),
      (''uid'', JInt (sint (bt_uid bt))),
      (''buildid'', JStr (nc_buildId nc)),
      (''sessionid'', JStr (nc_sessionId nc)),
      (''platform'', JStr ''android'')]"

text \<open>The strings of the context need no escape and have the sizes of their arrays.\<close>

definition wf_context :: "build \<Rightarrow> filesystem \<Rightarrow> native_context \<Rightarrow> backtrace \<Rightarrow> bool" where
  "wf_context b fs nc bt \<longleftrightarrow>
     clean (get_process_name b fs (bt_pid bt)) \<and> clean (bt_description bt) \<and> clean (bt_arch bt) \<and>
     clean (nc_buildId nc) \<and> clean (nc_sessionId nc) \<and>
     length (bt_description bt) \<le> 127 \<and> length (bt_arch bt) \<le> 15 \<and>
     length (nc_buildId nc) \<le> 39 \<and> length (nc_sessionId nc) \<le> 39"

lemma clean_context_json: "wf_context b fs nc bt \<Longrightarrow> clean_json (JObj (context_members b fs nc bt))"
  by (simp add: wf_context_def context_members_def clean_simps clean_char_def)

lemma emit_context_json:
  assumes "wf_context b fs nc bt"
  shows "emit_context b fs nc bt state = state @ show_members SQ (context_members b fs nc bt)"
  using assms length_get_process_name [of b fs "bt_pid bt"]
  by (simp add: wf_context_def emit_context_def context_members_def show_members_Cons emit_field_simps)

section \<open>Threads\<close>

definition callstack_frames :: "build \<Rightarrow> symbols \<Rightarrow> backtrace_state option \<Rightarrow> stackframe list" where
  "callstack_frames b sy bs =
     (case bs of
        None \<Rightarrow> []
      | Some st \<Rightarrow> map (\<lambda>i. resolve_frame b sy i (bs_frames st ! i)) [0..<bs_frame_cnt st])"

definition stack_json :: "build \<Rightarrow> symbols \<Rightarrow> backtrace_state option \<Rightarrow> json" where
  "stack_json b sy bs = JArr (map (frame_json b) (callstack_frames b sy bs))"

definition thread_members :: "build \<Rightarrow> symbols \<Rightarrow> threadinfo \<Rightarrow> (string \<times> json) list" where
  "thread_members b sy ti =
     [(''threadNumber'', JInt (sint (ti_tid ti))),
      (''threadId'', JStr (ti_thread_name ti)),
      (''state'', JStr (ti_thread_state ti)),
      (''priority'', JInt (sint (ti_priority ti))),
      (''crashed'', JBool (ti_crashed ti)),
      (''stack'', stack_json b sy (ti_backtrace_state ti))]"

definition thread_json :: "build \<Rightarrow> symbols \<Rightarrow> threadinfo \<Rightarrow> json" where
  "thread_json b sy ti = JObj (thread_members b sy ti)"

definition wf_report_thread :: "build \<Rightarrow> symbols \<Rightarrow> threadinfo \<Rightarrow> bool" where
  "wf_report_thread b sy ti \<longleftrightarrow> wf_thread ti \<and>
     list_all wf_frame (callstack_frames b sy (ti_backtrace_state ti))"

lemma wf_thread_strings:
  assumes "wf_thread ti"
  shows "clean (ti_thread_name ti)" "clean (ti_thread_state ti)"
    "length (ti_thread_name ti) \<le> 31" "length (ti_thread_state ti) \<le> 15"
proof -
  show "clean (ti_thread_name ti)" "length (ti_thread_name ti) \<le> 31"
    using assms name_char_clean by (auto simp: wf_thread_def clean_def list_all_iff)
  show "clean (ti_thread_state ti)" "length (ti_thread_state ti) \<le> 15"
    using assms state_names_clean [of "ti_thread_state ti"] by (auto simp: wf_thread_def clean_simps)
qed

lemma clean_stack_json:
  "list_all wf_frame (callstack_frames b sy bs) \<Longrightarrow> clean_json (stack_json b sy bs)"
  by (simp add: stack_json_def list_all_iff clean_frame_json)

lemma clean_thread_json: "wf_report_thread b sy ti \<Longrightarrow> clean_json (thread_json b sy ti)"
  using wf_thread_strings [of ti]
  by (simp add: wf_report_thread_def thread_json_def thread_members_def clean_stack_json clean_simps clean_char_def)

lemma emit_callstack_json:
  assumes "list_all wf_frame (callstack_frames b sy bs)"
  shows "emit_callstack b sy bs state = state @ show_member SQ (''stack'', stack_json b sy bs)"
proof (cases bs)
  case None
  then show ?thesis
    using EMIT_A_named [of "[]" "''stack''" b state]
    by (simp add: emit_callstack_def stack_json_def callstack_frames_def clean_simps clean_char_def)
next
  case (Some st)
  define fr where "fr = callstack_frames b sy bs"
  have items: "map (\<lambda>sf. emit_stackframe b sf []) fr = map (show_json SQ) (map (frame_json b) fr)"
    using assms by (simp add: fr_def emit_stackframe_json list_all_iff)
  have "(let acc = fold (\<lambda>i callstack. EMIT_C callstack
            [Some (emit_stackframe b (resolve_frame b sy i (bs_frames st ! i)) []), Some '','', None])
            [0..<bs_frame_cnt st] [] in if acc \<noteq> [] then butlast acc else acc) =
      join '','' (map (show_json SQ) (map (frame_json b) fr))"
    unfolding Let_def items [symmetric]
    by (rule frames.loop_join) (use assms in \<open>simp_all add: fr_def callstack_frames_def Some fold_map comp_def\<close>)
  moreover have "clean_json (JArr (map (frame_json b) fr))"
    using clean_stack_json [OF assms] by (simp add: stack_json_def fr_def)
  ultimately show ?thesis
    by (simp add: emit_callstack_def Some EMIT_A_named stack_json_def fr_def clean_simps clean_char_def
        Let_def del: clean_json.simps map_map)
qed

lemma emit_thread_info_json:
  assumes "wf_report_thread b sy ti"
  shows "emit_thread_info b sy ti state = state @ show_json SQ (thread_json b sy ti)"
proof -
  let ?stack = "stack_json b sy (ti_backtrace_state ti)"
  have wf: "wf_thread ti" "list_all wf_frame (callstack_frames b sy (ti_backtrace_state ti))"
    using assms by (simp_all add: wf_report_thread_def)
  note str = wf_thread_strings [OF wf(1)]
  have "NUL \<notin> set (show_json SQ ?stack)"
    by (rule show_json_no_NUL [OF clean_stack_json [OF wf(2)]])
  then have "emit_thread_info b sy ti state =
      EMIT_E b state None [Some (show_members SQ (thread_members b sy ti)), None]"
    using str by (simp add: emit_thread_info_def thread_members_def show_members_Cons
        emit_callstack_json [OF wf(2)] emit_field_simps stack_json_def del: show_json.simps(4))
  then show ?thesis
    using clean_thread_json [OF assms] by (simp add: EMIT_E_members thread_json_def del: show_json.simps clean_json.simps)
qed

interpretation threads: sep_emitter "\<lambda>ti. emit_thread_info b sy ti []" "wf_report_thread b sy" for b sy
  by unfold_locales (simp add: emit_thread_info_json show_json_no_NUL clean_thread_json)

definition threads_json :: "build \<Rightarrow> symbols \<Rightarrow> threadinfo list \<Rightarrow> json" where
  "threads_json b sy ts = JArr (map (thread_json b sy) ts)"

lemma clean_threads_json: "list_all (wf_report_thread b sy) ts \<Longrightarrow> clean_json (threads_json b sy ts)"
  by (simp add: threads_json_def list_all_iff clean_thread_json)

lemma emit_thread_state_json:
  assumes "list_all (wf_report_thread b sy) (bt_threads bt)"
  shows "emit_thread_state b sy bt state = state @ show_member SQ (''threads'', threads_json b sy (bt_threads bt))"
proof -
  let ?ts = "bt_threads bt"
  have items: "map (\<lambda>ti. emit_thread_info b sy ti []) ?ts = map (show_json SQ) (map (thread_json b sy) ?ts)"
    using assms by (simp add: emit_thread_info_json list_all_iff)
  have nth: "map ((!) ?ts) [0..<length ?ts] = ?ts"
    by (rule map_nth)
  have "(let acc = fold (\<lambda>i threads. EMIT_C threads
            [Some (emit_thread_info b sy (?ts ! i) []), Some '','', None]) [0..<length ?ts] []
         in if acc \<noteq> [] then butlast acc else acc) =
      join '','' (map (show_json SQ) (map (thread_json b sy) ?ts))"
    unfolding Let_def items [symmetric]
    by (rule threads.loop_join [OF assms], subst nth [symmetric], simp add: fold_map comp_def)
  moreover have "clean_json (JArr (map (thread_json b sy) ?ts))"
    using clean_threads_json [OF assms] by (simp add: threads_json_def)
  ultimately show ?thesis
    by (simp add: emit_thread_state_def EMIT_A_named threads_json_def clean_simps clean_char_def
        Let_def del: clean_json.simps map_map)
qed

section \<open>The report\<close>

definition report_members ::
  "build \<Rightarrow> filesystem \<Rightarrow> symbols \<Rightarrow> native_context \<Rightarrow> backtrace \<Rightarrow> mcontext \<Rightarrow> siginfo \<Rightarrow> (string \<times> json) list" where
  "report_members b fs sy nc bt mc si =
     context_members b fs nc bt @
     [(''registers'', JObj (registers_members b mc)),
      (''exception'', JObj (exception_members b si)),
      (''threads'', threads_json b sy (bt_threads bt))]"

definition report_json ::
  "build \<Rightarrow> filesystem \<Rightarrow> symbols \<Rightarrow> native_context \<Rightarrow> backtrace \<Rightarrow> mcontext \<Rightarrow> siginfo \<Rightarrow> json" where
  "report_json b fs sy nc bt mc si = JObj [(''backtrace'', JObj (report_members b fs sy nc bt mc si))]"

definition wf_report :: "build \<Rightarrow> filesystem \<Rightarrow> symbols \<Rightarrow> native_context \<Rightarrow> backtrace \<Rightarrow> bool" where
  "wf_report b fs sy nc bt \<longleftrightarrow> wf_context b fs nc bt \<and> list_all (wf_report_thread b sy) (bt_threads bt)"

lemma clean_report_json:
  assumes "wf_report b fs sy nc bt"
  shows "clean_json (report_json b fs sy nc bt mc si)"
  using assms clean_context_json [of b fs nc bt] clean_registers_json [of b mc]
    clean_exception_json [of b si] clean_threads_json [of b sy "bt_threads bt"]
  by (simp add: wf_report_def report_json_def report_members_def clean_simps clean_char_def)

lemma emit_backtrace_text:
  assumes "wf_report b fs sy nc bt" "bs_sa_ucontext (bt_state bt) = Some mc" "bs_siginfo (bt_state bt) = Some si"
  shows "emit_backtrace b fs sy nc bt = show_json DQ (report_json b fs sy nc bt mc si)"
proof -
  note clean = clean_report_json [OF assms(1), of mc si]
  have ctx: "wf_context b fs nc bt" and thr: "list_all (wf_report_thread b sy) (bt_threads bt)"
    using assms(1) by (simp_all add: wf_report_def)
  have NUL: "NUL \<notin> set (show_members SQ (context_members b fs nc bt))"
    "NUL \<notin> set (show_member SQ (''registers'', JObj (registers_members b mc)))"
    "NUL \<notin> set (show_member SQ (''exception'', JObj (exception_members b si)))"
    "NUL \<notin> set (show_member SQ (''threads'', threads_json b sy (bt_threads bt)))"
    using show_members_no_NUL [OF clean_context_json [OF ctx]] show_json_no_NUL [OF clean_registers_json]
      show_json_no_NUL [OF clean_exception_json] show_json_no_NUL [OF clean_threads_json [OF thr]]
    by (simp_all add: show_member_def del: show_json.simps)
  have "emit_items (SQ # ''backtrace'' @ SQ # '':'' @ ''{'')
      [Some (show_members SQ (context_members b fs nc bt)),
       Some (show_member SQ (''registers'', JObj (registers_members b mc))),
       Some (show_member SQ (''exception'', JObj (exception_members b si))),
       Some (show_member SQ (''threads'', threads_json b sy (bt_threads bt))), None] =
      SQ # ''backtrace'' @ SQ # '':'' @ ''{'' @ show_members SQ (report_members b fs sy nc bt mc si)"
    using NUL by (simp add: c_str_id report_members_def show_members_append context_members_def show_members_Cons
        del: show_json.simps)
  then have "emit_backtrace b fs sy nc bt = map requote (show_json SQ (report_json b fs sy nc bt mc si))"
    by (simp add: emit_backtrace_def EMIT_E_def emit_name_eq assms emit_context_json [OF ctx]
        emit_registers_json emit_signal_context_json emit_thread_state_json [OF thr] report_json_def
        show_JObj show_members_Cons show_member_def clean_simps clean_char_def del: show_json.simps)
  then show ?thesis
    by (simp add: requote_show [OF clean])
qed

text \<open>
  C10. Under the conditions the code itself cannot establish (the strings that come from the
  system, the symbol table and the managed side need no escape), the report of a crash with a
  siginfo and a register context is well-formed JSON and reads back as the document of the
  emitter's fields: process context, registers, exception and threads. The register fields are the
  ones the emitter passes, its mistakes included (see \<open>registers_members\<close>).
\<close>

theorem report_parses:
  assumes "wf_report b fs sy nc bt" "bs_sa_ucontext (bt_state bt) = Some mc" "bs_siginfo (bt_state bt) = Some si"
  shows "parse_json (emit_backtrace b fs sy nc bt) = Some (report_json b fs sy nc bt mc si)"
  using emit_backtrace_text [OF assms] parse_json_show [OF clean_report_json [OF assms(1)]] by simp

text \<open>A small report for closed examples: one thread, no symbols.\<close>

definition sample_backtrace :: backtrace where
  "sample_backtrace = zero_backtrace
     \<lparr>bt_state := zero_backtrace_state\<lparr>bs_sa_ucontext := Some zero_mcontext,
        bs_siginfo := Some \<lparr>si_signo = 11, si_code = 1, si_addr = 0\<rparr>\<rparr>,
      bt_description := ''Address not mapped to object'', bt_arch := ''arm64-v8a'', bt_pid := 7,
      bt_threads := [zero_threadinfo\<lparr>ti_tid := 7, ti_thread_name := ''main''\<rparr>]\<rparr>"

definition sample_files :: filesystem where
  "sample_files = \<lparr>fs_read = (\<lambda>_. None), fs_dir = (\<lambda>_. None)\<rparr>"

definition no_symbols :: symbols where
  "no_symbols = \<lparr>s_dladdr = (\<lambda>_. None), s_demangle = (\<lambda>_. None)\<rparr>"

lemma sample_context: "wf_context b sample_files zero_native_context sample_backtrace"
  by (simp add: wf_context_def get_process_name_def first_line_def sample_files_def sample_backtrace_def
      zero_native_context_def clean_simps clean_char_def)

lemma sample_report: "wf_report b sample_files no_symbols zero_native_context sample_backtrace"
  using sample_context
  by (simp add: wf_report_def sample_backtrace_def wf_report_thread_def wf_thread_def callstack_frames_def
      zero_threadinfo_def name_char_def isdigit_def isalpha_def)

theorem report_parses_witness:
  "parse_json (emit_backtrace arm64_build sample_files no_symbols zero_native_context sample_backtrace) =
    Some (report_json arm64_build sample_files no_symbols zero_native_context sample_backtrace zero_mcontext
      \<lparr>si_signo = 11, si_code = 1, si_addr = 0\<rparr>)"
  by (rule report_parses [OF sample_report]) (simp_all add: sample_backtrace_def)

end
