(* ===== verification/Backtrace_Collect.thy ===== *)
theory Backtrace_Collect
  imports Emitter_Spec
begin

text \<open>
  \<open>collect_backtrace\<close> of \<open>backtrace.cpp\<close>: unwind, collect, emit, and copy the report into the
  caller's buffer. The lemmas bound the size of a report from the sizes of its parts, which
  decides that the one-megabyte buffer of the handlers always holds the whole report.
\<close>

section \<open>Collection\<close>

text \<open>Everything outside the agent a report is collected from.\<close>

record world =
  w_fs :: filesystem
  w_symbols :: symbols
  w_process :: process
  w_native :: native_context
  w_contexts :: "uptr list"

definition fill_backtrace ::
  "build \<Rightarrow> world \<Rightarrow> siginfo \<Rightarrow> mcontext option \<Rightarrow> backtrace" where
  "fill_backtrace b w si uc =
     (let bt = zero_backtrace;
          bt = bt\<lparr>bt_state := (bt_state bt)\<lparr>bs_sa_ucontext := uc, bs_siginfo := Some si\<rparr>\<rparr>;
          bt = bt\<lparr>bt_state := snd (unwind_backtrace b (w_contexts w) (bt_state bt))\<rparr>;
          bt = bt\<lparr>bt_arch := strncpy_array 16 (get_arch b)\<rparr>;
          bt = bt\<lparr>bt_description := strncpy_array 128
                    (get_signal_description (sint (si_signo si)) (sint (si_code si)))\<rparr>;
          bt = bt\<lparr>bt_timestamp := p_time (w_process w), bt_uid := p_uid (w_process w),
                  bt_pid := p_pid (w_process w), bt_ppid := p_ppid (w_process w), bt_threads := []\<rparr>
      in collect_thread_state b (w_fs w) (w_process w) bt)"

text \<open>
  The result is the returned flag and the C string left in the buffer. \<open>None\<close> is the
  dereference of a null \<open>siginfo\<close>: the process faults and nothing is returned. \<open>max_size - 2\<close>
  is \<open>size_t\<close> arithmetic.
\<close>

definition collect_backtrace ::
  "build \<Rightarrow> world \<Rightarrow> nat \<Rightarrow> siginfo option \<Rightarrow> mcontext option \<Rightarrow> (bool \<times> string) option" where
  "collect_backtrace b w max_size siginfo uc =
     (case siginfo of
        None \<Rightarrow> None
      | Some si \<Rightarrow>
          (let bt = fill_backtrace b w si uc;
               emitted = c_str (emit_backtrace b (w_fs w) (w_symbols w) (w_native w) bt);
               str_size = length emitted;
               copy_size = min str_size ((max_size + 2 ^ abi_bits b - 2) mod 2 ^ abi_bits b)
           in Some (copy_size = str_size, take copy_size emitted)))"

section \<open>The collected record\<close>

lemma unwind_keeps [simp]:
  "bs_sa_ucontext (snd (unwind_backtrace b cs st)) = bs_sa_ucontext st"
  "bs_siginfo (snd (unwind_backtrace b cs st)) = bs_siginfo st"
proof -
  have rec: "bs_sa_ucontext (snd (record_frame b ip s)) = bs_sa_ucontext s \<and>
      bs_siginfo (snd (record_frame b ip s)) = bs_siginfo s" for ip s
    by (simp add: record_frame_def Let_def)
  have cb: "bs_sa_ucontext (snd (unwinder_cb b ip s)) = bs_sa_ucontext s \<and>
      bs_siginfo (snd (unwinder_cb b ip s)) = bs_siginfo s" for ip s
    using rec [of ip "s\<lparr>bs_skipped_frames := int (bs_frame_cnt s), bs_frame_cnt := 0\<rparr>"] rec [of "adjust_ip b ip" s]
    by (cases "ip = bs_crash_ip s") (auto simp: unwinder_cb_def Let_def split: prod.splits)
  have "bs_sa_ucontext (Unwind_Backtrace (unwinder_cb b) cs s) = bs_sa_ucontext s \<and>
      bs_siginfo (Unwind_Backtrace (unwinder_cb b) cs s) = bs_siginfo s" for s
  proof (induction cs arbitrary: s)
    case (Cons c cs)
    then show ?case using cb [of c s] by (auto split: prod.splits unwind_reason.splits)
  qed simp
  then show "bs_sa_ucontext (snd (unwind_backtrace b cs st)) = bs_sa_ucontext st"
    "bs_siginfo (snd (unwind_backtrace b cs st)) = bs_siginfo st"
    by (simp_all add: unwind_backtrace_def split: option.splits)
qed

lemma unwind_wf:
  assumes "length (bs_frames st) = BACKTRACE_FRAMES_MAX" "bs_frame_cnt st = 0"
  shows "bs_frame_cnt (snd (unwind_backtrace b cs st)) \<le> BACKTRACE_FRAMES_MAX"
proof (cases "bs_sa_ucontext st")
  case None
  then show ?thesis using assms by (simp add: unwind_backtrace_def)
next
  case (Some mc)
  then show ?thesis using unwind_backtrace_spec [OF Some assms(1), of b cs] by (simp add: wf_bstate_def)
qed

definition unwound_state :: "build \<Rightarrow> world \<Rightarrow> siginfo \<Rightarrow> mcontext option \<Rightarrow> backtrace_state" where
  "unwound_state b w si uc =
     snd (unwind_backtrace b (w_contexts w) (zero_backtrace_state\<lparr>bs_sa_ucontext := uc, bs_siginfo := Some si\<rparr>))"

definition thread_entries :: "build \<Rightarrow> world \<Rightarrow> string list" where
  "thread_entries b w =
     (case fs_dir (w_fs w) (get_task_path b (p_pid (w_process w))) of
        None \<Rightarrow> []
      | Some names \<Rightarrow> take BACKTRACE_THREADS_MAX (filter numeric_entry names))"

lemma description_fits:
  "strncpy_array 128 (get_signal_description signo code) = get_signal_description signo code"
  using description_facts [of signo code] by (intro strncpy_array_id) (simp_all add: clean_not)

lemma arch_fits: "strncpy_array 16 (get_arch b) = get_arch b"
  by (cases "b_abi b"; cases "b_neon b") (simp_all add: get_arch_def strncpy_array_def c_str_def)

lemma fill_backtrace_eq:
  "fill_backtrace b w si uc =
    \<lparr>bt_state = unwound_state b w si uc,
     bt_description = get_signal_description (sint (si_signo si)) (sint (si_code si)),
     bt_timestamp = p_time (w_process w),
     bt_arch = get_arch b,
     bt_pid = p_pid (w_process w), bt_ppid = p_ppid (w_process w), bt_uid = p_uid (w_process w),
     bt_threads = map (\<lambda>n. thread_of_entry b (w_fs w) (w_process w) (unwound_state b w si uc) (entry_tid b n))
        (thread_entries b w)\<rparr>"
  by (simp add: fill_backtrace_def Let_def collect_thread_state_def collect_entries_eq zero_backtrace_def
      unwound_state_def thread_entries_def description_fits arch_fits split: option.splits)

lemma unwound_state_facts:
  "bs_sa_ucontext (unwound_state b w si uc) = uc"
  "bs_siginfo (unwound_state b w si uc) = Some si"
  "bs_frame_cnt (unwound_state b w si uc) \<le> BACKTRACE_FRAMES_MAX"
  by (simp_all add: unwound_state_def unwind_wf zero_backtrace_state_def)

section \<open>When a report is well formed\<close>

text \<open>The strings of the symbol table need no escape, names demangled or not.\<close>

definition clean_symbols :: "symbols \<Rightarrow> bool" where
  "clean_symbols sy \<longleftrightarrow> (\<forall>a info. s_dladdr sy a = Some info \<longrightarrow>
     (\<forall>f. dli_fname info = Some f \<longrightarrow> clean f) \<and>
     (\<forall>s. dli_sname info = Some s \<longrightarrow> clean (symbol_name sy s)))"

text \<open>
  The paths of the libraries, as the frames store them, have at most 1023 characters. With a
  \<open>PATH_MAX\<close> of 1024, the fallback of backtrace.h, every path is short after the copy; with
  Android's 4096 it is a condition, and \<open>long_path_breaks_frame\<close> shows what a longer one does.
\<close>

definition short_paths :: "build \<Rightarrow> symbols \<Rightarrow> bool" where
  "short_paths b sy \<longleftrightarrow> (\<forall>a info f. s_dladdr sy a = Some info \<longrightarrow> dli_fname info = Some f \<longrightarrow>
     length (strncpy_array (b_path_max b) f) \<le> 1023)"

lemma short_paths_fallback: "b_path_max b \<le> 1024 \<Longrightarrow> short_paths b sy"
proof -
  assume "b_path_max b \<le> 1024"
  then have "length (strncpy_array (b_path_max b) f) \<le> 1023" for f
    using length_strncpy_array [of "b_path_max b" f] by simp
  then show ?thesis by (simp add: short_paths_def)
qed

text \<open>The conditions on the process, the managed side's identifiers and the symbols.\<close>

definition clean_world :: "build \<Rightarrow> world \<Rightarrow> bool" where
  "clean_world b w \<longleftrightarrow>
     clean_symbols (w_symbols w) \<and> short_paths b (w_symbols w) \<and>
     clean (get_process_name b (w_fs w) (p_pid (w_process w))) \<and>
     clean (nc_buildId (w_native w)) \<and> clean (nc_sessionId (w_native w)) \<and>
     length (nc_buildId (w_native w)) \<le> 39 \<and> length (nc_sessionId (w_native w)) \<le> 39"

lemma clean_strncpy: "clean s \<Longrightarrow> clean (strncpy_array n s)"
  by (rule clean_subset [OF set_strncpy_array])

lemma wf_resolved_frame:
  assumes "clean_symbols sy" "short_paths b sy"
  shows "wf_frame (resolve_frame b sy i a)"
proof -
  have "clean (sf_so_path (resolve_frame b sy i a)) \<and> clean (sf_sym_name (resolve_frame b sy i a))"
    using assms(1)
    by (auto simp: clean_symbols_def resolve_frame_def transform_addr_to_stackframe_def zero_stackframe_def
        Let_def clean_simps intro: clean_strncpy split: option.splits)
  moreover have "length (sf_so_path (resolve_frame b sy i a)) \<le> 1023"
    using assms(2)
    by (auto simp: short_paths_def resolve_frame_def transform_addr_to_stackframe_def zero_stackframe_def
        Let_def split: option.splits)
  ultimately show ?thesis
    using resolve_frame_strings(2) by (simp add: wf_frame_def)
qed

lemma wf_collected_report:
  assumes "clean_world b w"
  shows "wf_report b (w_fs w) (w_symbols w) (w_native w) (fill_backtrace b w si uc)"
proof -
  have "clean (get_arch b)" "length (get_arch b) \<le> 15"
    by (cases "b_abi b"; simp add: get_arch_def clean_simps clean_char_def)+
  moreover have "wf_report_thread b (w_symbols w) (thread_of_entry b (w_fs w) (w_process w) st tid)" for st tid
    using assms wf_thread_of_entry
    by (auto simp: wf_report_thread_def clean_world_def callstack_frames_def list_all_iff
        wf_resolved_frame split: option.splits)
  moreover note description_facts [of "sint (si_signo si)" "sint (si_code si)"]
  ultimately show ?thesis
    using assms by (simp add: wf_report_def wf_context_def clean_world_def fill_backtrace_eq list_all_iff)
qed

section \<open>How long a report can get\<close>

lemma length_show_member:
  "length (show_member q (k, v)) = length k + length (show_json q v) + 3"
  by (simp add: show_member_def)

lemma length_show_members:
  "length (show_members q ms) \<le> sum_list (map (\<lambda>m. Suc (length (show_member q m))) ms)"
  by (induction ms) (simp_all add: show_members_Cons, simp add: show_members_def)

lemma length_show_JObj: "length (show_json q (JObj ms)) = length (show_members q ms) + 2"
  by (simp add: show_JObj del: show_json.simps)

lemma length_show_JArr:
  "length (show_json q (JArr js)) \<le> sum_list (map (\<lambda>j. Suc (length (show_json q j))) js) + 2"
proof -
  have "length (join '','' xs) \<le> sum_list (map (\<lambda>x. Suc (length x)) xs)" for xs
    by (induction xs) (auto simp: join_Cons)
  from this [of "map (show_json q) js"] show ?thesis by (simp add: comp_def)
qed

lemma length_show_word: "length (show_json q (word_json b r)) \<le> 20"
  using length_radix_unsigned [of "abi_bits b" r] by (simp add: word_json_def)

lemma length_show_sint: "length (show_int (sint (i :: cint))) \<le> 20"
  using length_show_signed [of 32 "ucast i"] by simp

lemma length_frame_json:
  assumes "wf_frame sf"
  shows "length (show_json q (frame_json b sf)) \<le> 3100"
proof -
  have "length (show_members q (frame_members b sf)) \<le> 3000"
    using assms length_frame_text [OF assms, of b] length_show_word [of q b "sf_address sf"]
      length_show_word [of q b "sf_pc sf"] length_show_word [of q b "sf_so_base sf"]
      length_show_word [of q b "sf_sym_addr sf"] length_show_word [of q b "sf_sym_addr_offset sf"]
      length_show_signed [of 32 "sf_index sf"]
    by (simp add: frame_members_def show_members_Cons length_show_member wf_frame_def show_members_def)
  then show ?thesis by (simp add: frame_json_def length_show_JObj del: show_json.simps)
qed

lemma length_stack_json:
  assumes "list_all wf_frame (callstack_frames b sy bs)"
  shows "length (show_json q (stack_json b sy bs)) \<le> 3101 * length (callstack_frames b sy bs) + 2"
proof -
  have "sum_list (map (\<lambda>sf. Suc (length (show_json q (frame_json b sf)))) (callstack_frames b sy bs))
      \<le> 3101 * length (callstack_frames b sy bs)"
    using assms by (intro sum_list_const_bound) (auto simp: list_all_iff length_frame_json le_SucI)
  then show ?thesis
    using length_show_JArr [of q "map (frame_json b) (callstack_frames b sy bs)"]
    by (simp add: stack_json_def comp_def del: show_json.simps)
qed

lemma length_thread_json:
  assumes "wf_report_thread b sy ti"
  shows "length (show_json q (thread_json b sy ti)) \<le>
    200 + 3101 * length (callstack_frames b sy (ti_backtrace_state ti))"
proof -
  have wf: "wf_thread ti" "list_all wf_frame (callstack_frames b sy (ti_backtrace_state ti))"
    using assms by (simp_all add: wf_report_thread_def)
  show ?thesis
    using wf_thread_strings [OF wf(1)] length_stack_json [OF wf(2), of q]
      length_show_sint [of "ti_tid ti"] length_show_sint [of "ti_priority ti"]
    by (simp add: thread_json_def thread_members_def length_show_JObj show_members_Cons length_show_member
        stack_json_def del: show_json.simps(4,5))
qed

text \<open>Threads of a collected report: a hundred at most, the crashed one with its stack.\<close>

lemma length_callstack:
  "length (callstack_frames b sy (ti_backtrace_state (thread_of_entry b fs p st tid))) \<le>
    (if tid = p_tid p then bs_frame_cnt st else 0)"
  by (simp add: callstack_frames_def)

lemma sum_list_one:
  assumes "distinct xs"
  shows "sum_list (map (\<lambda>x. if x = y then n else 0) xs) \<le> (n :: nat)"
  using assms by (induction xs) (auto simp: sum_list_eq_0_iff)

definition distinct_tids :: "build \<Rightarrow> world \<Rightarrow> bool" where
  "distinct_tids b w \<longleftrightarrow> distinct (map (entry_tid b) (thread_entries b w))"

lemma length_threads_json:
  assumes "clean_world b w" "distinct_tids b w"
  shows "length (show_json q (threads_json b (w_symbols w) (bt_threads (fill_backtrace b w si uc)))) \<le> 331000"
proof -
  let ?st = "unwound_state b w si uc"
  let ?th = "\<lambda>tid. thread_of_entry b (w_fs w) (w_process w) ?st tid"
  let ?tids = "map (entry_tid b) (thread_entries b w)"
  have wf: "wf_report_thread b (w_symbols w) (?th tid)" if "tid \<in> set ?tids" for tid
    using wf_collected_report [OF assms(1), of si uc] that
    by (auto simp: wf_report_def fill_backtrace_eq list_all_iff)
  have "Suc (length (show_json q (thread_json b (w_symbols w) (?th tid)))) \<le>
      201 + (if tid = p_tid (w_process w) then 310100 else 0)" if "tid \<in> set ?tids" for tid
    using length_thread_json [OF wf [OF that], of q] unwound_state_facts(3) [of b w si uc]
      length_callstack [of b "w_symbols w" "w_fs w" "w_process w" ?st tid]
    by (auto simp: BACKTRACE_FRAMES_MAX_def split: if_splits)
  then have "sum_list (map (\<lambda>tid. Suc (length (show_json q (thread_json b (w_symbols w) (?th tid))))) ?tids) \<le>
      sum_list (map (\<lambda>tid. 201 + (if tid = p_tid (w_process w) then 310100 else 0)) ?tids)"
    by (rule sum_list_mono)
  also have "\<dots> = 201 * length ?tids + sum_list (map (\<lambda>tid. if tid = p_tid (w_process w) then 310100 else 0) ?tids)"
    by (simp add: sum_list_addf sum_list_triv del: map_map)
  also have "\<dots> \<le> 201 * 100 + 310100"
    using sum_list_one [of ?tids "p_tid (w_process w)" 310100] assms(2)
    by (intro add_le_mono mult_le_mono) (auto simp: distinct_tids_def thread_entries_def BACKTRACE_THREADS_MAX_def split: option.splits)
  finally show ?thesis
    using length_show_JArr [of q "map (thread_json b (w_symbols w)) (bt_threads (fill_backtrace b w si uc))"]
    by (simp add: threads_json_def fill_backtrace_eq comp_def del: show_json.simps)
qed

lemma length_register_json:
  assumes "w \<le> 16" "0 < n" "n \<le> 64"
  shows "length (show_json q (hex_json w n r)) \<le> 30" "length (show_json q (dec_json w n r)) \<le> 30"
    "length (show_json q (sdec_json w n r)) \<le> 30" "length (show_json q (ptr_json z w n r)) \<le> 30"
  using assms length_radix16_unsigned [of n r] length_radix_unsigned [of n r] length_show_signed [of n r]
  by (auto simp: register_json_defs length_pad_field show_int_def split: if_splits)

lemma length_reg_key: "length (reg_key p i) \<le> length p + 20"
  using length_show_signed [of 32 "word_of_nat i"] by (simp add: reg_key_def)

lemma length_registers_member:
  assumes "m \<in> set (registers_members b mc)"
  shows "length (show_member q m) \<le> 60"
proof -
  have n: "length (show_int (signed_arg 32 r)) \<le> 30" for r
    using length_show_signed [of 32 r] by simp
  have k: "length (reg_key ''r'' i) \<le> 22" "length (reg_key ''x'' i) \<le> 22" for i
    using length_reg_key [of "''r''" i] length_reg_key [of "''x''" i] by simp_all
  have "length (fst m) \<le> 22 \<and> length (show_json q (snd m)) \<le> 30"
    using assms
    by (cases "b_abi b") (auto simp: registers_members_def length_register_json n k Let_def simp del: upt_Suc upt_rec_numeral)
  then show ?thesis by (cases m) (simp add: length_show_member)
qed

lemma length_registers_json:
  assumes "b_ngreg b \<le> 64"
  shows "length (show_json q (JObj (registers_members b mc))) \<le> 4300"
proof -
  have "sum_list (map (\<lambda>m. Suc (length (show_member q m))) (registers_members b mc)) \<le>
      61 * length (registers_members b mc)"
    using length_registers_member by (intro sum_list_const_bound) auto
  moreover have "length (registers_members b mc) \<le> 70"
    using assms by (cases "b_abi b") (simp_all add: registers_members_def Let_def)
  ultimately show ?thesis
    using length_show_members [of q "registers_members b mc"] by (simp add: length_show_JObj del: show_json.simps)
qed

lemma length_exception_json: "length (show_json q (JObj (exception_members b si))) \<le> 300"
  using description_facts(2) [of "sint (si_signo si)" "sint (si_code si)"]
    description_facts(2) [of "sint (si_signo si)" "- 1"] length_show_sint [of "si_code si"]
    length_show_word [of q b "si_addr si"]
  by (simp add: exception_members_def signal_info_members_def length_show_JObj show_members_Cons
      length_show_member word_json_def del: show_json.simps(5))

lemma length_context_members:
  assumes "wf_context b fs nc bt"
  shows "length (show_members q (context_members b fs nc bt)) \<le> 1700"
  using assms length_get_process_name [of b fs "bt_pid bt"] length_show_sint [of "bt_pid bt"]
    length_show_sint [of "bt_ppid bt"] length_show_sint [of "bt_uid bt"]
    length_show_signed [of "abi_bits b" "bt_timestamp bt"]
  by (simp add: wf_context_def context_members_def show_members_Cons length_show_member)

lemma length_report:
  assumes "clean_world b w" "distinct_tids b w" "b_ngreg b \<le> 64"
  shows "length (show_json q (report_json b (w_fs w) (w_symbols w) (w_native w) (fill_backtrace b w si uc) mc si))
    \<le> 340000"
proof -
  have "wf_context b (w_fs w) (w_native w) (fill_backtrace b w si uc)"
    using wf_collected_report [OF assms(1)] by (simp add: wf_report_def)
  then show ?thesis
    using length_context_members [of b "w_fs w" "w_native w" "fill_backtrace b w si uc" q]
      length_registers_json [OF assms(3), of q mc] length_exception_json [of q b si]
      length_threads_json [OF assms(1,2), of q si uc]
    by (simp add: report_json_def report_members_def length_show_JObj show_members_append context_members_def
        show_members_Cons length_show_member del: show_json.simps)
qed

lemma collect_backtrace_text:
  assumes "clean_world b w" "distinct_tids b w" "b_ngreg b \<le> 64"
  shows "collect_backtrace b w BACKTRACE_SZ_MAX (Some si) (Some mc) =
    Some (True, show_json DQ (report_json b (w_fs w) (w_symbols w) (w_native w)
      (fill_backtrace b w si (Some mc)) mc si))"
proof -
  let ?bt = "fill_backtrace b w si (Some mc)"
  let ?text = "show_json DQ (report_json b (w_fs w) (w_symbols w) (w_native w) ?bt mc si)"
  note wf = wf_collected_report [OF assms(1), of si "Some mc"]
  have emitted: "emit_backtrace b (w_fs w) (w_symbols w) (w_native w) ?bt = ?text"
    by (rule emit_backtrace_text [OF wf]) (simp_all add: fill_backtrace_eq unwound_state_facts)
  have "NUL \<notin> set (show_json SQ (report_json b (w_fs w) (w_symbols w) (w_native w) ?bt mc si))"
    by (rule show_json_no_NUL [OF clean_report_json [OF wf]])
  then have "NUL \<notin> set ?text"
    using requote_NUL [of "show_json SQ (report_json b (w_fs w) (w_symbols w) (w_native w) ?bt mc si)"]
      requote_show [OF clean_report_json [OF wf, of mc si]] by simp
  then have "c_str ?text = ?text" by (rule c_str_id)
  moreover have "length ?text \<le> 340000"
    by (rule length_report [OF assms])
  moreover have "340000 \<le> (BACKTRACE_SZ_MAX + 2 ^ abi_bits b - 2) mod 2 ^ abi_bits b"
    by (cases "b_abi b") (simp_all add: BACKTRACE_SZ_MAX_def abi_bits_def)
  ultimately show ?thesis
    by (simp add: collect_backtrace_def emitted)
qed

text \<open>The document of a collected report can be stored by every handler: it has no terminator
  inside and fits any file with the room.\<close>

lemma report_text:
  assumes "clean_world b w" "distinct_tids b w" "b_ngreg b \<le> 64"
  defines "report \<equiv> \<lambda>si mc. report_json b (w_fs w) (w_symbols w) (w_native w) (fill_backtrace b w si (Some mc)) mc si"
  shows "collect_backtrace b w BACKTRACE_SZ_MAX (Some si) (Some mc) = Some (True, show_json DQ (report si mc))"
    and "NUL \<notin> set (show_json DQ (report si mc))"
    and "length (show_json DQ (report si mc)) \<le> 340000"
    and "parse_json (show_json DQ (report si mc)) = Some (report si mc)"
proof -
  note clean = clean_report_json [OF wf_collected_report [OF assms(1), of si "Some mc"], of mc si]
  show "NUL \<notin> set (show_json DQ (report si mc))"
    using show_json_no_NUL [OF clean] requote_show [OF clean] requote_NUL unfolding report_def by metis
  show "parse_json (show_json DQ (report si mc)) = Some (report si mc)"
    unfolding report_def by (rule parse_json_show [OF clean])
qed (simp_all add: report_def collect_backtrace_text [OF assms(1-3)] length_report [OF assms(1-3)])

section \<open>Properties\<close>

text \<open>
  C9. A crash report of a clean process is complete. With the handlers' one-megabyte buffer and a
  signal that brings its siginfo and its register context, for a process whose name, symbols,
  library paths and identifiers need no escape (no quote, backslash or control character), whose
  library paths have at most 1023 characters, whose identifiers fit their arrays, whose tasks have
  distinct ids, and on a platform of at most 64 numbered registers: \<open>collect_backtrace\<close> returns true
  and the buffer holds a JSON document that reads back as the collected state, of at most 340000
  bytes; nothing is truncated. A quoted symbol or a longer path makes the report no JSON
  (\<open>quoted_symbol_breaks_frame\<close>, \<open>long_path_breaks_frame\<close>), a missing register context drops most of
  it (\<open>report_without_ucontext\<close>).
\<close>

theorem crash_report_complete:
  assumes "clean_world b w" "distinct_tids b w" "b_ngreg b \<le> 64"
  shows "case collect_backtrace b w BACKTRACE_SZ_MAX (Some si) (Some mc) of
      None \<Rightarrow> False
    | Some (ok, text) \<Rightarrow> ok \<and> length text \<le> 340000 \<and>
        parse_json text = Some (report_json b (w_fs w) (w_symbols w) (w_native w)
          (fill_backtrace b w si (Some mc)) mc si)"
  using length_report [OF assms] wf_collected_report [OF assms(1)]
  by (simp add: collect_backtrace_text [OF assms] parse_json_show clean_report_json)

definition sample_world :: world where
  "sample_world =
     \<lparr>w_fs = \<lparr>fs_read = (\<lambda>_. None), fs_dir = (\<lambda>_. Some [''.'', ''7'', ''8''])\<rparr>,
      w_symbols = \<lparr>s_dladdr = (\<lambda>_. None), s_demangle = (\<lambda>_. None)\<rparr>,
      w_process = \<lparr>p_pid = 7, p_ppid = 1, p_uid = 10, p_tid = 8, p_time = 1000\<rparr>,
      w_native = zero_native_context\<lparr>nc_buildId := ''b1'', nc_sessionId := ''s1''\<rparr>,
      w_contexts = [0x1000, 0x2004, 0x3008]\<rparr>"

lemma sample_world_facts:
  "clean_world arm64_build sample_world" "distinct_tids arm64_build sample_world"
  "thread_entries arm64_build sample_world = [''7'', ''8'']"
proof -
  show entries: "thread_entries arm64_build sample_world = [''7'', ''8'']"
    by (simp add: sample_world_def thread_entries_def numeric_entry_def isdigit_def BACKTRACE_THREADS_MAX_def)
  show "clean_world arm64_build sample_world"
    by (simp add: sample_world_def clean_world_def clean_symbols_def short_paths_def get_process_name_def first_line_def
        zero_native_context_def clean_simps clean_char_def)
  show "distinct_tids arm64_build sample_world"
    by (simp add: distinct_tids_def entries entry_tid_def strtol_def signed_prefix_def digit_val_def
        isdigit_def isspace_def)
qed

theorem crash_report_complete_witness:
  "case collect_backtrace arm64_build sample_world BACKTRACE_SZ_MAX
      (Some \<lparr>si_signo = 11, si_code = 1, si_addr = 0\<rparr>) (Some zero_mcontext) of
      None \<Rightarrow> False
    | Some (ok, text) \<Rightarrow> ok \<and> length text \<le> 340000 \<and> parse_json text \<noteq> None"
  using crash_report_complete [of arm64_build sample_world "\<lparr>si_signo = 11, si_code = 1, si_addr = 0\<rparr>" zero_mcontext]
    sample_world_facts
  by (auto simp: arm64_build_def split: option.splits)

text \<open>
  C21. The copy into the caller's buffer, for every buffer size of at least two bytes: what is
  written, with its terminator, stays one byte below the buffer's end; it is a prefix of the
  emitted report; and the returned flag is true exactly when it is the whole report. With a
  null \<open>siginfo\<close> the function does not return.
\<close>

theorem collect_backtrace_bounds:
  assumes "2 \<le> max_size" "max_size < 2 ^ abi_bits b"
  shows "case siginfo of
      None \<Rightarrow> collect_backtrace b w max_size siginfo uc = None
    | Some si \<Rightarrow>
        (let report = c_str (emit_backtrace b (w_fs w) (w_symbols w) (w_native w) (fill_backtrace b w si uc))
         in \<exists>ok buf. collect_backtrace b w max_size siginfo uc = Some (ok, buf) \<and>
              length buf + 1 < max_size \<and> take (length buf) report = buf \<and> (ok \<longleftrightarrow> buf = report))"
proof (cases siginfo)
  case (Some si)
  have "(max_size + 2 ^ abi_bits b - 2) mod 2 ^ abi_bits b = (max_size - 2 + 2 ^ abi_bits b) mod 2 ^ abi_bits b"
    using assms by simp
  also have "\<dots> = max_size - 2"
    using assms by (simp del: add_diff_assoc2)
  finally have "(max_size + 2 ^ abi_bits b - 2) mod 2 ^ abi_bits b = max_size - 2" .
  then show ?thesis
    using assms by (auto simp: Some collect_backtrace_def Let_def min_def)
qed (simp add: collect_backtrace_def)

theorem collect_backtrace_bounds_witness:
  "\<exists>ok buf. collect_backtrace arm64_build sample_world 10
     (Some \<lparr>si_signo = 11, si_code = 1, si_addr = 0\<rparr>) None = Some (ok, buf) \<and> length buf + 1 < 10"
  using collect_backtrace_bounds [of 10 arm64_build sample_world "Some \<lparr>si_signo = 11, si_code = 1, si_addr = 0\<rparr>" None]
  by (auto simp: Let_def)

lemma sample_world_arm: "clean_world arm_build sample_world" "distinct_tids arm_build sample_world"
proof -
  have bits: "abi_bits arm_build = 32" by (simp add: arm_build_def abi_bits_def)
  have entries: "thread_entries arm_build sample_world = [''7'', ''8'']"
    by (simp add: sample_world_def thread_entries_def numeric_entry_def isdigit_def BACKTRACE_THREADS_MAX_def)
  show "clean_world arm_build sample_world"
    by (simp add: sample_world_def clean_world_def clean_symbols_def short_paths_def get_process_name_def first_line_def
        zero_native_context_def arm_build_def clean_simps clean_char_def)
  show "distinct_tids arm_build sample_world"
    by (simp add: distinct_tids_def entries entry_tid_def strtol_def signed_prefix_def digit_val_def
        isdigit_def isspace_def bits)
qed

end
