(* ===== verification/Serializer.thy ===== *)
theory Serializer
  imports Backtrace_Collect
begin

text \<open>
  \<open>serializer.cpp\<close>: a report is written to a file of its own, named by the report directory, a
  prefix for the kind of report and the local time to the millisecond. The disk is a map from
  paths to contents; whether a file can be opened, and how many bytes a write gets onto the
  disk, are the environment's.
\<close>

section \<open>State and operations\<close>

type_synonym files = "string \<rightharpoonup> string"

text \<open>\<open>std::localtime\<close> of the current time, and its milliseconds.\<close>

record wall_clock =
  tm_year :: nat
  tm_mon :: nat
  tm_mday :: nat
  tm_hour :: nat
  tm_min :: nat
  tm_sec :: nat
  tm_ms :: nat

record disk =
  d_open :: "string \<Rightarrow> bool"
  d_room :: "string \<Rightarrow> nat"

text \<open>A number with leading zeros to a width, as \<open>std::put_time\<close> and \<open>std::setw\<close> write it.\<close>

definition zero_fill :: "nat \<Rightarrow> nat \<Rightarrow> string" where
  "zero_fill w n = pad_field True w '''' (radix 10 n)"

text \<open>\<open>std::put_time(&wallTime, "%Y%m%d%H%M%S")\<close>.\<close>

definition put_time :: "wall_clock \<Rightarrow> string" where
  "put_time t = radix 10 (tm_year t) @ zero_fill 2 (tm_mon t) @ zero_fill 2 (tm_mday t) @
     zero_fill 2 (tm_hour t) @ zero_fill 2 (tm_min t) @ zero_fill 2 (tm_sec t)"

definition generateTmpFilename :: "native_context \<Rightarrow> wall_clock \<Rightarrow> string \<Rightarrow> string" where
  "generateTmpFilename nc t filePrefix =
     nc_reportPathAbsolute nc @ ''/'' @ filePrefix @ put_time t @ zero_fill 3 (tm_ms t)"

text \<open>
  The payload is the character buffer the caller passes; its string ends at the first NUL.
  Opening truncates the file. The results of \<open>write\<close>, \<open>flush\<close> and \<open>close\<close> are not looked at.
\<close>

definition to_storage ::
  "native_context \<Rightarrow> wall_clock \<Rightarrow> disk \<Rightarrow> string \<Rightarrow> string \<Rightarrow> nat \<Rightarrow> files \<Rightarrow> bool \<times> files" where
  "to_storage nc t d filepath payload payload_size fs =
     (let storagePath = c_str (generateTmpFilename nc t filepath);
          payload_len = length (c_str payload);
          payload_size = (if payload_size < payload_len then payload_size else payload_len)
      in if d_open d storagePath
         then (True, fs(storagePath \<mapsto> take (d_room d storagePath) (take payload_size payload)))
         else (False, fs))"

definition from_crash :: "native_context \<Rightarrow> wall_clock \<Rightarrow> disk \<Rightarrow> string \<Rightarrow> nat \<Rightarrow> files \<Rightarrow> files" where
  "from_crash nc t d buffer buffsz fs = snd (to_storage nc t d ''crash-'' buffer buffsz fs)"

definition from_exception :: "native_context \<Rightarrow> wall_clock \<Rightarrow> disk \<Rightarrow> string \<Rightarrow> nat \<Rightarrow> files \<Rightarrow> files" where
  "from_exception nc t d buffer buffsz fs = snd (to_storage nc t d ''ex-'' buffer buffsz fs)"

definition from_anr :: "native_context \<Rightarrow> wall_clock \<Rightarrow> disk \<Rightarrow> string \<Rightarrow> nat \<Rightarrow> files \<Rightarrow> files" where
  "from_anr nc t d buffer buffsz fs = snd (to_storage nc t d ''anr-'' buffer buffsz fs)"

section \<open>The store the handlers rely on\<close>

text \<open>
  What a signal, exception or ANR handler expects of the serializer: a saved payload is found
  under the report's path, cut at its string length, the given size and the room on the disk;
  nothing else changes.
\<close>

locale report_store =
  fixes save :: "string \<Rightarrow> nat \<Rightarrow> files \<Rightarrow> files"
    and path :: string
    and writable :: bool
    and room :: nat
  assumes save_at: "writable \<Longrightarrow> save payload n fs path = Some (take room (take n (c_str payload)))"
    and save_other: "p \<noteq> path \<Longrightarrow> save payload n fs p = fs p"
    and save_fails: "\<not> writable \<Longrightarrow> save payload n fs = fs"
begin

text \<open>The handlers' idiom: collect into a buffer, and save the buffer when it is complete.\<close>

definition report :: "nat \<Rightarrow> (bool \<times> string) option \<Rightarrow> files \<Rightarrow> files option" where
  "report n collected fs =
     (case collected of None \<Rightarrow> None | Some (ok, buf) \<Rightarrow> Some (if ok then save buf n fs else fs))"

lemma complete_report_saved:
  assumes "collected = Some (True, buf)" "NUL \<notin> set buf" "length buf \<le> n" "length buf \<le> room" writable
  shows "report n collected fs = Some (fs(path \<mapsto> buf))"
proof -
  have "save buf n fs p = (fs(path \<mapsto> buf)) p" for p
    using assms save_at save_other by (cases "p = path") (simp_all add: c_str_id)
  then show ?thesis by (simp add: report_def assms(1) fun_eq_iff)
qed

lemma incomplete_report_dropped:
  "collected = Some (False, buf) \<Longrightarrow> report n collected fs = Some fs"
  by (simp add: report_def)

lemma other_files_kept:
  assumes "report n collected fs = Some fs'" "p \<noteq> path"
  shows "fs' p = fs p"
  using assms save_other by (auto simp: report_def split: option.splits if_splits)

end

definition report_path :: "native_context \<Rightarrow> wall_clock \<Rightarrow> string \<Rightarrow> string" where
  "report_path nc t prefix = c_str (generateTmpFilename nc t prefix)"

lemma take_c_str:
  "take (if n < length (c_str s) then n else length (c_str s)) s = take n (c_str s)"
proof -
  have cut: "take (length (c_str s)) s = c_str s"
    by (metis c_str_def takeWhile_eq_take)
  have "take n (c_str s) = take n (take (length (c_str s)) s)"
    by (simp only: cut)
  also have "\<dots> = take (min n (length (c_str s))) s"
    by (rule take_take)
  finally show ?thesis by (auto simp: min_def)
qed

lemma to_storage_laws:
  "d_open d (report_path nc t prefix) \<Longrightarrow>
     snd (to_storage nc t d prefix payload n fs) (report_path nc t prefix) =
       Some (take (d_room d (report_path nc t prefix)) (take n (c_str payload)))"
  "p \<noteq> report_path nc t prefix \<Longrightarrow> snd (to_storage nc t d prefix payload n fs) p = fs p"
  "\<not> d_open d (report_path nc t prefix) \<Longrightarrow> snd (to_storage nc t d prefix payload n fs) = fs"
  by (simp_all add: to_storage_def report_path_def Let_def take_c_str)

interpretation crash_store: report_store "from_crash nc t d" "report_path nc t ''crash-''"
    "d_open d (report_path nc t ''crash-'')" "d_room d (report_path nc t ''crash-'')" for nc t d
  by unfold_locales (simp_all add: from_crash_def to_storage_laws)

interpretation exception_store: report_store "from_exception nc t d" "report_path nc t ''ex-''"
    "d_open d (report_path nc t ''ex-'')" "d_room d (report_path nc t ''ex-'')" for nc t d
  by unfold_locales (simp_all add: from_exception_def to_storage_laws)

interpretation anr_store: report_store "from_anr nc t d" "report_path nc t ''anr-''"
    "d_open d (report_path nc t ''anr-'')" "d_room d (report_path nc t ''anr-'')" for nc t d
  by unfold_locales (simp_all add: from_anr_def to_storage_laws)

section \<open>File names\<close>

text \<open>A time as \<open>std::localtime\<close> gives it: every field but the year has its two digits.\<close>

definition wf_clock :: "wall_clock \<Rightarrow> bool" where
  "wf_clock t \<longleftrightarrow> tm_mon t \<le> 99 \<and> tm_mday t \<le> 99 \<and> tm_hour t \<le> 99 \<and> tm_min t \<le> 99 \<and>
     tm_sec t \<le> 99 \<and> tm_ms t \<le> 999"

lemma digits_zero_fill: "digits_prefix 10 0 (zero_fill w n) = n"
proof -
  have "digits_prefix 10 0 (replicate k (CHR ''0'') @ ds) = digits_prefix 10 0 ds" for k ds
    by (induction k) (simp_all add: digit_val_def isdigit_def)
  then show ?thesis by (simp add: zero_fill_def pad_field_def digits_prefix_radix)
qed

lemma zero_fill_inject [simp]: "zero_fill w m = zero_fill w n \<longleftrightarrow> m = n"
  by (metis digits_zero_fill)

lemma radix10_inject [simp]: "radix 10 m = radix 10 n \<longleftrightarrow> m = n"
proof
  assume "radix 10 m = radix 10 n"
  then have "digits_prefix 10 0 (radix 10 m) = digits_prefix 10 0 (radix 10 n)" by (rule arg_cong)
  then show "m = n" by (simp add: digits_prefix_radix)
qed (rule arg_cong)

lemma length_zero_fill:
  "n \<le> 99 \<Longrightarrow> length (zero_fill 2 n) = 2" "n \<le> 999 \<Longrightarrow> length (zero_fill 3 n) = 3"
  using length_radix [of n 10 2] length_radix [of n 10 3] by (simp_all add: zero_fill_def length_pad_field)

lemma clean_zero_fill [simp]: "clean (zero_fill w n)"
  by (simp add: zero_fill_def clean_pad_field clean_simps)

definition report_prefixes :: "string list" where
  "report_prefixes = [''crash-'', ''ex-'', ''anr-'']"

lemma report_path_eq:
  assumes "NUL \<notin> set (nc_reportPathAbsolute nc)" "p \<in> set report_prefixes"
  shows "report_path nc t p = generateTmpFilename nc t p"
proof -
  have "clean p" using assms(2) by (auto simp: report_prefixes_def clean_simps clean_char_def)
  then show ?thesis
    using assms(1) unfolding report_path_def
    by (intro c_str_id) (simp add: generateTmpFilename_def put_time_def clean_not)
qed

lemma same_length_suffix: "us @ xs = vs @ ys \<Longrightarrow> length xs = length ys \<Longrightarrow> us = vs \<and> xs = ys"
  by simp

lemma put_time_inject:
  assumes "wf_clock t" "wf_clock t'"
    and "p @ put_time t @ zero_fill 3 (tm_ms t) = p' @ put_time t' @ zero_fill 3 (tm_ms t')"
    and "p \<in> set report_prefixes" "p' \<in> set report_prefixes"
  shows "p = p' \<and> t = t'"
proof -
  let ?fields = "\<lambda>t. [zero_fill 2 (tm_mon t), zero_fill 2 (tm_mday t), zero_fill 2 (tm_hour t),
      zero_fill 2 (tm_min t), zero_fill 2 (tm_sec t), zero_fill 3 (tm_ms t)]"
  have len: "length (concat (?fields t)) = 13" "length (concat (?fields t')) = 13"
    using assms(1,2) by (simp_all add: wf_clock_def length_zero_fill)
  have "(p @ radix 10 (tm_year t)) @ concat (?fields t) = (p' @ radix 10 (tm_year t')) @ concat (?fields t')"
    using assms(3) by (simp add: put_time_def)
  then have eqs: "p @ radix 10 (tm_year t) = p' @ radix 10 (tm_year t')" "concat (?fields t) = concat (?fields t')"
    using same_length_suffix len by (metis (no_types))+
  have "?fields t = ?fields t'"
    using assms(1,2) by (intro concat_injective [OF eqs(2)]) (simp_all add: wf_clock_def length_zero_fill)
  moreover have "p = p'"
    using eqs(1) assms(4,5) by (auto simp: report_prefixes_def)
  ultimately show ?thesis
    using eqs(1) by (auto intro!: wall_clock.equality)
qed

section \<open>Properties\<close>

text \<open>
  C33. Report files do not collide: for the three kinds of report and any two moments that
  differ to the millisecond, the paths are different, whatever the report directory is.
\<close>

theorem report_paths_distinct:
  assumes "NUL \<notin> set (nc_reportPathAbsolute nc)" "wf_clock t" "wf_clock t'"
    "p \<in> set report_prefixes" "p' \<in> set report_prefixes"
  shows "report_path nc t p = report_path nc t' p' \<longleftrightarrow> p = p' \<and> t = t'"
  using put_time_inject [OF assms(2,3) _ assms(4,5)]
  by (auto simp: report_path_eq assms generateTmpFilename_def)

definition sample_clock :: wall_clock where
  "sample_clock = \<lparr>tm_year = 2024, tm_mon = 1, tm_mday = 2, tm_hour = 3, tm_min = 4, tm_sec = 5, tm_ms = 6\<rparr>"

theorem report_paths_distinct_witness:
  "report_path zero_native_context sample_clock ''crash-'' \<noteq>
   report_path zero_native_context (sample_clock\<lparr>tm_ms := 7\<rparr>) ''crash-''"
  using report_paths_distinct [of zero_native_context sample_clock "sample_clock\<lparr>tm_ms := 7\<rparr>" "''crash-''" "''crash-''"]
  by (simp add: zero_native_context_def sample_clock_def wf_clock_def report_prefixes_def)

text \<open>
  Two reports of one kind within the same millisecond share a file: the second replaces
  the first, whatever it was, as if the first had not been written.
\<close>

theorem same_millisecond_overwrites:
  "from_crash nc t d buf2 n2 (from_crash nc t d buf1 n1 fs) = from_crash nc t d buf2 n2 fs \<and>
   from_exception nc t d buf2 n2 (from_exception nc t d buf1 n1 fs) = from_exception nc t d buf2 n2 fs \<and>
   from_anr nc t d buf2 n2 (from_anr nc t d buf1 n1 fs) = from_anr nc t d buf2 n2 fs"
  by (simp add: from_crash_def from_exception_def from_anr_def to_storage_def Let_def)

end
