(* ===== verification/Signal_Handler.thy ===== *)
theory Signal_Handler
  imports Serializer
begin

text \<open>
  \<open>signal-handler.cpp\<close>: the table of observed signals, the interceptor and its chaining to the
  previous actions, and the start and stop of the module. The state holds the module's static
  variables, the mutex, the installer threads that were created and have not run yet, and what
  the outside sees: the kernel's signal state, the report files and the calls into handlers
  that are not the agent's.

  The counters \<open>initialized\<close> and \<open>intercepting\<close> are \<open>sig_atomic_t\<close>, 32 bits wide, in the source and
  unbounded here: they count starts and handlers on the way through, of which no process has
  two thousand million. That their increments are not atomic is the subject of \<open>Signal_Race\<close>.
\<close>

unbundle bit_operations_syntax

section \<open>State\<close>

record observed_signal =
  os_signo :: int
  os_name :: string
  os_description :: string
  os_sa_previous :: sigact
  os_intercepting :: int

text \<open>Calls to other code: a three-argument action, a one-argument handler, \<open>raise\<close>.\<close>

datatype event = Called_sigaction handler int | Called_handler handler int | Raised int

record sh_state =
  sh_stack :: sigstack
  sh_locked :: bool
  sh_signals :: "observed_signal list"
  sh_initialized :: int
  sh_intercepting :: int
  sh_pending :: nat
  sh_kernel :: kernel
  sh_files :: files
  sh_events :: "event list"

text \<open>The outcomes of the library calls an operation makes.\<close>

record sh_outcomes =
  so_sys :: outcomes
  so_lock :: bool
  so_unlock :: bool
  so_create :: bool
  so_setname :: bool

definition sh_all_ok :: sh_outcomes where
  "sh_all_ok = \<lparr>so_sys = all_ok, so_lock = True, so_unlock = True, so_create = True, so_setname = True\<rparr>"

definition observe :: "int \<Rightarrow> string \<Rightarrow> string \<Rightarrow> observed_signal" where
  "observe signo name description =
     \<lparr>os_signo = signo, os_name = name, os_description = description,
      os_sa_previous = zero_sigact, os_intercepting = 0\<rparr>"

definition observedSignals :: "observed_signal list" where
  "observedSignals =
     [observe SIGILL ''SIGILL'' ''Illegal instruction'',
      observe SIGTRAP ''SIGTRAP'' ''Trap (invalid memory reference)'',
      observe SIGABRT ''SIGABRT'' ''Abnormal termination'',
      observe SIGFPE ''SIGFPE'' ''Floating-point exception'',
      observe SIGBUS ''SIGBUS'' ''Bus error (bad memory access)'',
      observe SIGSEGV ''SIGSEGV'' ''Segmentation violation (invalid memory reference)'']"

text \<open>The module as it is loaded, in a process whose kernel state is \<open>k\<close>.\<close>

definition loaded :: "kernel \<Rightarrow> files \<Rightarrow> sh_state" where
  "loaded k fs =
     \<lparr>sh_stack = \<lparr>ss_sp = None, ss_size = 0, ss_flags = 0\<rparr>, sh_locked = False,
      sh_signals = observedSignals, sh_initialized = 0, sh_intercepting = 0, sh_pending = 0,
      sh_kernel = k, sh_files = fs, sh_events = []\<rparr>"

section \<open>The mutex\<close>

text \<open>A default mutex: locking it while it is held, by any thread, waits. The flag is whether the
  call succeeded.\<close>

definition mutex_lock :: "sh_outcomes \<Rightarrow> sh_state \<Rightarrow> (bool \<times> sh_state) outcome" where
  "mutex_lock os st =
     (if \<not> so_lock os then Returns (False, st)
      else if sh_locked st then Blocks
      else Returns (True, st\<lparr>sh_locked := True\<rparr>))"

definition mutex_unlock :: "sh_outcomes \<Rightarrow> sh_state \<Rightarrow> bool \<times> sh_state" where
  "mutex_unlock os st = (if so_unlock os then (True, st\<lparr>sh_locked := False\<rparr>) else (False, st))"

section \<open>Installing and removing\<close>

fun install_all :: "outcomes \<Rightarrow> observed_signal list \<Rightarrow> kernel \<Rightarrow> observed_signal list \<times> kernel" where
  "install_all os [] k = ([], k)"
| "install_all os (s # ss) k =
     (let (ok, old, k) = install_handler os (os_signo s) Interceptor SA_ONSTACK k;
          s = (case old of Some a \<Rightarrow> s\<lparr>os_sa_previous := a\<rparr> | None \<Rightarrow> s);
          (ss, k) = install_all os ss k
      in (s # ss, k))"

definition install_signal_observers :: "sh_outcomes \<Rightarrow> sh_state \<Rightarrow> sh_state" where
  "install_signal_observers os st =
     (let was = sh_initialized st; st = st\<lparr>sh_initialized := was + 1\<rparr>
      in if was = 0 then
           (if \<not> so_setname os then st
            else (let (ss, k) = install_all (so_sys os) (sh_signals st) (sh_kernel st)
                  in st\<lparr>sh_signals := ss, sh_kernel := k, sh_intercepting := 0\<rparr>))
         else st)"

fun uninstall_all :: "outcomes \<Rightarrow> observed_signal list \<Rightarrow> kernel \<Rightarrow> kernel" where
  "uninstall_all os [] k = k"
| "uninstall_all os (s # ss) k =
     (let (ok, _, k) = sigaction os (os_signo s) (os_sa_previous s) k in uninstall_all os ss k)"

definition uninstall_handler :: "sh_outcomes \<Rightarrow> sh_state \<Rightarrow> sh_state" where
  "uninstall_handler os st =
     (if sh_initialized st > 0
      then st\<lparr>sh_kernel := uninstall_all (so_sys os) (sh_signals st) (sh_kernel st),
              sh_initialized := sh_initialized st - 1\<rparr>
      else st)"

text \<open>The block is freed and forgotten; \<open>sigaltstack\<close> is not called, so \<open>k_altstack\<close> goes on naming it.\<close>

definition dealloc :: "sh_state \<Rightarrow> sh_state" where
  "dealloc st =
     (case ss_sp (sh_stack st) of
        None \<Rightarrow> st
      | Some p \<Rightarrow> st\<lparr>sh_kernel := (sh_kernel st)\<lparr>k_heap := remove1 p (k_heap (sh_kernel st))\<rparr>,
                     sh_stack := (sh_stack st)\<lparr>ss_sp := None\<rparr>\<rparr>)"

section \<open>Start and stop\<close>

text \<open>\<open>SIGSTKSZ\<close> is the platform's; the signal mask is the starting thread's.\<close>

definition start_installer :: "sh_outcomes \<Rightarrow> sh_state \<Rightarrow> sh_state" where
  "start_installer os st =
     (let (ok, k) = block_signal (so_sys os) SIGQUIT (sh_kernel st); st = st\<lparr>sh_kernel := k\<rparr>
      in if ok then
           (let st = (if so_create os then st\<lparr>sh_pending := Suc (sh_pending st)\<rparr> else st)
            in st\<lparr>sh_kernel := snd (unblock_signal (so_sys os) SIGQUIT (sh_kernel st))\<rparr>)
         else st)"

definition signal_handler_initialize ::
  "nat \<Rightarrow> sh_outcomes \<Rightarrow> sh_state \<Rightarrow> (bool \<times> sh_state) outcome" where
  "signal_handler_initialize SIGSTKSZ os st =
     bind_outcome (mutex_lock os st) (\<lambda>(locked, st).
       if locked then
         (let (ok, stk, k) = set_sigstack (so_sys os) (sh_stack st) (SIGSTKSZ * 2) (sh_kernel st);
              st = st\<lparr>sh_stack := stk, sh_kernel := k\<rparr>
          in if \<not> ok then Returns (False, st)
             else Returns (True, snd (mutex_unlock os (start_installer os st))))
       else Returns (True, st))"

definition signal_handler_shutdown :: "sh_outcomes \<Rightarrow> sh_state \<Rightarrow> sh_state outcome" where
  "signal_handler_shutdown os st =
     bind_outcome (mutex_lock os st) (\<lambda>(locked, st).
       if locked then Returns (snd (mutex_unlock os (dealloc (uninstall_handler os st))))
       else Returns st)"

section \<open>Interception\<close>

definition invoke_sigaction :: "int \<Rightarrow> sigact \<Rightarrow> sh_state \<Rightarrow> sh_state" where
  "invoke_sigaction signo act st =
     (if sa_flags act AND SA_SIGINFO \<noteq> 0
      then st\<lparr>sh_events := sh_events st @ [Called_sigaction (sa_handler act) signo]\<rparr>
      else if sa_handler act = SIG_DFL
      then st\<lparr>sh_events := sh_events st @ [Raised signo]\<rparr>
      else if sa_handler act \<noteq> SIG_IGN
      then st\<lparr>sh_events := sh_events st @ [Called_handler (sa_handler act) signo]\<rparr>
      else st)"

definition invoke_previous_sigaction :: "sh_outcomes \<Rightarrow> int \<Rightarrow> sh_state \<Rightarrow> sh_state outcome" where
  "invoke_previous_sigaction os signo st =
     bind_outcome (mutex_lock os st) (\<lambda>(locked, st).
       if locked then
         (let st = fold (\<lambda>s st. if os_signo s = signo then invoke_sigaction signo (os_sa_previous s) st else st)
                     (sh_signals st) st
          in Returns (snd (mutex_unlock os st)))
       else Returns st)"

text \<open>The result of \<open>observed_signal_get_or_null\<close>, a pointer into the table, is an index.\<close>

fun observed_signal_get_or_null :: "int \<Rightarrow> observed_signal list \<Rightarrow> nat option" where
  "observed_signal_get_or_null signo [] = None"
| "observed_signal_get_or_null signo (s # ss) =
     (if os_signo s = signo then Some 0 else map_option Suc (observed_signal_get_or_null signo ss))"

definition count_callers :: "nat \<Rightarrow> int \<Rightarrow> sh_state \<Rightarrow> sh_state" where
  "count_callers i n st =
     (let s = sh_signals st ! i
      in st\<lparr>sh_signals := (sh_signals st)[i := s\<lparr>os_intercepting := os_intercepting s + n\<rparr>]\<rparr>)"

definition interceptor ::
  "build \<Rightarrow> world \<Rightarrow> wall_clock \<Rightarrow> disk \<Rightarrow> sh_outcomes \<Rightarrow> int \<Rightarrow> siginfo option \<Rightarrow> mcontext option \<Rightarrow>
   sh_state \<Rightarrow> sh_state outcome" where
  "interceptor b w t d os signo si uc st =
     (let was = sh_intercepting st; st = st\<lparr>sh_intercepting := was + 1\<rparr>
      in if was \<noteq> 0 then Returns st
         else case observed_signal_get_or_null signo (sh_signals st) of
           None \<Rightarrow> Returns st
         | Some i \<Rightarrow>
             (let st = count_callers i 1 st
              in case collect_backtrace b w BACKTRACE_SZ_MAX si uc of
                   None \<Rightarrow> Faults
                 | Some (complete, buffer) \<Rightarrow>
                     (let st = (if complete
                                then st\<lparr>sh_files := from_crash (w_native w) t d buffer
                                          (length (c_str buffer)) (sh_files st)\<rparr>
                                else st);
                          st = uninstall_handler os st
                      in bind_outcome (invoke_previous_sigaction os signo st) (\<lambda>st.
                           let st = count_callers i (- 1) st
                           in Returns (st\<lparr>sh_intercepting := sh_intercepting st - 1\<rparr>)))))"

end
