(* ===== verification/Signal_Safety.thy ===== *)
theory Signal_Safety
  imports Signal_Handler
begin

text \<open>
  The properties of the signal handler module: what installing and removing do to the kernel's
  table, the invariants of every interleaving of start, installer thread, stop, signals and
  the application's own \<open>sigaction\<close> calls, and the sequences that leave the module broken.
\<close>

unbundle bit_operations_syntax

section \<open>Installing and removing\<close>

definition interceptor_action :: sigact where
  "interceptor_action = \<lparr>sa_flags = SA_SIGINFO OR SA_ONSTACK, sa_handler = Interceptor\<rparr>"

definition sigactions_work :: "sh_outcomes \<Rightarrow> bool" where
  "sigactions_work os \<longleftrightarrow> o_sigemptyset (so_sys os) \<and> o_sigaction (so_sys os) = (\<lambda>_. True)"

definition signos :: "observed_signal list \<Rightarrow> int list" where
  "signos ss = map os_signo ss"

lemma signos_simps [simp]: "signos [] = []" "signos (s # ss) = os_signo s # signos ss"
  by (simp_all add: signos_def)

lemma signos_observed:
  "signos observedSignals = [SIGILL, SIGTRAP, SIGABRT, SIGFPE, SIGBUS, SIGSEGV]"
  "distinct (signos observedSignals)"
  by (simp_all add: observedSignals_def observe_def signo_defs)

definition prev_of :: "observed_signal list \<Rightarrow> int \<Rightarrow> sigact option" where
  "prev_of ss = map_of (map (\<lambda>s. (os_signo s, os_sa_previous s)) ss)"

lemma prev_of_simps [simp]:
  "prev_of [] n = None"
  "prev_of (s # ss) n = (if n = os_signo s then Some (os_sa_previous s) else prev_of ss n)"
  by (simp_all add: prev_of_def)

lemma prev_of_None: "prev_of ss n = None \<longleftrightarrow> n \<notin> set (signos ss)"
  by (induction ss) auto

lemma prev_of_in: "distinct (signos ss) \<Longrightarrow> s \<in> set ss \<Longrightarrow> prev_of ss (os_signo s) = Some (os_sa_previous s)"
  unfolding prev_of_def signos_def by (rule map_of_is_SomeI) (auto simp: comp_def)

lemma install_all_ok:
  assumes "o_sigemptyset os" "o_sigaction os = (\<lambda>_. True)" "distinct (signos ss)"
  shows "install_all os ss k =
    (map (\<lambda>s. s\<lparr>os_sa_previous := k_disp k (os_signo s)\<rparr>) ss,
     k\<lparr>k_disp := \<lambda>n. if n \<in> set (signos ss) then interceptor_action else k_disp k n\<rparr>)"
  using assms
proof (induction ss arbitrary: k)
  case (Cons s ss)
  have "map (\<lambda>s'. s'\<lparr>os_sa_previous := if os_signo s' = os_signo s then a else k_disp k (os_signo s')\<rparr>) ss =
      map (\<lambda>s'. s'\<lparr>os_sa_previous := k_disp k (os_signo s')\<rparr>) ss" for a
    using Cons.prems(3) by (auto simp: signos_def image_iff intro!: map_cong)
  with Cons show ?case
    by (auto simp: install_handler_def sigaction_def Let_def zero_sigact_def interceptor_action_def fun_eq_iff
        intro!: kernel.equality)
qed simp

lemma uninstall_all_ok:
  assumes "o_sigaction os = (\<lambda>_. True)" "distinct (signos ss)"
  shows "uninstall_all os ss k =
    k\<lparr>k_disp := \<lambda>n. case prev_of ss n of Some a \<Rightarrow> a | None \<Rightarrow> k_disp k n\<rparr>"
  using assms
proof (induction ss arbitrary: k)
  case (Cons s ss)
  have none: "prev_of ss (os_signo s) = None"
    using Cons.prems by (simp add: prev_of_None)
  have "(\<lambda>n. case prev_of ss n of None \<Rightarrow> k_disp (k\<lparr>k_disp := (k_disp k)(os_signo s := os_sa_previous s)\<rparr>) n
        | Some a \<Rightarrow> a) = (\<lambda>n. case prev_of (s # ss) n of None \<Rightarrow> k_disp k n | Some a \<Rightarrow> a)"
    by (auto simp: none fun_eq_iff split: option.splits)
  then show ?case
    using Cons by (simp add: sigaction_def del: prev_of_simps)
qed simp

lemma uninstall_all_keeps [simp]:
  "k_heap (uninstall_all os ss k) = k_heap k" "k_altstack (uninstall_all os ss k) = k_altstack k"
  "k_blocked (uninstall_all os ss k) = k_blocked k"
  by (induction ss arbitrary: k) (auto simp: sigaction_def split: prod.splits)

lemma signos_map [simp]: "signos (map (\<lambda>s. s\<lparr>os_sa_previous := f s\<rparr>) ss) = signos ss"
  by (induction ss) auto

section \<open>Operations on a working system\<close>

definition system_ok :: "sh_outcomes \<Rightarrow> bool" where
  "system_ok os \<longleftrightarrow> so_sys os = all_ok \<and> so_lock os \<and> so_unlock os \<and> so_create os \<and> so_setname os"

lemma system_ok_sh_all_ok [simp]: "system_ok sh_all_ok"
  by (simp add: system_ok_def sh_all_ok_def)

definition stack_block :: "nat \<Rightarrow> kernel \<Rightarrow> sigstack" where
  "stack_block n k = \<lparr>ss_sp = Some (k_fresh k), ss_size = n * 2, ss_flags = 0\<rparr>"

lemma initialize_ok:
  assumes "system_ok os" "\<not> sh_locked st"
  shows "signal_handler_initialize n os st = Returns (True,
    st\<lparr>sh_stack := stack_block n (sh_kernel st), sh_pending := Suc (sh_pending st),
       sh_kernel := (sh_kernel st)\<lparr>k_blocked := (k_blocked (sh_kernel st))(SIGQUIT := False),
         k_altstack := Some (stack_block n (sh_kernel st)),
         k_heap := k_fresh (sh_kernel st) # k_heap (sh_kernel st), k_fresh := Suc (k_fresh (sh_kernel st))\<rparr>\<rparr>)"
  using assms
  by (simp add: system_ok_def signal_handler_initialize_def mutex_lock_def mutex_unlock_def set_sigstack_def
      malloc_def all_ok_def start_installer_def block_signal_def unblock_signal_def stack_block_def Let_def)

lemma install_ok:
  assumes "system_ok os" "sh_initialized st = 0" "distinct (signos (sh_signals st))"
  shows "install_signal_observers os st =
    st\<lparr>sh_initialized := 1, sh_intercepting := 0,
       sh_signals := map (\<lambda>s. s\<lparr>os_sa_previous := k_disp (sh_kernel st) (os_signo s)\<rparr>) (sh_signals st),
       sh_kernel := (sh_kernel st)\<lparr>k_disp := \<lambda>n. if n \<in> set (signos (sh_signals st))
         then interceptor_action else k_disp (sh_kernel st) n\<rparr>\<rparr>"
  using assms
  by (simp add: install_signal_observers_def system_ok_def install_all_ok all_ok_def Let_def)

lemma shutdown_ok:
  assumes "system_ok os" "\<not> sh_locked st"
  shows "signal_handler_shutdown os st = Returns ((dealloc (uninstall_handler os st))\<lparr>sh_locked := False\<rparr>)"
proof -
  have "dealloc (uninstall_handler os (st\<lparr>sh_locked := True\<rparr>)) = (dealloc (uninstall_handler os st))\<lparr>sh_locked := True\<rparr>"
    by (simp add: dealloc_def uninstall_handler_def split: option.splits)
  then show ?thesis
    using assms by (simp add: signal_handler_shutdown_def system_ok_def mutex_lock_def mutex_unlock_def)
qed

section \<open>Every interleaving\<close>

text \<open>
  A step of the process: the agent is started or stopped by some thread, a created installer
  thread runs, a signal whose action is the interceptor is delivered, or the application sets
  an action of its own; that is any action but the interceptor, which leaves out code that gives
  back a saved one (\<open>restored_action_self_chains\<close>). An operation runs to its end before the next
  step; a mutex that is held between steps makes it wait. \<open>good\<close> restricts the outcomes of
  the library calls.
\<close>

inductive sh_step :: "(sh_outcomes \<Rightarrow> bool) \<Rightarrow> sh_state \<Rightarrow> sh_state \<Rightarrow> bool" for good where
  Start: "good os \<Longrightarrow> signal_handler_initialize n os st = Returns (r, st') \<Longrightarrow> sh_step good st st'"
| Install: "good os \<Longrightarrow> sh_pending st = Suc m \<Longrightarrow>
    sh_step good st (install_signal_observers os (st\<lparr>sh_pending := m\<rparr>))"
| Stop: "good os \<Longrightarrow> signal_handler_shutdown os st = Returns st' \<Longrightarrow> sh_step good st st'"
| Signal: "good os \<Longrightarrow> sa_handler (k_disp (sh_kernel st) signo) = Interceptor \<Longrightarrow>
    interceptor b w t d os signo (Some si) uc st = Returns st' \<Longrightarrow> sh_step good st st'"
| Application: "sa_handler act \<noteq> Interceptor \<Longrightarrow>
    sh_step good st (st\<lparr>sh_kernel := (sh_kernel st)\<lparr>k_disp := (k_disp (sh_kernel st))(signo := act)\<rparr>\<rparr>)"

inductive_cases sh_stepE: "sh_step good st st'"

definition sh_reachable :: "(sh_outcomes \<Rightarrow> bool) \<Rightarrow> sh_state \<Rightarrow> bool" where
  "sh_reachable good st \<longleftrightarrow>
     (\<exists>k fs. (\<forall>n. sa_handler (k_disp k n) \<noteq> Interceptor) \<and> (sh_step good)\<^sup>*\<^sup>* (loaded k fs) st)"

lemma sh_reachableI:
  "(sh_step good)\<^sup>*\<^sup>* (loaded k fs) st \<Longrightarrow> (\<And>n. sa_handler (k_disp k n) \<noteq> Interceptor) \<Longrightarrow> sh_reachable good st"
  by (auto simp: sh_reachable_def)

lemma sh_reachable_induct [consumes 1, case_names loaded step]:
  assumes "sh_reachable good st"
    and "\<And>k fs. (\<forall>n. sa_handler (k_disp k n) \<noteq> Interceptor) \<Longrightarrow> P (loaded k fs)"
    and "\<And>st st'. P st \<Longrightarrow> sh_step good st st' \<Longrightarrow> P st'"
  shows "P st"
proof -
  obtain k fs where k: "\<forall>n. sa_handler (k_disp k n) \<noteq> Interceptor"
    and steps: "(sh_step good)\<^sup>*\<^sup>* (loaded k fs) st"
    using assms(1) by (auto simp: sh_reachable_def)
  from steps show ?thesis
    by (induction rule: rtranclp_induct) (auto intro: assms(2) [OF k] assms(3))
qed

text \<open>The stages of an operation that succeeds.\<close>

lemma mutex_lock_Returns:
  "mutex_lock os st = Returns (ok, st') \<longleftrightarrow>
    (if so_lock os then \<not> sh_locked st \<and> ok \<and> st' = st\<lparr>sh_locked := True\<rparr> else \<not> ok \<and> st' = st)"
  by (auto simp: mutex_lock_def)

lemma mutex_unlock_eq: "snd (mutex_unlock os st) = st\<lparr>sh_locked := sh_locked st \<and> \<not> so_unlock os\<rparr>"
  by (cases "so_unlock os") (simp_all add: mutex_unlock_def)

section \<open>The agent never chains to itself\<close>

definition previous_foreign :: "observed_signal list \<Rightarrow> bool" where
  "previous_foreign ss \<longleftrightarrow> (\<forall>s \<in> set ss. sa_handler (os_sa_previous s) \<noteq> Interceptor)"

definition own_event :: "event \<Rightarrow> bool" where
  "own_event e \<longleftrightarrow> (\<exists>n. e = Called_sigaction Interceptor n \<or> e = Called_handler Interceptor n)"

text \<open>
  The invariant: the table lists the six signals and remembers foreign actions only, and while
  the module is not initialized, the kernel's table has none of its interceptors.
\<close>

definition chain_inv :: "sh_state \<Rightarrow> bool" where
  "chain_inv st \<longleftrightarrow> signos (sh_signals st) = signos observedSignals \<and> previous_foreign (sh_signals st) \<and>
     0 \<le> sh_initialized st \<and>
     (sh_initialized st = 0 \<longrightarrow> (\<forall>n. sa_handler (k_disp (sh_kernel st) n) \<noteq> Interceptor)) \<and>
     (\<forall>n. n \<notin> set (signos observedSignals) \<longrightarrow> sa_handler (k_disp (sh_kernel st) n) \<noteq> Interceptor) \<and>
     (\<forall>e \<in> set (sh_events st). \<not> own_event e)"

lemma chain_inv_frame:
  assumes "chain_inv st" "sh_signals st' = sh_signals st" "sh_initialized st' = sh_initialized st"
    "k_disp (sh_kernel st') = k_disp (sh_kernel st)" "sh_events st' = sh_events st"
  shows "chain_inv st'"
  using assms by (simp add: chain_inv_def)

lemma chain_inv_uninstall:
  assumes "sigactions_work os" "chain_inv st"
  shows "chain_inv (uninstall_handler os st)"
proof -
  have "distinct (signos (sh_signals st))"
    using assms(2) signos_observed(2) by (simp add: chain_inv_def)
  moreover have "prev_of (sh_signals st) n = Some a \<Longrightarrow> sa_handler a \<noteq> Interceptor" for n a
    using assms(2) by (auto simp: chain_inv_def previous_foreign_def prev_of_def dest!: map_of_SomeD)
  ultimately show ?thesis
    using assms prev_of_None [of "sh_signals st"]
    by (auto simp: chain_inv_def uninstall_handler_def uninstall_all_ok sigactions_work_def split: option.splits)
qed

lemma chain_inv_install:
  assumes "sigactions_work os" "chain_inv st"
  shows "chain_inv (install_signal_observers os st)"
proof -
  have "distinct (signos (sh_signals st))"
    using assms(2) signos_observed(2) by (simp add: chain_inv_def)
  then show ?thesis
    using assms
    by (auto simp: chain_inv_def install_signal_observers_def install_all_ok sigactions_work_def Let_def
        previous_foreign_def)
qed

lemma chain_inv_dealloc: "chain_inv st \<Longrightarrow> chain_inv (dealloc st)"
  by (erule chain_inv_frame) (simp_all add: dealloc_def split: option.splits)

lemma chain_inv_initialize:
  assumes "chain_inv st" "signal_handler_initialize n os st = Returns (r, st')"
  shows "chain_inv st'"
  using assms(2)
  by (intro chain_inv_frame [OF assms(1)])
    (auto simp: signal_handler_initialize_def bind_Returns mutex_lock_Returns mutex_unlock_eq set_sigstack_def
      malloc_def start_installer_def block_signal_def unblock_signal_def Let_def split: if_splits)

lemma chain_inv_shutdown:
  assumes "sigactions_work os" "chain_inv st" "signal_handler_shutdown os st = Returns st'"
  shows "chain_inv st'"
proof -
  have "chain_inv (st\<lparr>sh_locked := l\<rparr>)" for l
    using assms(2) by (simp add: chain_inv_def)
  then have "chain_inv (dealloc (uninstall_handler os (st\<lparr>sh_locked := l\<rparr>)))" for l
    using chain_inv_dealloc chain_inv_uninstall [OF assms(1)] by blast
  then have "chain_inv ((dealloc (uninstall_handler os (st\<lparr>sh_locked := l\<rparr>)))\<lparr>sh_locked := l'\<rparr>)" for l l'
    by (rule chain_inv_frame) simp_all
  then show ?thesis
    using assms(2,3) by (auto simp: signal_handler_shutdown_def bind_Returns mutex_lock_Returns mutex_unlock_eq split: if_splits)
qed

lemma chain_inv_invoke:
  assumes "chain_inv st" "sa_handler act \<noteq> Interceptor"
  shows "chain_inv (invoke_sigaction signo act st)"
  using assms by (auto simp: chain_inv_def invoke_sigaction_def own_event_def)

lemma chain_inv_invoke_fold:
  assumes "chain_inv st" "\<forall>s \<in> set ss. sa_handler (os_sa_previous s) \<noteq> Interceptor"
  shows "chain_inv (fold (\<lambda>s st. if os_signo s = signo then invoke_sigaction signo (os_sa_previous s) st else st) ss st)"
  using assms by (induction ss arbitrary: st) (simp_all add: chain_inv_invoke)

lemma chain_inv_invoke_previous:
  assumes "chain_inv st" "invoke_previous_sigaction os signo st = Returns st'"
  shows "chain_inv st'"
proof -
  have "chain_inv (st\<lparr>sh_locked := True\<rparr>)"
    using assms(1) by (simp add: chain_inv_def)
  then have "chain_inv (fold (\<lambda>s st. if os_signo s = signo then invoke_sigaction signo (os_sa_previous s) st else st)
      (sh_signals st) (st\<lparr>sh_locked := True\<rparr>))" (is "chain_inv ?f")
    using assms(1) by (intro chain_inv_invoke_fold) (auto simp: chain_inv_def previous_foreign_def)
  then have "chain_inv (?f\<lparr>sh_locked := l\<rparr>)" for l
    by (rule chain_inv_frame) simp_all
  then show ?thesis
    using assms by (auto simp: invoke_previous_sigaction_def bind_Returns mutex_lock_Returns mutex_unlock_eq Let_def split: if_splits)
qed

lemma count_callers_signals:
  assumes "i < length (sh_signals st)"
  shows "signos (sh_signals (count_callers i n st)) = signos (sh_signals st)"
    "prev_of (sh_signals (count_callers i n st)) = prev_of (sh_signals st)"
proof -
  have upd: "map f ((sh_signals st)[i := (sh_signals st ! i)\<lparr>os_intercepting := m\<rparr>]) = map f (sh_signals st)"
    if "\<And>s. f (s\<lparr>os_intercepting := m\<rparr>) = f s" for f :: "observed_signal \<Rightarrow> 'a" and m
    by (simp add: map_update that) (metis assms list_update_id nth_map)
  show "signos (sh_signals (count_callers i n st)) = signos (sh_signals st)"
    "prev_of (sh_signals (count_callers i n st)) = prev_of (sh_signals st)"
    unfolding signos_def prev_of_def count_callers_def Let_def by (simp_all add: upd)
qed

lemma previous_foreign_prev_of:
  "distinct (signos ss) \<Longrightarrow>
   previous_foreign ss \<longleftrightarrow> (\<forall>n a. prev_of ss n = Some a \<longrightarrow> sa_handler a \<noteq> Interceptor)"
proof
  show "previous_foreign ss \<Longrightarrow> \<forall>n a. prev_of ss n = Some a \<longrightarrow> sa_handler a \<noteq> Interceptor"
    by (auto simp: previous_foreign_def prev_of_def dest!: map_of_SomeD)
qed (auto simp: previous_foreign_def dest: prev_of_in)

lemma chain_inv_count:
  assumes "i < length (sh_signals st)" "chain_inv st"
  shows "chain_inv (count_callers i n st)"
  using assms count_callers_signals [OF assms(1), of n] signos_observed(2)
  by (auto simp: chain_inv_def previous_foreign_prev_of) (simp_all add: count_callers_def Let_def)

lemma get_or_null_bound: "observed_signal_get_or_null signo ss = Some i \<Longrightarrow> i < length ss"
  by (induction ss arbitrary: i) (auto split: if_splits)

lemma invoke_previous_keeps:
  assumes "invoke_previous_sigaction os signo st = Returns st'"
  shows "sh_signals st' = sh_signals st"
proof -
  have "sh_signals (fold (\<lambda>s st. if os_signo s = signo then invoke_sigaction signo (os_sa_previous s) st else st) ss st) =
      sh_signals st" for ss :: "observed_signal list" and st
    by (induction ss arbitrary: st) (simp_all add: invoke_sigaction_def)
  then show ?thesis
    using assms by (auto simp: invoke_previous_sigaction_def bind_Returns mutex_lock_Returns mutex_unlock_eq Let_def split: if_splits)
qed

lemma uninstall_signals [simp]: "sh_signals (uninstall_handler os st) = sh_signals st"
  by (simp add: uninstall_handler_def)

text \<open>The stages of an interception that is not nested.\<close>

definition entered :: "nat \<Rightarrow> sh_state \<Rightarrow> sh_state" where
  "entered i st = count_callers i 1 (st\<lparr>sh_intercepting := 1\<rparr>)"

definition finished :: "nat \<Rightarrow> sh_state \<Rightarrow> sh_state" where
  "finished i st = (count_callers i (- 1) st)\<lparr>sh_intercepting := sh_intercepting st - 1\<rparr>"

lemma count_callers_frame [simp]:
  "sh_files (count_callers i n st) = sh_files st"
  "sh_intercepting (count_callers i n st) = sh_intercepting st"
  "sh_kernel (count_callers i n st) = sh_kernel st"
  "sh_initialized (count_callers i n st) = sh_initialized st"
  "sh_locked (count_callers i n st) = sh_locked st"
  "sh_events (count_callers i n st) = sh_events st"
  "length (sh_signals (count_callers i n st)) = length (sh_signals st)"
  by (simp_all add: count_callers_def Let_def)

lemma interceptor_stages:
  assumes "sh_intercepting st = 0" "observed_signal_get_or_null signo (sh_signals st) = Some i"
    "collect_backtrace b w BACKTRACE_SZ_MAX si uc = Some (ok, buf)"
  shows "interceptor b w t d os signo si uc st =
    bind_outcome (invoke_previous_sigaction os signo (uninstall_handler os ((entered i st)\<lparr>sh_files :=
        if ok then from_crash (w_native w) t d buf (length (c_str buf)) (sh_files st) else sh_files st\<rparr>)))
      (\<lambda>st. Returns (finished i st))"
proof -
  have noop: "(count_callers i 1 (st\<lparr>sh_intercepting := 1\<rparr>))\<lparr>sh_files := sh_files st\<rparr> =
      count_callers i 1 (st\<lparr>sh_intercepting := 1\<rparr>)"
    by (simp add: count_callers_def Let_def)
  show ?thesis
    using assms by (cases ok) (simp_all add: interceptor_def entered_def finished_def Let_def noop)
qed

lemma interceptor_early:
  assumes "sh_intercepting st \<noteq> 0 \<or> observed_signal_get_or_null signo (sh_signals st) = None"
  shows "interceptor b w t d os signo si uc st = Returns (st\<lparr>sh_intercepting := sh_intercepting st + 1\<rparr>)"
  using assms by (auto simp: interceptor_def Let_def)

lemma chain_inv_interceptor:
  assumes "sigactions_work os" "chain_inv st" "interceptor b w t d os signo (Some si) uc st = Returns st'"
  shows "chain_inv st'"
proof (cases "sh_intercepting st \<noteq> 0 \<or> observed_signal_get_or_null signo (sh_signals st) = None")
  case True
  then show ?thesis
    using assms(3) by (intro chain_inv_frame [OF assms(2)]) (auto simp: interceptor_early)
next
  case False
  then obtain i where i: "observed_signal_get_or_null signo (sh_signals st) = Some i" by auto
  obtain ok buf where cb: "collect_backtrace b w BACKTRACE_SZ_MAX (Some si) uc = Some (ok, buf)"
    by (simp add: collect_backtrace_def Let_def)
  have "chain_inv (entered i st)" unfolding entered_def
    by (intro chain_inv_count chain_inv_frame [OF assms(2)]) (simp_all add: get_or_null_bound [OF i])
  then have inv: "chain_inv (uninstall_handler os ((entered i st)\<lparr>sh_files := fs\<rparr>))" for fs
    by (intro chain_inv_uninstall [OF assms(1)], elim chain_inv_frame) simp_all
  have "sh_intercepting st = 0" using False by simp
  from assms(3) [unfolded interceptor_stages [OF this i cb]] obtain fs s3 where
    s3: "invoke_previous_sigaction os signo (uninstall_handler os ((entered i st)\<lparr>sh_files := fs\<rparr>)) = Returns s3"
    and st': "st' = finished i s3"
    by (auto simp: bind_Returns)
  have "chain_inv s3" "i < length (sh_signals s3)"
    using chain_inv_invoke_previous [OF inv s3] invoke_previous_keeps [OF s3] get_or_null_bound [OF i]
    by (simp_all add: entered_def)
  then have "chain_inv (count_callers i (- 1) s3)" by (rule chain_inv_count [rotated])
  then show ?thesis unfolding st' finished_def by (rule chain_inv_frame) simp_all
qed

lemma chain_inv_step: "sh_step sigactions_work st st' \<Longrightarrow> chain_inv st \<Longrightarrow> chain_inv st'"
proof (induction rule: sh_step.induct)
  case (Start os n st r st')
  then show ?case by (blast intro: chain_inv_initialize)
next
  case (Install os st m)
  then have "chain_inv (st\<lparr>sh_pending := m\<rparr>)" by (intro chain_inv_frame [OF Install(3)]) simp_all
  with Install show ?case by (blast intro: chain_inv_install)
next
  case (Application act st signo)
  then show ?case by (auto simp: chain_inv_def)
qed (blast intro: chain_inv_shutdown chain_inv_interceptor)+

lemma chain_inv_reachable: "sh_reachable sigactions_work st \<Longrightarrow> chain_inv st"
proof (induction rule: sh_reachable_induct)
  case (loaded k fs)
  then show ?case
    by (auto simp: chain_inv_def loaded_def previous_foreign_def observedSignals_def observe_def zero_sigact_def)
qed (blast intro: chain_inv_step)

section \<open>Properties\<close>

text \<open>What the invariant says of one signal.\<close>

lemma chain_inv_foreign:
  assumes "chain_inv st" "prev_of (sh_signals st) n = Some a"
  shows "sa_handler a \<noteq> Interceptor"
proof -
  have "distinct (signos (sh_signals st))"
    using assms(1) signos_observed(2) by (simp add: chain_inv_def)
  with assms show ?thesis by (auto simp: chain_inv_def previous_foreign_prev_of)
qed

lemma chain_inv_others:
  "chain_inv st \<Longrightarrow> prev_of (sh_signals st) n = None \<Longrightarrow> sa_handler (k_disp (sh_kernel st) n) \<noteq> Interceptor"
  by (simp add: chain_inv_def prev_of_None)

lemma chain_inv_installed:
  assumes "chain_inv st" "sa_handler (k_disp (sh_kernel st) n) = Interceptor"
  shows "sh_initialized st > 0 \<and> distinct (signos (sh_signals st)) \<and> (\<exists>a. prev_of (sh_signals st) n = Some a)"
proof -
  have "sh_initialized st > 0" "distinct (signos (sh_signals st))"
    using assms signos_observed(2) by (auto simp: chain_inv_def le_less)
  moreover have "prev_of (sh_signals st) n \<noteq> None"
    using assms chain_inv_others by blast
  ultimately show ?thesis by blast
qed



text \<open>Stopping undoes starting: from a loaded, idle module, start and the installer's run install
  the interceptors, and the stop gives back the kernel's table, the heap and the lock as they
  were.\<close>

lemma start_stop_restores:
  assumes "system_ok os" "\<not> sh_locked st" "sh_initialized st = 0" "distinct (signos (sh_signals st))"
  shows "\<exists>st1 st2 st3. signal_handler_initialize n os st = Returns (True, st1) \<and> sh_pending st1 = Suc (sh_pending st) \<and>
    st2 = install_signal_observers os (st1\<lparr>sh_pending := sh_pending st\<rparr>) \<and>
    (\<forall>i. k_disp (sh_kernel st2) i =
       (if i \<in> set (signos (sh_signals st)) then interceptor_action else k_disp (sh_kernel st) i)) \<and>
    signal_handler_shutdown os st2 = Returns st3 \<and>
    k_disp (sh_kernel st3) = k_disp (sh_kernel st) \<and> k_heap (sh_kernel st3) = k_heap (sh_kernel st) \<and>
    \<not> sh_locked st3 \<and> sh_initialized st3 = 0 \<and> ss_sp (sh_stack st3) = None"
proof -
  have prev: "prev_of (map (\<lambda>s. s\<lparr>os_sa_previous := f (os_signo s)\<rparr>) ss) n =
      (if n \<in> set (signos ss) then Some (f n) else None)" for f n and ss :: "observed_signal list"
    by (induction ss) auto
  have sys: "o_sigaction (so_sys os) = (\<lambda>_. True)" using assms(1) by (simp add: system_ok_def all_ok_def)
  show ?thesis
    using assms by (auto simp: initialize_ok install_ok shutdown_ok uninstall_handler_def uninstall_all_ok sys prev
        dealloc_def stack_block_def fun_eq_iff)
qed


text \<open>A process for closed examples: an application with a handler for every signal.\<close>

definition sample_kernel :: kernel where
  "sample_kernel = \<lparr>k_disp = (\<lambda>_. \<lparr>sa_flags = 0, sa_handler = App_Handler 5\<rparr>), k_blocked = (\<lambda>_. False),
     k_altstack = None, k_heap = [], k_fresh = 0\<rparr>"

definition start_up :: "nat \<Rightarrow> sh_outcomes \<Rightarrow> sh_state \<Rightarrow> sh_state outcome" where
  "start_up n os st =
     bind_outcome (signal_handler_initialize n os st)
       (\<lambda>(_, st). Returns (install_signal_observers os (st\<lparr>sh_pending := sh_pending st - 1\<rparr>)))"

lemma start_up_steps:
  assumes "good os" "start_up n os st = Returns st'" "system_ok os"
  shows "(sh_step good)\<^sup>*\<^sup>* st st'"
proof -
  obtain r st1 where init: "signal_handler_initialize n os st = Returns (r, st1)"
    and st': "st' = install_signal_observers os (st1\<lparr>sh_pending := sh_pending st1 - 1\<rparr>)"
    using assms(2) by (auto simp: start_up_def bind_Returns)
  have "sh_pending st1 = Suc (sh_pending st1 - 1)"
  proof (cases "sh_locked st")
    case True
    then show ?thesis
      using init assms(3) by (simp add: signal_handler_initialize_def mutex_lock_def system_ok_def)
  next
    case False
    then show ?thesis using init initialize_ok [OF assms(3), of st n] by auto
  qed
  then have step: "sh_step good st1 st'"
    unfolding st' by (rule sh_step.Install [where good = good and os = os, OF assms(1)])
  have "sh_step good st st1" by (rule sh_step.Start [where good = good and os = os, OF assms(1) init])
  with step show ?thesis by auto
qed


text \<open>The lock is free between operations as long as a start never fails to set its stack.\<close>

definition lock_safe :: "sh_outcomes \<Rightarrow> bool" where
  "lock_safe os \<longleftrightarrow> so_unlock os \<and> o_malloc (so_sys os) \<and> o_sigaltstack (so_sys os)"

lemma invoke_previous_unlocked:
  assumes "lock_safe os" "\<not> sh_locked st" "invoke_previous_sigaction os signo st = Returns st'"
  shows "\<not> sh_locked st'"
  using assms by (auto simp: lock_safe_def invoke_previous_sigaction_def bind_Returns mutex_lock_Returns
      mutex_unlock_eq Let_def split: if_splits)

lemma uninstall_frame [simp]:
  "sh_locked (uninstall_handler os st) = sh_locked st" "sh_files (uninstall_handler os st) = sh_files st"
  "sh_intercepting (uninstall_handler os st) = sh_intercepting st" "sh_events (uninstall_handler os st) = sh_events st"
  by (simp_all add: uninstall_handler_def)

lemma unlocked_interceptor:
  assumes "lock_safe os" "\<not> sh_locked st" "interceptor b w t d os signo (Some si) uc st = Returns st'"
  shows "\<not> sh_locked st'"
proof (cases "sh_intercepting st \<noteq> 0 \<or> observed_signal_get_or_null signo (sh_signals st) = None")
  case True
  then show ?thesis using assms by (auto simp: interceptor_early)
next
  case False
  then obtain i where i: "observed_signal_get_or_null signo (sh_signals st) = Some i" by auto
  obtain ok buf where cb: "collect_backtrace b w BACKTRACE_SZ_MAX (Some si) uc = Some (ok, buf)"
    by (simp add: collect_backtrace_def Let_def)
  have "sh_intercepting st = 0" using False by simp
  from assms(3) [unfolded interceptor_stages [OF this i cb]] obtain fs s3 where
    s3: "invoke_previous_sigaction os signo (uninstall_handler os ((entered i st)\<lparr>sh_files := fs\<rparr>)) = Returns s3"
    and st': "st' = finished i s3"
    by (auto simp: bind_Returns)
  have "\<not> sh_locked s3"
    using assms(2) by (intro invoke_previous_unlocked [OF assms(1) _ s3]) (simp add: entered_def)
  then show ?thesis by (simp add: st' finished_def)
qed

lemma unlocked_step: "sh_step lock_safe st st' \<Longrightarrow> \<not> sh_locked st \<Longrightarrow> \<not> sh_locked st'"
proof (induction rule: sh_step.induct)
  case (Start os n st r st')
  then show ?case
    by (auto simp: signal_handler_initialize_def bind_Returns mutex_lock_Returns mutex_unlock_eq lock_safe_def
        set_sigstack_def malloc_def Let_def split: if_splits)
next
  case (Install os st m)
  then show ?case by (simp add: install_signal_observers_def Let_def split: prod.splits)
next
  case (Stop os st st')
  then show ?case
    by (auto simp: signal_handler_shutdown_def bind_Returns mutex_lock_Returns mutex_unlock_eq lock_safe_def split: if_splits)
next
  case (Signal os st signo b w t d si uc st')
  then show ?case using unlocked_interceptor by blast
qed simp

lemma unlocked_reachable: "sh_reachable lock_safe st \<Longrightarrow> \<not> sh_locked st"
proof (induction rule: sh_reachable_induct)
  case (step st st')
  then show ?case using unlocked_step by blast
qed (simp add: loaded_def)

lemma unlocked_Returns:
  assumes "\<not> sh_locked st"
  shows "\<exists>x. signal_handler_initialize n os st = Returns x" "\<exists>x. signal_handler_shutdown os st = Returns x"
    "\<exists>x. invoke_previous_sigaction os signo st = Returns x"
  using assms
  by (auto simp: signal_handler_initialize_def signal_handler_shutdown_def invoke_previous_sigaction_def
      mutex_lock_def Let_def split: prod.splits)

lemma interceptor_Returns:
  assumes "\<not> sh_locked st"
  shows "\<exists>x. interceptor b w t d os signo (Some si) uc st = Returns x"
proof (cases "sh_intercepting st \<noteq> 0 \<or> observed_signal_get_or_null signo (sh_signals st) = None")
  case True
  then show ?thesis by (simp add: interceptor_early)
next
  case False
  then obtain i where i: "observed_signal_get_or_null signo (sh_signals st) = Some i" by auto
  obtain ok buf where cb: "collect_backtrace b w BACKTRACE_SZ_MAX (Some si) uc = Some (ok, buf)"
    by (simp add: collect_backtrace_def Let_def)
  have "sh_intercepting st = 0" using False by simp
  moreover obtain x where "invoke_previous_sigaction os signo (uninstall_handler os ((entered i st)\<lparr>sh_files :=
        if ok then from_crash (w_native w) t d buf (length (c_str buf)) (sh_files st) else sh_files st\<rparr>)) = Returns x"
    using unlocked_Returns(3) assms by (metis count_callers_frame(5) entered_def sh_state.select_convs(2)
        sh_state.surjective sh_state.update_convs(5,8) uninstall_frame(1))
  ultimately show ?thesis by (simp add: interceptor_stages [OF _ i cb])
qed

text \<open>
  Nothing hangs: as long as every start gets its alternate stack and unlocking works, every
  interleaving leaves the mutex free between operations, so a further start, a stop and the
  interception of a signal all return.
\<close>

theorem operations_return:
  assumes "sh_reachable lock_safe st"
  shows "\<not> sh_locked st \<and> (\<exists>x. signal_handler_initialize n os st = Returns x) \<and>
    (\<exists>x. signal_handler_shutdown os st = Returns x) \<and>
    (\<exists>x. interceptor b w t d os signo (Some si) uc st = Returns x)"
  using unlocked_reachable [OF assms] unlocked_Returns(1,2) interceptor_Returns by blast

theorem operations_return_witness:
  "\<exists>st. start_up 8192 sh_all_ok (loaded sample_kernel Map.empty) = Returns st \<and>
     (\<exists>x. signal_handler_shutdown sh_all_ok st = Returns x)"
proof -
  obtain st where st: "start_up 8192 sh_all_ok (loaded sample_kernel Map.empty) = Returns st"
    by (simp add: start_up_def initialize_ok loaded_def)
  have "lock_safe sh_all_ok" by (simp add: lock_safe_def sh_all_ok_def all_ok_def)
  then have "sh_reachable lock_safe st"
    by (intro sh_reachableI [OF start_up_steps [OF _ st]]) (simp_all add: sample_kernel_def)
  from operations_return [OF this] st show ?thesis by blast
qed

lemma locked_blocks:
  assumes "so_lock os" "sh_locked st"
  shows "signal_handler_initialize n os st = Blocks" "signal_handler_shutdown os st = Blocks"
    "invoke_previous_sigaction os signo st = Blocks"
  using assms by (simp_all add: signal_handler_initialize_def signal_handler_shutdown_def
      invoke_previous_sigaction_def mutex_lock_def)

lemma failed_initialize:
  assumes "so_lock os" "\<not> sh_locked st" "\<not> (o_malloc (so_sys os) \<and> o_sigaltstack (so_sys os))"
  shows "\<exists>st'. signal_handler_initialize n os st = Returns (False, st') \<and> sh_locked st'"
  using assms by (auto simp: signal_handler_initialize_def mutex_lock_def set_sigstack_def malloc_def Let_def)

text \<open>
  A start that cannot set the alternate stack keeps the mutex: it returns false, and from
  then on a further start, a stop, and the chaining of every signal to its previous action
  wait for ever.
\<close>

theorem failed_start_wedges:
  assumes "so_lock os" "\<not> sh_locked st" "\<not> (o_malloc (so_sys os) \<and> o_sigaltstack (so_sys os))"
  shows "\<exists>st'. signal_handler_initialize n os st = Returns (False, st') \<and>
    (\<forall>os'. so_lock os' \<longrightarrow> signal_handler_initialize n os' st' = Blocks \<and>
       signal_handler_shutdown os' st' = Blocks \<and> invoke_previous_sigaction os' signo st' = Blocks)"
  using failed_initialize [OF assms, of n] locked_blocks by blast

theorem failed_start_wedges_witness:
  "\<exists>st'. signal_handler_initialize 8192 (sh_all_ok\<lparr>so_sys := all_ok\<lparr>o_malloc := False\<rparr>\<rparr>)
       (loaded sample_kernel Map.empty) = Returns (False, st') \<and>
     signal_handler_shutdown sh_all_ok st' = Blocks"
  using failed_start_wedges [of "sh_all_ok\<lparr>so_sys := all_ok\<lparr>o_malloc := False\<rparr>\<rparr>" "loaded sample_kernel Map.empty" 8192 11]
  by (auto simp: sh_all_ok_def loaded_def)

text \<open>
  A second start is lost with the first stop: after start, start, stop, start the module
  counts itself initialized twice, but no interceptor is installed; the table is the
  application's again.
\<close>

theorem double_start_loses_handlers:
  assumes "system_ok os" "\<not> sh_locked st" "sh_initialized st = 0" "distinct (signos (sh_signals st))"
  shows "\<exists>st'. bind_outcome (start_up n os st) (\<lambda>st.
      bind_outcome (start_up n os st) (\<lambda>st.
      bind_outcome (signal_handler_shutdown os st) (start_up n os))) = Returns st' \<and>
    sh_initialized st' = 2 \<and> k_disp (sh_kernel st') = k_disp (sh_kernel st)"
proof -
  have prev: "prev_of (map (\<lambda>s. s\<lparr>os_sa_previous := f (os_signo s)\<rparr>) ss) n =
      (if n \<in> set (signos ss) then Some (f n) else None)" for f n and ss :: "observed_signal list"
    by (induction ss) auto
  have sys: "o_sigaction (so_sys os) = (\<lambda>_. True)" using assms(1) by (simp add: system_ok_def all_ok_def)
  have again: "install_signal_observers os s = s\<lparr>sh_initialized := sh_initialized s + 1\<rparr>"
    if "sh_initialized s \<noteq> 0" for s
    using that by (simp add: install_signal_observers_def Let_def)
  show ?thesis
    using assms by (simp add: start_up_def initialize_ok install_ok again shutdown_ok uninstall_handler_def
        uninstall_all_ok sys prev dealloc_def stack_block_def) (auto simp: fun_eq_iff)
qed

theorem double_start_loses_handlers_witness:
  "\<exists>st'. bind_outcome (start_up 8192 sh_all_ok (loaded sample_kernel Map.empty)) (\<lambda>st.
      bind_outcome (start_up 8192 sh_all_ok st) (\<lambda>st.
      bind_outcome (signal_handler_shutdown sh_all_ok st) (start_up 8192 sh_all_ok))) = Returns st' \<and>
    sa_handler (k_disp (sh_kernel st') SIGSEGV) = App_Handler 5"
  using double_start_loses_handlers [of sh_all_ok "loaded sample_kernel Map.empty" 8192] signos_observed(2)
  by (auto simp: loaded_def sample_kernel_def)

text \<open>
  Stopping does not wait for the installer thread: when the stop comes first, the handlers
  are installed after it, on an alternate stack whose memory has been freed.
\<close>

theorem late_installer:
  assumes "system_ok os" "\<not> sh_locked st" "sh_initialized st = 0" "distinct (signos (sh_signals st))"
    "k_fresh (sh_kernel st) \<notin> set (k_heap (sh_kernel st))"
  shows "\<exists>st1 st2. signal_handler_initialize n os st = Returns (True, st1) \<and>
    signal_handler_shutdown os st1 = Returns st2 \<and> sh_pending st2 > 0 \<and>
    (let st3 = install_signal_observers os (st2\<lparr>sh_pending := sh_pending st2 - 1\<rparr>) in
       (\<forall>i \<in> set (signos (sh_signals st)). k_disp (sh_kernel st3) i =
          \<lparr>sa_flags = SA_SIGINFO OR SA_ONSTACK, sa_handler = Interceptor\<rparr>) \<and>
       (\<exists>stk p. k_altstack (sh_kernel st3) = Some stk \<and> ss_sp stk = Some p \<and> p \<notin> set (k_heap (sh_kernel st3))))"
  using assms
  by (simp add: initialize_ok shutdown_ok uninstall_handler_def dealloc_def stack_block_def install_ok
      interceptor_action_def Let_def)

theorem late_installer_witness:
  "\<exists>st1 st2. signal_handler_initialize 8192 sh_all_ok (loaded sample_kernel Map.empty) = Returns (True, st1) \<and>
    signal_handler_shutdown sh_all_ok st1 = Returns st2 \<and> sh_pending st2 > 0"
  using late_installer [of sh_all_ok "loaded sample_kernel Map.empty" 8192] signos_observed(2)
  by (auto simp: loaded_def sample_kernel_def Let_def)

text \<open>
  When the installer thread cannot name itself it installs nothing but counts the module as
  initialized: the next stop "restores" actions that were never saved, and every observed
  signal loses the application's handler to the default action.
\<close>

theorem failed_setname_drops_app_handlers:
  assumes "sigactions_work os" "\<not> so_setname os" "sh_initialized st = 0" "sh_signals st = observedSignals"
  shows "sh_kernel (install_signal_observers os st) = sh_kernel st \<and>
    (\<forall>i \<in> {SIGILL, SIGTRAP, SIGABRT, SIGFPE, SIGBUS, SIGSEGV}.
       k_disp (sh_kernel (uninstall_handler os (install_signal_observers os st))) i = zero_sigact)"
proof -
  have "prev_of observedSignals i = (if i \<in> set (signos observedSignals) then Some zero_sigact else None)" for i
    by (simp add: observedSignals_def observe_def)
  then show ?thesis
    using assms signos_observed by (simp add: install_signal_observers_def uninstall_handler_def uninstall_all_ok
        sigactions_work_def Let_def)
qed

theorem failed_setname_drops_app_handlers_witness:
  "k_disp (sh_kernel (uninstall_handler (sh_all_ok\<lparr>so_setname := False\<rparr>)
     (install_signal_observers (sh_all_ok\<lparr>so_setname := False\<rparr>) (loaded sample_kernel Map.empty)))) SIGSEGV = zero_sigact"
  using failed_setname_drops_app_handlers [of "sh_all_ok\<lparr>so_setname := False\<rparr>" "loaded sample_kernel Map.empty"]
  by (simp add: sigactions_work_def sh_all_ok_def all_ok_def loaded_def)

section \<open>A whole interception\<close>

text \<open>What chaining to an action amounts to.\<close>

definition chained_events :: "int \<Rightarrow> sigact \<Rightarrow> event list" where
  "chained_events signo act =
     (if sa_flags act AND SA_SIGINFO \<noteq> 0 then [Called_sigaction (sa_handler act) signo]
      else case sa_handler act of
        SIG_DFL \<Rightarrow> [Raised signo] | SIG_IGN \<Rightarrow> [] | h \<Rightarrow> [Called_handler h signo])"

lemma invoke_sigaction_eq:
  "invoke_sigaction signo act st = st\<lparr>sh_events := sh_events st @ chained_events signo act\<rparr>"
  by (auto simp: invoke_sigaction_def chained_events_def split: handler.splits)

lemma invoke_fold_none:
  "signo \<notin> set (signos ss) \<Longrightarrow>
   fold (\<lambda>s st. if os_signo s = signo then invoke_sigaction signo (os_sa_previous s) st else st) ss st = st"
  by (induction ss arbitrary: st) auto

lemma invoke_fold_one:
  assumes "distinct (signos ss)" "prev_of ss signo = Some act"
  shows "fold (\<lambda>s st. if os_signo s = signo then invoke_sigaction signo (os_sa_previous s) st else st) ss st =
    st\<lparr>sh_events := sh_events st @ chained_events signo act\<rparr>"
  using assms
  by (induction ss arbitrary: st) (auto simp: invoke_fold_none invoke_sigaction_eq split: if_splits)

lemma get_or_null_Some: "signo \<in> set (signos ss) \<Longrightarrow> \<exists>i. observed_signal_get_or_null signo ss = Some i"
  by (induction ss) auto

lemma interceptor_run:
  assumes "sh_intercepting st = 0" "\<not> sh_locked st" "sh_initialized st > 0"
    "so_lock os" "so_unlock os" "sigactions_work os"
    "distinct (signos (sh_signals st))" "prev_of (sh_signals st) signo = Some act"
    "collect_backtrace b w BACKTRACE_SZ_MAX si uc = Some (ok, buf)"
  shows "\<exists>st'. interceptor b w t d os signo si uc st = Returns st' \<and>
    sh_files st' = (if ok then from_crash (w_native w) t d buf (length (c_str buf)) (sh_files st) else sh_files st) \<and>
    k_disp (sh_kernel st') = (\<lambda>n. case prev_of (sh_signals st) n of Some a \<Rightarrow> a | None \<Rightarrow> k_disp (sh_kernel st) n) \<and>
    sh_events st' = sh_events st @ chained_events signo act \<and>
    sh_intercepting st' = 0 \<and> \<not> sh_locked st' \<and> sh_initialized st' = sh_initialized st - 1"
proof -
  have "signo \<in> set (signos (sh_signals st))"
    using assms(8) prev_of_None [of "sh_signals st" signo] by auto
  then obtain i where i: "observed_signal_get_or_null signo (sh_signals st) = Some i"
    using get_or_null_Some by blast
  define s1 where "s1 = entered i st"
  have s1: "signos (sh_signals s1) = signos (sh_signals st)" "prev_of (sh_signals s1) = prev_of (sh_signals st)"
    "sh_initialized s1 = sh_initialized st" "sh_kernel s1 = sh_kernel st" "sh_locked s1 = sh_locked st"
    "sh_events s1 = sh_events st" "sh_intercepting s1 = 1"
    using count_callers_signals [of i "st\<lparr>sh_intercepting := 1\<rparr>" 1] get_or_null_bound [OF i]
    by (simp_all add: s1_def entered_def)
  have "distinct (signos (sh_signals s1))" using assms(7) s1 by simp
  then show ?thesis
    unfolding interceptor_stages [OF assms(1) i assms(9)]
    using assms(2-6,8) s1
    by (simp add: s1_def [symmetric] invoke_previous_sigaction_def mutex_lock_def mutex_unlock_def
        invoke_fold_one [where act = act] uninstall_handler_def uninstall_all_ok sigactions_work_def finished_def)
qed

text \<open>The sample process after a start, for closed examples.\<close>

lemma sample_started:
  "\<exists>st. start_up 8192 sh_all_ok (loaded sample_kernel fs) = Returns st \<and>
     sh_intercepting st = 0 \<and> \<not> sh_locked st \<and> sh_initialized st = 1 \<and> sh_files st = fs \<and> sh_events st = [] \<and>
     distinct (signos (sh_signals st)) \<and> prev_of (sh_signals st) SIGSEGV = Some \<lparr>sa_flags = 0, sa_handler = App_Handler 5\<rparr> \<and>
     sa_handler (k_disp (sh_kernel st) SIGSEGV) = Interceptor"
proof -
  have "prev_of (map (\<lambda>s. s\<lparr>os_sa_previous := a\<rparr>) observedSignals) SIGSEGV = Some a" for a
    by (simp add: observedSignals_def observe_def signo_defs)
  then show ?thesis
    using signos_observed
    by (simp add: start_up_def initialize_ok install_ok loaded_def sample_kernel_def interceptor_action_def)
qed

section \<open>The block of the alternate stack\<close>

text \<open>
  What \<open>malloc\<close> and \<open>free\<close> keep in every run: the allocated blocks are distinct and older than
  the next one, and the pointer in \<open>_stack\<close>, when there is one, names an allocated block. So the
  \<open>free\<close> of a stop is never given a block that is already free.
\<close>

definition heap_wf :: "nat list \<Rightarrow> nat \<Rightarrow> bool" where
  "heap_wf heap fresh \<longleftrightarrow> distinct heap \<and> (\<forall>p \<in> set heap. p < fresh)"

lemma heap_wf_malloc [simp]: "heap_wf heap fresh \<Longrightarrow> heap_wf (fresh # heap) (Suc fresh)"
  by (auto simp: heap_wf_def less_Suc_eq)

lemma heap_wf_free [simp]: "heap_wf heap fresh \<Longrightarrow> heap_wf (remove1 p heap) fresh"
  by (auto simp: heap_wf_def)

definition altstack_inv :: "sh_state \<Rightarrow> bool" where
  "altstack_inv st \<longleftrightarrow> heap_wf (k_heap (sh_kernel st)) (k_fresh (sh_kernel st)) \<and>
     (\<forall>p. ss_sp (sh_stack st) = Some p \<longrightarrow> p \<in> set (k_heap (sh_kernel st)))"

lemma altstack_inv_frame:
  assumes "altstack_inv st" "sh_stack st' = sh_stack st" "k_heap (sh_kernel st') = k_heap (sh_kernel st)"
    "k_fresh (sh_kernel st') = k_fresh (sh_kernel st)"
  shows "altstack_inv st'"
  using assms by (simp add: altstack_inv_def)

lemma uninstall_all_fresh [simp]: "k_fresh (uninstall_all os ss k) = k_fresh k"
  by (induction ss arbitrary: k) (auto simp: sigaction_def split: prod.splits)

lemma install_all_keeps:
  "install_all os ss k = (ss', k') \<Longrightarrow> k_heap k' = k_heap k \<and> k_fresh k' = k_fresh k"
  by (induction ss arbitrary: k ss') (auto simp: install_handler_def sigaction_def Let_def split: prod.splits if_splits)

lemma altstack_inv_uninstall: "altstack_inv st \<Longrightarrow> altstack_inv (uninstall_handler os st)"
  by (erule altstack_inv_frame) (simp_all add: uninstall_handler_def)

lemma altstack_inv_dealloc: "altstack_inv st \<Longrightarrow> altstack_inv (dealloc st)"
  by (simp add: altstack_inv_def dealloc_def split: option.splits)

lemma altstack_inv_initialize:
  assumes "altstack_inv st" "signal_handler_initialize n os st = Returns (r, st')"
  shows "altstack_inv st'"
  using assms
  by (auto simp: altstack_inv_def signal_handler_initialize_def bind_Returns mutex_lock_Returns mutex_unlock_eq
      set_sigstack_def malloc_def start_installer_def block_signal_def unblock_signal_def Let_def split: if_splits)

lemma altstack_inv_shutdown:
  assumes "altstack_inv st" "signal_handler_shutdown os st = Returns st'"
  shows "altstack_inv st'"
proof -
  have "altstack_inv (st\<lparr>sh_locked := l\<rparr>)" for l by (rule altstack_inv_frame [OF assms(1)]) simp_all
  then have "altstack_inv (dealloc (uninstall_handler os (st\<lparr>sh_locked := l\<rparr>)))" for l
    by (rule altstack_inv_dealloc [OF altstack_inv_uninstall])
  then have "altstack_inv ((dealloc (uninstall_handler os (st\<lparr>sh_locked := l\<rparr>)))\<lparr>sh_locked := l'\<rparr>)" for l l'
    by (rule altstack_inv_frame) simp_all
  then show ?thesis
    using assms by (auto simp: signal_handler_shutdown_def bind_Returns mutex_lock_Returns mutex_unlock_eq split: if_splits)
qed

text \<open>An interception allocates and frees nothing.\<close>

lemma invoke_previous_frame:
  assumes "invoke_previous_sigaction os signo st = Returns st'"
  shows "sh_stack st' = sh_stack st" "sh_kernel st' = sh_kernel st" "sh_initialized st' = sh_initialized st"
proof -
  have "sh_stack (fold (\<lambda>s st. if os_signo s = signo then invoke_sigaction signo (os_sa_previous s) st else st) ss st) =
      sh_stack st \<and>
    sh_kernel (fold (\<lambda>s st. if os_signo s = signo then invoke_sigaction signo (os_sa_previous s) st else st) ss st) =
      sh_kernel st \<and>
    sh_initialized (fold (\<lambda>s st. if os_signo s = signo then invoke_sigaction signo (os_sa_previous s) st else st) ss st) =
      sh_initialized st" for ss :: "observed_signal list" and st
    by (induction ss arbitrary: st) (simp_all add: invoke_sigaction_def)
  then show "sh_stack st' = sh_stack st" "sh_kernel st' = sh_kernel st" "sh_initialized st' = sh_initialized st"
    using assms by (auto simp: invoke_previous_sigaction_def bind_Returns mutex_lock_Returns mutex_unlock_eq Let_def split: if_splits)
qed

lemma altstack_inv_interceptor:
  assumes "altstack_inv st" "interceptor b w t d os signo (Some si) uc st = Returns st'"
  shows "altstack_inv st'"
proof (cases "sh_intercepting st \<noteq> 0 \<or> observed_signal_get_or_null signo (sh_signals st) = None")
  case True
  then show ?thesis
    using assms(2) by (intro altstack_inv_frame [OF assms(1)]) (auto simp: interceptor_early)
next
  case False
  then obtain i where i: "observed_signal_get_or_null signo (sh_signals st) = Some i" by auto
  obtain ok buf where cb: "collect_backtrace b w BACKTRACE_SZ_MAX (Some si) uc = Some (ok, buf)"
    by (simp add: collect_backtrace_def Let_def)
  have "sh_intercepting st = 0" using False by simp
  from assms(2) [unfolded interceptor_stages [OF this i cb]] obtain fs s3 where
    s3: "invoke_previous_sigaction os signo (uninstall_handler os ((entered i st)\<lparr>sh_files := fs\<rparr>)) = Returns s3"
    and st': "st' = finished i s3"
    by (auto simp: bind_Returns)
  have "altstack_inv ((entered i st)\<lparr>sh_files := fs\<rparr>)"
    by (rule altstack_inv_frame [OF assms(1)]) (simp_all add: entered_def count_callers_def Let_def)
  then have "altstack_inv (uninstall_handler os ((entered i st)\<lparr>sh_files := fs\<rparr>))" by (rule altstack_inv_uninstall)
  then show ?thesis
    by (rule altstack_inv_frame)
      (simp_all add: st' finished_def count_callers_def Let_def invoke_previous_frame(1,2) [OF s3])
qed

lemma altstack_inv_step: "sh_step good st st' \<Longrightarrow> altstack_inv st \<Longrightarrow> altstack_inv st'"
proof (induction rule: sh_step.induct)
  case (Install os st m)
  show ?case
    by (rule altstack_inv_frame [OF Install(3)])
      (auto simp: install_signal_observers_def Let_def dest: install_all_keeps split: prod.splits)
next
  case (Application act st signo)
  show ?case by (rule altstack_inv_frame [OF Application(2)]) simp_all
qed (blast intro: altstack_inv_initialize altstack_inv_shutdown altstack_inv_interceptor)+

lemma altstack_inv_run: "(sh_step good)\<^sup>*\<^sup>* st st' \<Longrightarrow> altstack_inv st \<Longrightarrow> altstack_inv st'"
  by (induction rule: rtranclp_induct) (auto intro: altstack_inv_step)

section \<open>An action that is given back\<close>

text \<open>
  What the steps leave out. When other code saved the action of a signal while the agent was
  started and gives it back after the stop, the next start finds the interceptor as the previous
  action and remembers it; from then on the interceptor chains to itself.
\<close>

theorem restored_action_self_chains:
  assumes "system_ok os" "\<not> sh_locked st" "sh_initialized st = 0" "distinct (signos (sh_signals st))"
    "signo \<in> set (signos (sh_signals st))" "k_disp (sh_kernel st) signo = interceptor_action"
  shows "\<exists>st' st''. start_up n os st = Returns st' \<and> prev_of (sh_signals st') signo = Some interceptor_action \<and>
    invoke_previous_sigaction os signo st' = Returns st'' \<and>
    sh_events st'' = sh_events st' @ [Called_sigaction Interceptor signo]"
proof -
  have prev: "prev_of (map (\<lambda>s. s\<lparr>os_sa_previous := f (os_signo s)\<rparr>) ss) n =
      (if n \<in> set (signos ss) then Some (f n) else None)" for f n and ss :: "observed_signal list"
    by (induction ss) auto
  obtain st' where st': "start_up n os st = Returns st'" "\<not> sh_locked st'" "distinct (signos (sh_signals st'))"
    "prev_of (sh_signals st') signo = Some interceptor_action"
    using assms by (auto simp: start_up_def initialize_ok install_ok prev)
  have "chained_events signo interceptor_action = [Called_sigaction Interceptor signo]"
    by (simp add: chained_events_def interceptor_action_def SA_SIGINFO_def SA_ONSTACK_def)
  moreover have "so_lock os" "so_unlock os" using assms(1) by (simp_all add: system_ok_def)
  ultimately show ?thesis
    using st' by (simp add: invoke_previous_sigaction_def mutex_lock_def mutex_unlock_def invoke_fold_one)
qed

theorem restored_action_self_chains_witness:
  "\<exists>st' st''. start_up 8192 sh_all_ok (loaded (sample_kernel\<lparr>k_disp := (k_disp sample_kernel)(SIGSEGV := interceptor_action)\<rparr>)
       Map.empty) = Returns st' \<and>
     invoke_previous_sigaction sh_all_ok SIGSEGV st' = Returns st'' \<and>
     sh_events st'' = sh_events st' @ [Called_sigaction Interceptor SIGSEGV]"
  using restored_action_self_chains [of sh_all_ok "loaded (sample_kernel\<lparr>k_disp := (k_disp sample_kernel)(SIGSEGV := interceptor_action)\<rparr>)
       Map.empty" SIGSEGV 8192] signos_observed
  by (auto simp: loaded_def)

end
