(* ===== verification/Anr_Handler.thy ===== *)
theory Anr_Handler
  imports Serializer
begin

text \<open>
  \<open>anr-handler.cpp\<close>: finding the runtime's ANR thread, the SIGQUIT interceptor, the watchdog
  thread that passes the signal on, and start and stop. The calling thread, the watchdog and
  the interceptor run concurrently: start, stop and the watchdog are cut into steps at their
  blocking and publishing points, with a program counter each, and \<open>anr_step\<close> interleaves them.
  The signal masks are left out: what the interceptor blocks the return from it restores, and
  the unblocking at the start only makes a delivery possible, which \<open>anr_step\<close> always allows.
\<close>

unbundle bit_operations_syntax

section \<open>Finding the runtime's thread\<close>

definition ANR_THREAD_NAME :: string where
  "ANR_THREAD_NAME = ''Signal Catcher''"

definition ANR_SIGBLK_LABEL :: string where
  "ANR_SIGBLK_LABEL = ''SigBlk:'' @ [CHR 0x09]"

definition ANR_THREAD_SIGBLK :: "64 word" where
  "ANR_THREAD_SIGBLK = 0x1000"

text \<open>The \<open>fgets\<close> loop over the status file: the mask of the first line with the label, else 0.\<close>

function read_sigblk :: "string \<Rightarrow> 64 word" where
  "read_sigblk content =
     (case fgets 1024 content of
        None \<Rightarrow> 0
      | Some (buff, rest) \<Rightarrow>
          if strncmp_eq buff ANR_SIGBLK_LABEL (length ANR_SIGBLK_LABEL)
          then strtoull 16 (drop (length ANR_SIGBLK_LABEL) (c_str buff))
          else read_sigblk rest)"
  by auto
termination
  by (relation "measure length") (auto dest: fgets_shorter)

declare read_sigblk.simps [simp del]

definition sigblk_of :: "build \<Rightarrow> filesystem \<Rightarrow> cint \<Rightarrow> cint \<Rightarrow> 64 word" where
  "sigblk_of b fs pid tid =
     (case fs_read fs (get_thread_status_path b pid tid) of
        None \<Rightarrow> 0
      | Some content \<Rightarrow> read_sigblk content)"

text \<open>The \<open>readdir\<close> loop; \<open>found\<close> is the static \<open>anr_monitor_tid\<close>, \<open>-1\<close> while unknown.\<close>

fun detect_entries :: "build \<Rightarrow> filesystem \<Rightarrow> cint \<Rightarrow> string list \<Rightarrow> cint \<Rightarrow> cint" where
  "detect_entries b fs pid [] found = found"
| "detect_entries b fs pid (name # names) found =
     (if \<not> (case name of c # _ \<Rightarrow> isdigit c | [] \<Rightarrow> False) then detect_entries b fs pid names found
      else
        (let tid = word_of_int (strtol (abi_bits b) name);
             threadName = get_thread_name b fs pid tid;
             found = (if strncmp_eq threadName ANR_THREAD_NAME (length ANR_THREAD_NAME) then
                        (if sigblk_of b fs pid tid AND ANR_THREAD_SIGBLK = ANR_THREAD_SIGBLK then tid else found)
                      else found)
         in if found \<noteq> -1 then found else detect_entries b fs pid names found))"

text \<open>A task directory that cannot be opened is a null pointer, which \<open>readdir\<close> dereferences.\<close>

definition detect_android_anr_handler :: "build \<Rightarrow> filesystem \<Rightarrow> cint \<Rightarrow> cint \<Rightarrow> (bool \<times> cint) outcome" where
  "detect_android_anr_handler b fs pid found =
     (case fs_dir fs (get_task_path b pid) of
        None \<Rightarrow> Faults
      | Some names \<Rightarrow> (let found = detect_entries b fs pid names found in Returns (found \<noteq> -1, found)))"

section \<open>State\<close>

text \<open>The watchdog: not running, at the head of its loop, about to choose how it waits, in
  \<open>sem_wait\<close>, polling, about to raise, about to unblock, and returned.\<close>

datatype watchdog = W_none | W_head | W_wait | W_sem | W_poll | W_raise | W_unblock | W_stopped

text \<open>The thread that starts and stops: idle, in \<open>anr_handler_initialize\<close> before the named
  step, in \<open>anr_handler_shutdown\<close> before the named step.\<close>

datatype control = Idle | I_sem_init | I_install | I_alloc | I_enable | S_post | S_join | S_close

record anr_state =
  an_pid :: cint
  an_monitor_tid :: cint
  an_enabled :: bool
  an_triggered :: bool
  an_has_thread :: bool
  an_sem :: nat
  an_must_poll :: bool
  an_buffer :: bool
  an_watchdog :: watchdog
  an_control :: control
  an_disp :: handler
  an_files :: files
  an_raised :: "(cint \<times> cint) list"

definition anr_loaded :: "cint \<Rightarrow> handler \<Rightarrow> files \<Rightarrow> anr_state" where
  "anr_loaded pid h fs =
     \<lparr>an_pid = pid, an_monitor_tid = -1, an_enabled = True, an_triggered = False, an_has_thread = False,
      an_sem = 0, an_must_poll = False, an_buffer = False, an_watchdog = W_none, an_control = Idle,
      an_disp = h, an_files = fs, an_raised = []\<rparr>"

section \<open>The watchdog thread\<close>

text \<open>
  One step of \<open>anr_monitor_thread\<close>; \<open>waited\<close> is whether \<open>sem_wait\<close> succeeds. Waiting on a
  semaphore that is zero is no step, unless the wait fails; sleeping while polling leaves the
  state as it is.
\<close>

definition watchdog_step :: "bool \<Rightarrow> anr_state \<Rightarrow> anr_state option" where
  "watchdog_step waited st =
     (case an_watchdog st of
        W_head \<Rightarrow>
          Some (if an_enabled st then st\<lparr>an_triggered := False, an_watchdog := W_wait\<rparr>
                else st\<lparr>an_watchdog := W_stopped\<rparr>)
      | W_wait \<Rightarrow> Some (st\<lparr>an_watchdog := if an_must_poll st then W_poll else W_sem\<rparr>)
      | W_sem \<Rightarrow>
          (if \<not> waited then Some (st\<lparr>an_watchdog := W_poll\<rparr>)
           else if an_sem st > 0 then Some (st\<lparr>an_sem := an_sem st - 1, an_watchdog := W_raise\<rparr>)
           else None)
      | W_poll \<Rightarrow>
          Some (if an_enabled st \<and> \<not> an_triggered st then st else st\<lparr>an_watchdog := W_raise\<rparr>)
      | W_raise \<Rightarrow>
          (let st = (if an_enabled st \<and> 0 \<le> sint (an_pid st) \<and> 0 \<le> sint (an_monitor_tid st)
                     then st\<lparr>an_raised := an_raised st @ [(an_pid st, an_monitor_tid st)]\<rparr> else st)
           in Some (st\<lparr>an_watchdog := W_unblock\<rparr>))
      | W_unblock \<Rightarrow> Some (st\<lparr>an_watchdog := W_head\<rparr>)
      | _ \<Rightarrow> None)"

section \<open>The interceptor\<close>

definition sem_post :: "bool \<Rightarrow> anr_state \<Rightarrow> bool \<times> anr_state" where
  "sem_post ok st = (if ok then (True, st\<lparr>an_sem := Suc (an_sem st)\<rparr>) else (False, st))"

definition anr_interceptor ::
  "build \<Rightarrow> world \<Rightarrow> wall_clock \<Rightarrow> disk \<Rightarrow> bool \<Rightarrow> siginfo \<Rightarrow> mcontext option \<Rightarrow> anr_state \<Rightarrow> anr_state" where
  "anr_interceptor b w t d posted si uc st =
     (let st = (if an_enabled st \<and> an_buffer st then
                  (case collect_backtrace b w BACKTRACE_SZ_MAX (Some si) uc of
                     Some (True, reportBuffer) \<Rightarrow>
                       st\<lparr>an_files := from_anr (w_native w) t d reportBuffer BACKTRACE_SZ_MAX (an_files st)\<rparr>
                   | _ \<Rightarrow> st)
                else st);
          st = st\<lparr>an_triggered := True\<rparr>
      in if \<not> an_must_poll st then
           (let (ok, st) = sem_post posted st in if ok then st else st\<lparr>an_must_poll := True\<rparr>)
         else st)"

section \<open>Start and stop\<close>

text \<open>The steps of \<open>anr_handler_initialize\<close>; \<open>False\<close> in \<open>created\<close> makes it return false.\<close>

definition init_begin :: "build \<Rightarrow> filesystem \<Rightarrow> cint \<Rightarrow> bool \<Rightarrow> anr_state \<Rightarrow> anr_state outcome" where
  "init_begin b fs pid created st =
     bind_outcome (detect_android_anr_handler b fs pid (an_monitor_tid st)) (\<lambda>(_, found).
       let st = st\<lparr>an_monitor_tid := found\<rparr>
       in Returns (if created
                   then st\<lparr>an_has_thread := True, an_watchdog := W_head, an_control := I_sem_init\<rparr>
                   else st))"

text \<open>\<open>sem_init\<close> sets the value; what becomes of a thread that already waits, POSIX does not say, and
  here it goes on waiting (\<open>Anr_Safety\<close> has the runs with and without such a thread).\<close>

definition init_sem :: "bool \<Rightarrow> anr_state \<Rightarrow> anr_state" where
  "init_sem ok st =
     (let st = (if ok then st\<lparr>an_sem := 0\<rparr> else st)
      in st\<lparr>an_must_poll := \<not> ok, an_control := I_install\<rparr>)"

definition init_install :: "bool \<Rightarrow> anr_state \<Rightarrow> anr_state" where
  "init_install ok st = (if ok then st\<lparr>an_disp := Anr_Interceptor\<rparr> else st)\<lparr>an_control := I_alloc\<rparr>"

definition init_alloc :: "anr_state \<Rightarrow> anr_state" where
  "init_alloc st = st\<lparr>an_buffer := True, an_control := I_enable\<rparr>"

definition init_enable :: "anr_state \<Rightarrow> anr_state" where
  "init_enable st = st\<lparr>an_enabled := True, an_control := Idle\<rparr>"

definition shutdown_begin :: "anr_state \<Rightarrow> anr_state" where
  "shutdown_begin st = st\<lparr>an_enabled := False, an_control := S_post\<rparr>"

definition shutdown_post :: "bool \<Rightarrow> anr_state \<Rightarrow> anr_state" where
  "shutdown_post posted st =
     (let st = (if \<not> an_must_poll st then snd (sem_post posted st) else st)
      in st\<lparr>an_control := if an_has_thread st then S_join else S_close\<rparr>)"

text \<open>\<open>pthread_join\<close> waits for the watchdog's return.\<close>

definition shutdown_join :: "anr_state \<Rightarrow> anr_state option" where
  "shutdown_join st =
     (if an_watchdog st = W_stopped then Some (st\<lparr>an_has_thread := False, an_watchdog := W_none, an_control := S_close\<rparr>)
      else None)"

definition reset_android_anr_handler :: "anr_state \<Rightarrow> anr_state" where
  "reset_android_anr_handler st = st\<lparr>an_pid := 0, an_monitor_tid := -1, an_buffer := False\<rparr>"

definition shutdown_close :: "anr_state \<Rightarrow> anr_state" where
  "shutdown_close st = reset_android_anr_handler (st\<lparr>an_triggered := False, an_control := Idle\<rparr>)"

text \<open>The watchdog alone, for a number of steps.\<close>

fun run_watchdog :: "nat \<Rightarrow> anr_state \<Rightarrow> anr_state" where
  "run_watchdog 0 st = st"
| "run_watchdog (Suc n) st = (case watchdog_step True st of Some st' \<Rightarrow> run_watchdog n st' | None \<Rightarrow> st)"


text \<open>
  The two functions run without interruption but for the watchdog, which the join waits for: on
  its own it has returned or waits for ever after five steps.
\<close>

definition anr_handler_initialize ::
  "build \<Rightarrow> filesystem \<Rightarrow> cint \<Rightarrow> bool \<Rightarrow> bool \<Rightarrow> bool \<Rightarrow> anr_state \<Rightarrow> (bool \<times> anr_state) outcome" where
  "anr_handler_initialize b fs pid created sem installed st =
     bind_outcome (init_begin b fs pid created st) (\<lambda>st.
       if \<not> created then Returns (False, st)
       else
         (let st = init_enable (init_alloc (init_install installed (init_sem sem st)))
          in Returns (an_enabled st, st)))"

definition anr_handler_shutdown :: "bool \<Rightarrow> anr_state \<Rightarrow> anr_state outcome" where
  "anr_handler_shutdown posted st =
     (let st = shutdown_post posted (shutdown_begin st)
      in if an_control st = S_join then
           (case shutdown_join (run_watchdog 5 st) of
              None \<Rightarrow> Blocks
            | Some st \<Rightarrow> Returns (shutdown_close st))
         else Returns (shutdown_close st))"

end
