(* ===== verification/Anr_Safety.thy ===== *)
theory Anr_Safety
  imports Anr_Handler
begin

text \<open>
  Properties of \<open>anr-handler.cpp\<close>: which thread detection finds and the watchdog signals, that a
  stop ends the watchdog and when it does not, and what is left working after a stop.
\<close>

section \<open>What detection finds\<close>

text \<open>A numeric task entry of a thread that has the name and blocks the signal of the mask.\<close>

definition is_catcher :: "build \<Rightarrow> filesystem \<Rightarrow> cint \<Rightarrow> string \<Rightarrow> bool" where
  "is_catcher b fs pid name \<longleftrightarrow>
     numeric_entry name \<and>
     strncmp_eq (get_thread_name b fs pid (entry_tid b name)) ANR_THREAD_NAME (length ANR_THREAD_NAME) \<and>
     sigblk_of b fs pid (entry_tid b name) AND ANR_THREAD_SIGBLK = ANR_THREAD_SIGBLK"

lemma detect_entries_find:
  "detect_entries b fs pid names (-1) =
    (case find (\<lambda>n. is_catcher b fs pid n \<and> entry_tid b n \<noteq> -1) names of
       Some n \<Rightarrow> entry_tid b n | None \<Rightarrow> -1)"
proof (induction names)
  case (Cons name names)
  have "(\<not> (case name of c # _ \<Rightarrow> isdigit c | [] \<Rightarrow> False)) = (\<not> numeric_entry name)"
    by (simp add: numeric_entry_def split: list.splits)
  then show ?case
    using Cons by (auto simp: is_catcher_def entry_tid_def Let_def)
qed simp

lemma detect_entries_in:
  "detect_entries b fs pid names found \<in> {found, -1} \<union> entry_tid b ` {n \<in> set names. is_catcher b fs pid n}"
proof (induction names arbitrary: found)
  case (Cons name names)
  have numeric: "(\<not> (case name of c # _ \<Rightarrow> isdigit c | [] \<Rightarrow> False)) = (\<not> numeric_entry name)"
    by (simp add: numeric_entry_def split: list.splits)
  show ?case
    using Cons.IH [of found] Cons.IH [of "-1"]
    by (auto simp: numeric is_catcher_def Let_def simp flip: entry_tid_def)
qed simp

section \<open>Every interleaving\<close>

text \<open>
  \<open>sems\<close>: \<open>sem_init\<close> and \<open>sem_post\<close> always succeed. A start while a watchdog is running is left
  out: it would put a second watchdog next to the first (\<open>Anr_Race\<close>). The source creates the
  watchdog before it initializes the semaphore, so the watchdog may wait on it first; POSIX leaves
  that undefined. A step here takes such a wait for one on a semaphore of value 0, which the static
  object's bytes suggest, and its waiter for one that a later post wakes. \<open>orderly_step\<close> leaves
  these runs out, and \<open>early_wait_hangs_stop\<close> shows what follows when the waiter is lost.
\<close>

inductive anr_step :: "build \<Rightarrow> filesystem \<Rightarrow> cint \<Rightarrow> bool \<Rightarrow> anr_state \<Rightarrow> anr_state \<Rightarrow> bool"
  for b fs pid sems where
  Begin: "an_control st = Idle \<Longrightarrow> an_watchdog st = W_none \<Longrightarrow> init_begin b fs pid created st = Returns st' \<Longrightarrow>
    anr_step b fs pid sems st st'"
| Sem_init: "an_control st = I_sem_init \<Longrightarrow> ok \<or> \<not> sems \<Longrightarrow> anr_step b fs pid sems st (init_sem ok st)"
| Install: "an_control st = I_install \<Longrightarrow> anr_step b fs pid sems st (init_install ok st)"
| Alloc: "an_control st = I_alloc \<Longrightarrow> anr_step b fs pid sems st (init_alloc st)"
| Enable: "an_control st = I_enable \<Longrightarrow> anr_step b fs pid sems st (init_enable st)"
| Shutdown: "an_control st = Idle \<Longrightarrow> anr_step b fs pid sems st (shutdown_begin st)"
| Post: "an_control st = S_post \<Longrightarrow> ok \<or> \<not> sems \<Longrightarrow> anr_step b fs pid sems st (shutdown_post ok st)"
| Join: "an_control st = S_join \<Longrightarrow> shutdown_join st = Some st' \<Longrightarrow> anr_step b fs pid sems st st'"
| Close: "an_control st = S_close \<Longrightarrow> anr_step b fs pid sems st (shutdown_close st)"
| Watchdog: "watchdog_step waited st = Some st' \<Longrightarrow> anr_step b fs pid sems st st'"
| Quit: "an_disp st = Anr_Interceptor \<Longrightarrow> ok \<or> \<not> sems \<Longrightarrow>
    anr_step b fs pid sems st (anr_interceptor b w t d ok si uc st)"

definition anr_reachable :: "build \<Rightarrow> filesystem \<Rightarrow> cint \<Rightarrow> bool \<Rightarrow> anr_state \<Rightarrow> bool" where
  "anr_reachable b fs pid sems st \<longleftrightarrow> (\<exists>h files. (anr_step b fs pid sems)\<^sup>*\<^sup>* (anr_loaded pid h files) st)"

lemma anr_reachable_induct [consumes 1, case_names loaded step]:
  assumes "anr_reachable b fs pid sems st"
    and "\<And>h files. P (anr_loaded pid h files)"
    and "\<And>st st'. P st \<Longrightarrow> anr_step b fs pid sems st st' \<Longrightarrow> P st'"
  shows "P st"
proof -
  obtain h files where steps: "(anr_step b fs pid sems)\<^sup>*\<^sup>* (anr_loaded pid h files) st"
    using assms(1) by (auto simp: anr_reachable_def)
  then show ?thesis
    by (induction rule: rtranclp_induct) (auto intro: assms(2,3))
qed

lemma anr_interceptor_frame [simp]:
  "an_pid (anr_interceptor b w t d ok si uc st) = an_pid st"
  "an_monitor_tid (anr_interceptor b w t d ok si uc st) = an_monitor_tid st"
  "an_enabled (anr_interceptor b w t d ok si uc st) = an_enabled st"
  "an_has_thread (anr_interceptor b w t d ok si uc st) = an_has_thread st"
  "an_buffer (anr_interceptor b w t d ok si uc st) = an_buffer st"
  "an_watchdog (anr_interceptor b w t d ok si uc st) = an_watchdog st"
  "an_control (anr_interceptor b w t d ok si uc st) = an_control st"
  "an_disp (anr_interceptor b w t d ok si uc st) = an_disp st"
  "an_raised (anr_interceptor b w t d ok si uc st) = an_raised st"
  by (auto simp: anr_interceptor_def sem_post_def Let_def split: option.splits bool.splits)

lemma anr_interceptor_sem:
  "an_sem st \<le> an_sem (anr_interceptor b w t d ok si uc st)"
  "\<not> an_must_poll (anr_interceptor b w t d ok si uc st) \<longleftrightarrow> \<not> an_must_poll st \<and> ok"
  by (auto simp: anr_interceptor_def sem_post_def Let_def split: option.splits bool.splits)

lemma init_begin_Returns:
  assumes "init_begin b fs pid created st = Returns st'"
  shows "\<exists>found \<in> {an_monitor_tid st, -1} \<union> entry_tid b ` {n. is_catcher b fs pid n}.
    st' = (if created then st\<lparr>an_monitor_tid := found, an_has_thread := True, an_watchdog := W_head,
                              an_control := I_sem_init\<rparr>
           else st\<lparr>an_monitor_tid := found\<rparr>)"
proof (cases "fs_dir fs (get_task_path b pid)")
  case None
  with assms show ?thesis by (simp add: init_begin_def detect_android_anr_handler_def)
next
  case (Some names)
  with assms have "st' = (if created then st\<lparr>an_monitor_tid := detect_entries b fs pid names (an_monitor_tid st),
      an_has_thread := True, an_watchdog := W_head, an_control := I_sem_init\<rparr>
    else st\<lparr>an_monitor_tid := detect_entries b fs pid names (an_monitor_tid st)\<rparr>)"
    by (simp add: init_begin_def detect_android_anr_handler_def bind_Returns Let_def)
  moreover have "detect_entries b fs pid names (an_monitor_tid st) \<in>
      {an_monitor_tid st, -1} \<union> entry_tid b ` {n. is_catcher b fs pid n}"
    using detect_entries_in [of b fs pid names "an_monitor_tid st"] by auto
  ultimately show ?thesis by (intro bexI)
qed

section \<open>Stopping ends\<close>

text \<open>
  The invariant of the handshake: a stop that waits for the watchdog has disabled it and has
  left it a post to find.
\<close>

definition stop_inv :: "anr_state \<Rightarrow> bool" where
  "stop_inv st \<longleftrightarrow> (an_has_thread st \<longleftrightarrow> an_watchdog st \<noteq> W_none) \<and> \<not> an_must_poll st \<and>
     (case an_control st of
        Idle \<Rightarrow> True
      | S_post \<Rightarrow> \<not> an_enabled st
      | S_join \<Rightarrow> \<not> an_enabled st \<and> an_watchdog st \<noteq> W_none \<and> (an_watchdog st = W_wait \<or> an_watchdog st = W_sem \<longrightarrow> an_sem st > 0)
      | S_close \<Rightarrow> \<not> an_enabled st \<and> an_watchdog st = W_none
      | _ \<Rightarrow> an_watchdog st \<noteq> W_none)"

text \<open>What each step of the watchdog does, by its program counter.\<close>

lemma watchdog_step_simps:
  "an_watchdog st = W_none \<Longrightarrow> watchdog_step waited st = None"
  "an_watchdog st = W_stopped \<Longrightarrow> watchdog_step waited st = None"
  "an_watchdog st = W_head \<Longrightarrow> watchdog_step waited st =
     Some (if an_enabled st then st\<lparr>an_triggered := False, an_watchdog := W_wait\<rparr> else st\<lparr>an_watchdog := W_stopped\<rparr>)"
  "an_watchdog st = W_wait \<Longrightarrow>
     watchdog_step waited st = Some (st\<lparr>an_watchdog := if an_must_poll st then W_poll else W_sem\<rparr>)"
  "an_watchdog st = W_sem \<Longrightarrow> watchdog_step waited st =
     (if \<not> waited then Some (st\<lparr>an_watchdog := W_poll\<rparr>)
      else if an_sem st > 0 then Some (st\<lparr>an_sem := an_sem st - 1, an_watchdog := W_raise\<rparr>) else None)"
  "an_watchdog st = W_poll \<Longrightarrow> watchdog_step waited st =
     Some (if an_enabled st \<and> \<not> an_triggered st then st else st\<lparr>an_watchdog := W_raise\<rparr>)"
  "an_watchdog st = W_raise \<Longrightarrow> watchdog_step waited st =
     Some (if an_enabled st \<and> 0 \<le> sint (an_pid st) \<and> 0 \<le> sint (an_monitor_tid st)
           then st\<lparr>an_raised := an_raised st @ [(an_pid st, an_monitor_tid st)], an_watchdog := W_unblock\<rparr>
           else st\<lparr>an_watchdog := W_unblock\<rparr>)"
  "an_watchdog st = W_unblock \<Longrightarrow> watchdog_step waited st = Some (st\<lparr>an_watchdog := W_head\<rparr>)"
  by (simp_all add: watchdog_step_def)

lemma watchdog_step_frame:
  assumes "watchdog_step waited st = Some st'"
  shows "an_control st' = an_control st" "an_has_thread st' = an_has_thread st" "an_enabled st' = an_enabled st"
    "an_must_poll st' = an_must_poll st" "an_disp st' = an_disp st" "an_pid st' = an_pid st"
    "an_monitor_tid st' = an_monitor_tid st" "an_buffer st' = an_buffer st" "an_files st' = an_files st"
  using assms by (cases "an_watchdog st"; force simp: watchdog_step_simps split: if_splits)+

lemma watchdog_step_pc:
  assumes "watchdog_step waited st = Some st'"
  shows "an_watchdog st \<noteq> W_none" "an_watchdog st' \<noteq> W_none"
    "an_watchdog st' = W_wait \<Longrightarrow> an_enabled st"
    "an_watchdog st' = W_sem \<Longrightarrow> an_watchdog st = W_wait \<and> an_sem st' = an_sem st"
  using assms by (cases "an_watchdog st"; force simp: watchdog_step_simps split: if_splits)+

lemma stop_inv_watchdog:
  assumes "stop_inv st" "watchdog_step waited st = Some st'"
  shows "stop_inv st'"
  using assms(1) watchdog_step_pc [OF assms(2)]
  by (cases "an_control st"; cases "an_watchdog st'")
    (simp_all add: stop_inv_def watchdog_step_frame [OF assms(2)])

lemma stop_inv_init_begin:
  assumes "stop_inv st" "an_control st = Idle" "init_begin b fs pid created st = Returns st'"
  shows "stop_inv st'"
proof -
  obtain found where "st' = (if created then st\<lparr>an_monitor_tid := found, an_has_thread := True,
      an_watchdog := W_head, an_control := I_sem_init\<rparr> else st\<lparr>an_monitor_tid := found\<rparr>)"
    using init_begin_Returns [OF assms(3)] by blast
  with assms(1,2) show ?thesis by (cases created) (simp_all add: stop_inv_def)
qed

lemmas anr_control_defs = init_sem_def init_install_def init_alloc_def init_enable_def
  shutdown_begin_def shutdown_post_def shutdown_join_def shutdown_close_def
  reset_android_anr_handler_def sem_post_def

lemma stop_inv_control:
  assumes "stop_inv st"
  shows "an_control st = I_sem_init \<Longrightarrow> stop_inv (init_sem True st)"
    and "an_control st = I_install \<Longrightarrow> stop_inv (init_install ok st)"
    and "an_control st = I_alloc \<Longrightarrow> stop_inv (init_alloc st)"
    and "an_control st = I_enable \<Longrightarrow> stop_inv (init_enable st)"
    and "an_control st = Idle \<Longrightarrow> stop_inv (shutdown_begin st)"
    and "an_control st = S_post \<Longrightarrow> stop_inv (shutdown_post True st)"
    and "an_control st = S_join \<Longrightarrow> shutdown_join st = Some st' \<Longrightarrow> stop_inv st'"
    and "an_control st = S_close \<Longrightarrow> stop_inv (shutdown_close st)"
proof -
  show "stop_inv st'" if "an_control st = S_join" "shutdown_join st = Some st'"
  proof -
    have "st' = st\<lparr>an_has_thread := False, an_watchdog := W_none, an_control := S_close\<rparr>"
      using that by (simp add: shutdown_join_def split: if_splits)
    with assms that show ?thesis by (simp add: stop_inv_def)
  qed
qed (use assms in \<open>simp_all add: stop_inv_def anr_control_defs Let_def\<close>)

lemma stop_inv_more_posts:
  assumes "stop_inv st" "an_has_thread st' = an_has_thread st" "an_watchdog st' = an_watchdog st"
    and "an_control st' = an_control st" "an_enabled st' = an_enabled st" "\<not> an_must_poll st'"
    and "0 < an_sem st \<Longrightarrow> 0 < an_sem st'"
  shows "stop_inv st'"
  using assms by (cases "an_control st") (simp_all add: stop_inv_def)

lemma stop_inv_interceptor:
  assumes "stop_inv st"
  shows "stop_inv (anr_interceptor b w t d True si uc st)"
proof (rule stop_inv_more_posts [OF assms])
  show "\<not> an_must_poll (anr_interceptor b w t d True si uc st)"
    using assms by (simp add: stop_inv_def anr_interceptor_sem)
  show "0 < an_sem (anr_interceptor b w t d True si uc st)" if "0 < an_sem st"
    using that by (rule less_le_trans [OF _ anr_interceptor_sem(1)])
qed simp_all

lemma stop_inv_step:
  assumes "anr_step b fs pid True st st'" "stop_inv st"
  shows "stop_inv st'"
  using assms
proof (induction rule: anr_step.induct)
  case (Begin st created st')
  then show ?case using stop_inv_init_begin by metis
next
  case (Join st st')
  then show ?case using stop_inv_control(7) by metis
next
  case (Watchdog waited st st')
  then show ?case using stop_inv_watchdog by metis
qed (simp_all add: stop_inv_control(1-6,8) stop_inv_interceptor)

lemma stop_inv_reachable: "anr_reachable b fs pid True st \<Longrightarrow> stop_inv st"
proof (induction rule: anr_reachable_induct)
  case (loaded h files)
  show ?case by (simp add: stop_inv_def anr_loaded_def)
qed (rule stop_inv_step)

lemma run_watchdog_stops:
  assumes "\<not> an_enabled st" "\<not> an_must_poll st" "an_watchdog st \<noteq> W_none"
    and "an_watchdog st = W_wait \<or> an_watchdog st = W_sem \<Longrightarrow> an_sem st > 0"
  shows "an_watchdog (run_watchdog 5 st) = W_stopped \<and> an_raised (run_watchdog 5 st) = an_raised st \<and>
    an_control (run_watchdog 5 st) = an_control st"
  using assms by (cases "an_watchdog st") (simp_all add: numeral_eq_Suc watchdog_step_simps)

text \<open>A start and a stop with nothing in between.\<close>

lemma anr_start_stop:
  assumes "fs_dir fs (get_task_path b pid) \<noteq> None" "an_control st = Idle"
  shows "\<exists>st1 st2. anr_handler_initialize b fs pid True True True st = Returns (True, st1) \<and>
    an_enabled st1 \<and> an_has_thread st1 \<and> an_buffer st1 \<and> an_disp st1 = Anr_Interceptor \<and>
    anr_handler_shutdown True st1 = Returns st2 \<and>
    \<not> an_enabled st2 \<and> \<not> an_has_thread st2 \<and> an_watchdog st2 = W_none \<and> \<not> an_buffer st2 \<and>
    an_disp st2 = Anr_Interceptor"
proof -
  obtain names where names: "fs_dir fs (get_task_path b pid) = Some names" using assms(1) by blast
  define s0 where "s0 = st\<lparr>an_monitor_tid := detect_entries b fs pid names (an_monitor_tid st), an_has_thread := True,
    an_watchdog := W_head, an_control := I_sem_init\<rparr>"
  define s1 where "s1 = init_enable (init_alloc (init_install True (init_sem True s0)))"
  define s2 where "s2 = shutdown_post True (shutdown_begin s1)"
  have s1: "an_enabled s1" "an_has_thread s1" "an_buffer s1" "an_disp s1 = Anr_Interceptor"
    by (simp_all add: s1_def s0_def init_sem_def init_install_def init_alloc_def init_enable_def)
  have s2: "\<not> an_enabled s2" "an_watchdog s2 = W_head" "an_control s2 = S_join" "an_disp s2 = Anr_Interceptor"
    by (simp_all add: s2_def s1_def s0_def init_sem_def init_install_def init_alloc_def init_enable_def
        shutdown_begin_def shutdown_post_def sem_post_def)
  have "init_begin b fs pid True st = Returns s0"
    by (simp add: Let_def init_begin_def detect_android_anr_handler_def names s0_def)
  then have "anr_handler_initialize b fs pid True True True st = Returns (True, s1)"
    using s1(1) by (simp add: anr_handler_initialize_def s1_def)
  moreover have "run_watchdog 5 s2 = s2\<lparr>an_watchdog := W_stopped\<rparr>"
    using s2 by (simp add: numeral_eq_Suc watchdog_step_simps)
  then have "anr_handler_shutdown True s1 =
      Returns (shutdown_close (s2\<lparr>an_has_thread := False, an_watchdog := W_none, an_control := S_close\<rparr>))"
    using s2(3) by (simp add: anr_handler_shutdown_def shutdown_join_def flip: s2_def)
  ultimately show ?thesis
    using s1 s2 by (simp add: shutdown_close_def reset_android_anr_handler_def)
qed

section \<open>Whom the watchdog signals\<close>

definition raise_inv :: "build \<Rightarrow> filesystem \<Rightarrow> cint \<Rightarrow> anr_state \<Rightarrow> bool" where
  "raise_inv b fs pid st \<longleftrightarrow> an_pid st \<in> {pid, 0} \<and>
     an_monitor_tid st \<in> insert (-1) (entry_tid b ` {n. is_catcher b fs pid n}) \<and>
     (\<forall>(q, t) \<in> set (an_raised st). q \<in> {pid, 0} \<and> 0 \<le> sint q \<and> 0 \<le> sint t \<and>
        t \<in> entry_tid b ` {n. is_catcher b fs pid n})"

lemma raise_inv_same:
  assumes "raise_inv b fs pid st" "an_pid st' = an_pid st" "an_monitor_tid st' = an_monitor_tid st" "an_raised st' = an_raised st"
  shows "raise_inv b fs pid st'"
  using assms by (simp add: raise_inv_def)

lemma raise_inv_watchdog:
  assumes "raise_inv b fs pid st" "watchdog_step waited st = Some st'"
  shows "raise_inv b fs pid st'"
proof (cases "an_watchdog st = W_raise \<and> an_enabled st \<and> 0 \<le> sint (an_pid st) \<and> 0 \<le> sint (an_monitor_tid st)")
  case True
  then have "st' = st\<lparr>an_raised := an_raised st @ [(an_pid st, an_monitor_tid st)], an_watchdog := W_unblock\<rparr>"
    using assms(2) by (simp add: watchdog_step_simps)
  moreover have "an_monitor_tid st \<noteq> -1" using True by auto
  ultimately show ?thesis using assms(1) True by (auto simp: raise_inv_def)
next
  case False
  then have "an_raised st' = an_raised st"
    using assms(2) by (cases "an_watchdog st"; force simp: watchdog_step_simps split: if_splits)
  then show ?thesis
    using raise_inv_same [OF assms(1)] watchdog_step_frame [OF assms(2)] by simp
qed

lemma raise_inv_begin:
  assumes "raise_inv b fs pid st" "init_begin b fs pid created st = Returns st'"
  shows "raise_inv b fs pid st'"
  using init_begin_Returns [OF assms(2)] assms(1) by (cases created) (auto simp: raise_inv_def)

lemma raise_inv_step:
  assumes "anr_step b fs pid sems st st'" "raise_inv b fs pid st"
  shows "raise_inv b fs pid st'"
  using assms
proof (induction rule: anr_step.induct)
  case (Begin st created st')
  then show ?case using raise_inv_begin by metis
next
  case (Watchdog waited st st')
  then show ?case using raise_inv_watchdog by metis
next
  case (Join st st')
  then have "st' = st\<lparr>an_has_thread := False, an_watchdog := W_none, an_control := S_close\<rparr>"
    by (simp add: shutdown_join_def split: if_splits)
  with Join show ?case by (simp add: raise_inv_def)
next
  case (Close st)
  then show ?case by (simp add: raise_inv_def shutdown_close_def reset_android_anr_handler_def)
qed (simp_all add: raise_inv_def init_sem_def init_install_def init_alloc_def init_enable_def
    shutdown_begin_def shutdown_post_def sem_post_def Let_def)


section \<open>After a stop\<close>

lemma raise_inv_reachable: "anr_reachable b fs pid sems st \<Longrightarrow> raise_inv b fs pid st"
proof (induction rule: anr_reachable_induct)
  case (loaded h files)
  show ?case by (simp add: raise_inv_def anr_loaded_def)
qed (rule raise_inv_step)

text \<open>An enabled watchdog that finds a post and the flag signals within five steps, wherever it is.\<close>

lemma watchdog_raises:
  assumes "an_enabled st" "an_triggered st" "\<not> an_must_poll st" "an_sem st > 0"
    and "an_watchdog st \<noteq> W_none" "an_watchdog st \<noteq> W_stopped" "0 \<le> sint (an_pid st)" "0 \<le> sint (an_monitor_tid st)"
  shows "\<exists>n \<le> 5. an_raised (run_watchdog n st) = an_raised st @ [(an_pid st, an_monitor_tid st)]"
proof (cases "an_watchdog st")
  case W_head
  then show ?thesis using assms by (intro exI [of _ 4]) (simp add: numeral_eq_Suc watchdog_step_simps)
next
  case W_wait
  then show ?thesis using assms by (intro exI [of _ 3]) (simp add: numeral_eq_Suc watchdog_step_simps)
next
  case W_sem
  then show ?thesis using assms by (intro exI [of _ 2]) (simp add: numeral_eq_Suc watchdog_step_simps)
next
  case W_poll
  then show ?thesis using assms by (intro exI [of _ 2]) (simp add: numeral_eq_Suc watchdog_step_simps)
next
  case W_raise
  then show ?thesis using assms by (intro exI [of _ 1]) (simp add: watchdog_step_simps)
next
  case W_unblock
  then show ?thesis using assms by (intro exI [of _ 5]) (simp add: numeral_eq_Suc watchdog_step_simps)
qed (use assms in simp_all)

text \<open>No start gives the process id back, and nothing removes the interceptor.\<close>

definition muted_inv :: "(cint \<times> cint) list \<Rightarrow> anr_state \<Rightarrow> bool" where
  "muted_inv before st \<longleftrightarrow> an_pid st = 0 \<and>
     (\<exists>xs. an_raised st = before @ xs \<and> (\<forall>x \<in> set xs. fst x = 0))"

lemma muted_watchdog:
  assumes "muted_inv before st" "watchdog_step waited st = Some st'"
  shows "muted_inv before st'"
proof -
  have "an_raised st' = an_raised st \<or> an_raised st' = an_raised st @ [(an_pid st, an_monitor_tid st)]"
    using assms(2) by (cases "an_watchdog st"; force simp: watchdog_step_simps split: if_splits)
  then show ?thesis
    using assms(1) watchdog_step_frame(6) [OF assms(2)] by (fastforce simp: muted_inv_def)
qed

lemma anr_step_frame:
  assumes "anr_step b fs pid sems st st'" "\<nexists>waited. watchdog_step waited st = Some st'"
  shows "an_raised st' = an_raised st \<and> (an_pid st' = an_pid st \<or> an_pid st' = 0) \<and>
    (an_disp st = Anr_Interceptor \<longrightarrow> an_disp st' = Anr_Interceptor)"
  using assms
proof (induction rule: anr_step.induct)
  case (Begin st created st')
  then show ?case using init_begin_Returns [OF Begin(3)] by (cases created) auto
next
  case (Join st st')
  then have "st' = st\<lparr>an_has_thread := False, an_watchdog := W_none, an_control := S_close\<rparr>"
    by (simp add: shutdown_join_def split: if_splits)
  then show ?case by simp
next
  case (Watchdog waited st st')
  then show ?case by blast
qed (simp_all add: anr_control_defs Let_def)

lemma muted_steps:
  assumes "(anr_step b fs pid sems)\<^sup>*\<^sup>* st st'" "muted_inv before st"
  shows "muted_inv before st'"
  using assms
proof (induction rule: rtranclp_induct)
  case (step s s')
  then have inv: "muted_inv before s" by simp
  show ?case
  proof (cases "\<exists>waited. watchdog_step waited s = Some s'")
    case True
    with inv muted_watchdog show ?thesis by blast
  next
    case False
    with inv show ?thesis using anr_step_frame [OF step(2) False] by (simp add: muted_inv_def)
  qed
qed

lemma interceptor_stays:
  assumes "(anr_step b fs pid sems)\<^sup>*\<^sup>* st st'" "an_disp st = Anr_Interceptor"
  shows "an_disp st' = Anr_Interceptor"
  using assms
proof (induction rule: rtranclp_induct)
  case (step s s')
  then show ?case
  proof (cases "\<exists>waited. watchdog_step waited s = Some s'")
    case True
    with step show ?thesis using watchdog_step_frame(5) by metis
  next
    case False
    with step show ?thesis using anr_step_frame [OF step(2) False] by simp
  qed
qed simp


text \<open>A polling module does not post the semaphore.\<close>

lemma interceptors_keep_stuck:
  assumes "(\<lambda>s s'. \<exists>w t d ok si uc. s' = anr_interceptor b w t d ok si uc s)\<^sup>*\<^sup>* st st'"
    and "an_must_poll st" "an_watchdog st = W_sem" "an_sem st = 0"
  shows "an_must_poll st' \<and> an_watchdog st' = W_sem \<and> an_sem st' = 0"
  using assms
proof (induction rule: rtranclp_induct)
  case (step s s')
  then have s: "an_must_poll s" "an_watchdog s = W_sem" "an_sem s = 0" by simp_all
  obtain w t d ok si uc where "s' = anr_interceptor b w t d ok si uc s" using step(2) by blast
  with s show ?case
    by (simp add: anr_interceptor_def sem_post_def Let_def split: option.splits bool.splits)
qed simp

section \<open>A sample process\<close>

text \<open>A process 7 whose task 9 is the runtime's catcher: every file read has its name as the first
  line and its blocked signals in the second.\<close>

definition quit_mask :: string where
  "quit_mask = ANR_SIGBLK_LABEL @ ''0000000000001000''"

definition quit_fs :: filesystem where
  "quit_fs = \<lparr>fs_read = (\<lambda>_. Some (ANR_THREAD_NAME @ NL # quit_mask @ NL # [])),
     fs_dir = (\<lambda>_. Some [''.'', ''..'', ''9''])\<rparr>"

lemma fgets_whole: "NL \<notin> set s \<Longrightarrow> length s < 1023 \<Longrightarrow> fgets 1024 (s @ NL # r) = Some (s @ [NL], r)"
  by (simp add: fgets_def fgets_line_whole)

lemma quit_fs_lines:
  "fgets 1024 (ANR_THREAD_NAME @ NL # r) = Some (ANR_THREAD_NAME @ [NL], r)"
  "fgets 1024 (quit_mask @ NL # r) = Some (quit_mask @ [NL], r)"
  by (rule fgets_whole; simp add: ANR_THREAD_NAME_def quit_mask_def ANR_SIGBLK_LABEL_def)+

lemma quit_fs_catcher:
  "is_catcher arm64_build quit_fs 7 ''9''" "entry_tid arm64_build ''9'' = 9"
proof -
  show tid: "entry_tid arm64_build ''9'' = 9"
    by code_simp
  have "trim_trailing_ws (c_str (ANR_THREAD_NAME @ [NL])) = ANR_THREAD_NAME"
    by code_simp
  then have name: "get_thread_name arm64_build quit_fs 7 9 = ANR_THREAD_NAME"
    by (simp add: get_thread_name_def first_line_def quit_fs_def quit_fs_lines)
  have "c_str (ANR_THREAD_NAME @ [NL]) = ANR_THREAD_NAME @ [NL]" "c_str ANR_SIGBLK_LABEL = ANR_SIGBLK_LABEL"
      "c_str (quit_mask @ [NL]) = quit_mask @ [NL]"
    by code_simp+
  then have "\<not> strncmp_eq (ANR_THREAD_NAME @ [NL]) ANR_SIGBLK_LABEL (length ANR_SIGBLK_LABEL)"
    "strncmp_eq (quit_mask @ [NL]) ANR_SIGBLK_LABEL (length ANR_SIGBLK_LABEL)"
    "drop (length ANR_SIGBLK_LABEL) (c_str (quit_mask @ [NL])) = ''0000000000001000'' @ [NL]"
    by (simp_all add: strncmp_eq_def quit_mask_def ANR_THREAD_NAME_def ANR_SIGBLK_LABEL_def)
  moreover have "strtoull 16 (''0000000000001000'' @ [NL]) = (0x1000 :: 64 word)"
    by (simp add: strtoull_def signed_prefix_def digit_val_def isdigit_def isspace_def)
  ultimately have "sigblk_of arm64_build quit_fs 7 9 = 0x1000"
    by (simp add: sigblk_of_def quit_fs_def read_sigblk.simps [of "_ @ _"] quit_fs_lines)
  moreover have "numeric_entry ''9''" by code_simp
  ultimately show "is_catcher arm64_build quit_fs 7 ''9''"
    by (simp add: is_catcher_def tid name ANR_THREAD_SIGBLK_def strncmp_eq_def)
qed

lemma quit_fs_detects: "detect_android_anr_handler arm64_build quit_fs 7 (-1) = Returns (True, 9)"
proof -
  have "\<not> numeric_entry ''.''" "\<not> numeric_entry ''..''" by code_simp+
  then have "\<not> is_catcher arm64_build quit_fs 7 ''.''" "\<not> is_catcher arm64_build quit_fs 7 ''..''"
    by (simp_all add: is_catcher_def)
  moreover have "fs_dir quit_fs p = Some [''.'', ''..'', ''9'']" for p
    by (simp add: quit_fs_def)
  ultimately show ?thesis
    using quit_fs_catcher by (simp add: detect_android_anr_handler_def detect_entries_find)
qed


lemma quit_fs_begin:
  "an_monitor_tid st = -1 \<Longrightarrow> init_begin arm64_build quit_fs 7 True st =
     Returns (st\<lparr>an_monitor_tid := 9, an_has_thread := True, an_watchdog := W_head, an_control := I_sem_init\<rparr>)"
  by (simp add: init_begin_def quit_fs_detects)

lemma anr_reachable_step:
  "anr_reachable b fs pid sems st \<Longrightarrow> anr_step b fs pid sems st st' \<Longrightarrow> anr_reachable b fs pid sems st'"
  by (auto simp: anr_reachable_def intro: rtranclp.rtrancl_into_rtrancl)

text \<open>A first start up to the installed interceptor, the watchdog having begun to wait before
  \<open>sem_init\<close>, which succeeds or not; and the steps from there to the join of a stop.\<close>

definition waiting_start :: "cint \<Rightarrow> cint \<Rightarrow> bool \<Rightarrow> anr_state" where
  "waiting_start pid tid ok = (anr_loaded pid SIG_DFL Map.empty)
     \<lparr>an_monitor_tid := tid, an_has_thread := True, an_must_poll := \<not> ok, an_watchdog := W_sem,
      an_control := I_alloc, an_disp := Anr_Interceptor\<rparr>"

definition early_wait :: "cint \<Rightarrow> cint \<Rightarrow> anr_state" where
  "early_wait pid tid = (anr_loaded pid SIG_DFL Map.empty)
     \<lparr>an_monitor_tid := tid, an_has_thread := True, an_watchdog := W_sem, an_control := I_sem_init\<rparr>"

lemma early_wait_reachable:
  assumes "detect_android_anr_handler b fs pid (-1) = Returns (found, tid)"
  shows "anr_reachable b fs pid sems (early_wait pid tid)"
proof -
  let ?R = "anr_reachable b fs pid sems"
  note step = anr_reachable_step
  define s0 where "s0 = anr_loaded pid SIG_DFL Map.empty"
  define s3 where "s3 = early_wait pid tid"
  note defs = s0_def s3_def early_wait_def anr_loaded_def anr_control_defs
  have "?R s0"
    unfolding anr_reachable_def s0_def by blast
  then have "?R (s3\<lparr>an_watchdog := W_head\<rparr>)"
    by (rule step) (rule anr_step.Begin [where created = True]; simp add: init_begin_def assms defs)
  then have "?R (s3\<lparr>an_watchdog := W_wait\<rparr>)"
    by (rule step) (rule anr_step.Watchdog [where waited = True]; simp add: watchdog_step_simps defs)
  then show "?R (early_wait pid tid)"
    by (rule step) (rule anr_step.Watchdog [where waited = True]; simp add: watchdog_step_simps defs)
qed

lemma waiting_start_reachable:
  assumes "detect_android_anr_handler b fs pid (-1) = Returns (found, tid)" "ok \<or> \<not> sems"
  shows "anr_reachable b fs pid sems (waiting_start pid tid ok)"
proof -
  let ?R = "anr_reachable b fs pid sems"
  note step = anr_reachable_step
  define s3 where "s3 = early_wait pid tid"
  note defs = s3_def early_wait_def anr_loaded_def anr_control_defs
  have "?R s3" unfolding s3_def by (rule early_wait_reachable [OF assms(1)])
  then have "?R (init_sem ok s3)"
    by (rule step) (rule anr_step.Sem_init; use assms(2) in \<open>simp add: defs\<close>)
  then have "?R (init_install True (init_sem ok s3))"
    by (rule step) (rule anr_step.Install; simp add: defs)
  then show ?thesis by (cases ok) (simp_all add: waiting_start_def defs)
qed

text \<open>The runs in which no watchdog waits on the semaphore before \<open>sem_init\<close> has returned.\<close>

definition orderly_step :: "build \<Rightarrow> filesystem \<Rightarrow> cint \<Rightarrow> anr_state \<Rightarrow> anr_state \<Rightarrow> bool" where
  "orderly_step b fs pid st st' \<longleftrightarrow>
     anr_step b fs pid True st st' \<and> \<not> (an_control st' = I_sem_init \<and> an_watchdog st' = W_sem)"

lemma orderly_reachable:
  assumes "(orderly_step b fs pid)\<^sup>*\<^sup>* (anr_loaded pid h files) st"
  shows "anr_reachable b fs pid True st"
  using assms rtranclp_mono [of "orderly_step b fs pid" "anr_step b fs pid True"]
  by (auto simp: anr_reachable_def orderly_step_def le_fun_def)

lemma stop_steps_reachable:
  assumes "anr_reachable b fs pid sems st" "an_control st = I_alloc" "ok \<or> \<not> sems"
  shows "anr_reachable b fs pid sems (shutdown_post ok (shutdown_begin (init_enable (init_alloc st))))"
proof -
  note step = anr_reachable_step
  from assms(1) have "anr_reachable b fs pid sems (init_alloc st)"
    by (rule step) (rule anr_step.Alloc; simp add: assms)
  then have "anr_reachable b fs pid sems (init_enable (init_alloc st))"
    by (rule step) (rule anr_step.Enable; simp add: anr_control_defs)
  then have "anr_reachable b fs pid sems (shutdown_begin (init_enable (init_alloc st)))"
    by (rule step) (rule anr_step.Shutdown; simp add: anr_control_defs)
  then show ?thesis
    by (rule step) (rule anr_step.Post; use assms(3) in \<open>simp add: anr_control_defs\<close>)
qed

text \<open>The sample process while its agent starts; after a SIGQUIT; and when
  the watchdog has been joined.\<close>

definition quit_installed :: anr_state where
  "quit_installed = waiting_start 7 9 True"

definition quit_signalled :: anr_state where
  "quit_signalled = quit_installed\<lparr>an_triggered := True, an_watchdog := W_unblock, an_raised := [(7, 9)]\<rparr>"

definition quit_joined :: anr_state where
  "quit_joined = quit_installed\<lparr>an_enabled := False, an_buffer := True, an_has_thread := False,
     an_watchdog := W_none, an_control := S_close\<rparr>"

lemmas quit_defs = quit_installed_def waiting_start_def anr_loaded_def

lemma quit_installed_reachable: "anr_reachable arm64_build quit_fs 7 sems quit_installed"
  unfolding quit_installed_def by (rule waiting_start_reachable [OF quit_fs_detects]) simp

lemma quit_signalled_reachable: "anr_reachable arm64_build quit_fs 7 sems quit_signalled"
proof -
  let ?R = "anr_reachable arm64_build quit_fs 7 sems"
  note step = anr_reachable_step
  define s1 where "s1 = quit_installed\<lparr>an_triggered := True, an_sem := 1\<rparr>"
  note defs = s1_def quit_defs
  have "anr_interceptor arm64_build w t d True si uc quit_installed = s1" for w t d si uc
    by (simp add: anr_interceptor_def sem_post_def defs)
  then have "?R s1"
    using step [OF quit_installed_reachable anr_step.Quit [where ok = True]] by (simp add: quit_defs)
  then have "?R (s1\<lparr>an_sem := 0, an_watchdog := W_raise\<rparr>)"
    by (rule step) (rule anr_step.Watchdog [where waited = True]; simp add: watchdog_step_simps defs)
  then show ?thesis
    by (rule step) (rule anr_step.Watchdog [where waited = True]; simp add: watchdog_step_simps quit_signalled_def defs)
qed

text \<open>The orderly run of the sample process: a start to its end, the watchdog up to its wait,
  and a stop up to its join.\<close>

lemma orderly_stop:
  "\<exists>st. (orderly_step arm64_build quit_fs 7)\<^sup>*\<^sup>* (anr_loaded 7 SIG_DFL Map.empty) st \<and>
     an_control st = S_join \<and> an_watchdog st = W_sem"
proof -
  let ?R = "\<lambda>st. (orderly_step arm64_build quit_fs 7)\<^sup>*\<^sup>* (anr_loaded 7 SIG_DFL Map.empty) st"
  have step: "?R s'" if "?R s" "anr_step arm64_build quit_fs 7 True s s'" "\<not> (an_control s' = I_sem_init \<and> an_watchdog s' = W_sem)" for s s'
    using that by (auto simp: orderly_step_def intro: rtranclp.rtrancl_into_rtrancl)
  define s0 where "s0 = (anr_loaded 7 SIG_DFL Map.empty)\<lparr>an_monitor_tid := 9, an_has_thread := True,
    an_watchdog := W_head, an_control := I_sem_init\<rparr>"
  define s4 where "s4 = init_enable (init_alloc (init_install True (init_sem True s0)))"
  define s6 where "s6 = s4\<lparr>an_triggered := False, an_watchdog := W_sem\<rparr>"
  note defs = s0_def s4_def s6_def anr_loaded_def anr_control_defs
  have "?R s0"
    by (rule step [OF rtranclp.rtrancl_refl anr_step.Begin [where created = True]])
      (simp_all add: quit_fs_begin defs)
  then have "?R (init_sem True s0)"
    by (rule step) ((rule anr_step.Sem_init; simp add: defs), simp add: defs)
  then have "?R (init_install True (init_sem True s0))"
    by (rule step) ((rule anr_step.Install; simp add: defs), simp add: defs)
  then have "?R (init_alloc (init_install True (init_sem True s0)))"
    by (rule step) ((rule anr_step.Alloc; simp add: defs), simp add: defs)
  then have "?R s4"
    unfolding s4_def by (rule step) ((rule anr_step.Enable; simp add: defs), simp add: defs)
  then have "?R (s4\<lparr>an_triggered := False, an_watchdog := W_wait\<rparr>)"
    by (rule step) ((rule anr_step.Watchdog [where waited = True]; simp add: watchdog_step_simps defs), simp add: defs)
  then have "?R s6"
    by (rule step) ((rule anr_step.Watchdog [where waited = True]; simp add: watchdog_step_simps defs), simp add: defs)
  then have "?R (shutdown_begin s6)"
    by (rule step) ((rule anr_step.Shutdown; simp add: defs), simp add: defs)
  then have "?R (shutdown_post True (shutdown_begin s6))"
    by (rule step) ((rule anr_step.Post; simp add: defs), simp add: defs)
  moreover have "an_control (shutdown_post True (shutdown_begin s6)) = S_join"
    "an_watchdog (shutdown_post True (shutdown_begin s6)) = W_sem"
    by (simp_all add: defs)
  ultimately show ?thesis by blast
qed

section \<open>Properties\<close>

text \<open>
  Detection finds the first task of the process that has the catcher's name and blocks
  SIGQUIT, and returns its thread id; without one it returns false. A task directory that cannot
  be opened makes it fault.
\<close>

theorem detect_first_catcher:
  "detect_android_anr_handler b fs pid (-1) =
     (case fs_dir fs (get_task_path b pid) of
        None \<Rightarrow> Faults
      | Some names \<Rightarrow>
          Returns (case find (\<lambda>n. is_catcher b fs pid n \<and> entry_tid b n \<noteq> -1) names of
                     Some n \<Rightarrow> (True, entry_tid b n) | None \<Rightarrow> (False, -1)))"
proof -
  have "entry_tid b n \<noteq> -1" if "find (\<lambda>n. is_catcher b fs pid n \<and> entry_tid b n \<noteq> -1) names = Some n" for n names
    using that by (auto simp: find_Some_iff)
  then show ?thesis
    by (auto simp: detect_android_anr_handler_def detect_entries_find split: option.splits)
qed



text \<open>
  The watchdog only ever signals the runtime's thread: in every interleaving, the target of
  each signal is the process the module was loaded in (or, after a stop, process 0) and the
  thread of a task entry that has the catcher's name and blocks SIGQUIT.
\<close>

theorem anr_signals_catcher:
  assumes "anr_reachable b fs pid sems st" "(q, t) \<in> set (an_raised st)"
  shows "q \<in> {pid, 0} \<and> 0 \<le> sint t \<and> (\<exists>n. is_catcher b fs pid n \<and> entry_tid b n = t)"
  using raise_inv_reachable [OF assms(1)] assms(2) by (auto simp: raise_inv_def)


theorem anr_signals_catcher_witness:
  "an_raised quit_signalled = [(7, 9)] \<and> (\<exists>n. is_catcher arm64_build quit_fs 7 n \<and> entry_tid arm64_build n = 9)"
  using anr_signals_catcher [OF quit_signalled_reachable, of 7 9] by (simp add: quit_signalled_def)

text \<open>
  C40. A stop ends ANR handling for the life of the process, restarts included: the process id
  stays 0, so every later signal of the watchdog has target 0, which no process has; and the
  interceptor, once installed, is never removed, so the runtime does not see SIGQUIT either.
\<close>

theorem stop_mutes_anr:
  assumes "(anr_step b fs pid sems)\<^sup>*\<^sup>* (shutdown_close st) st'"
  shows "an_pid st' = 0 \<and> (\<exists>xs. an_raised st' = an_raised st @ xs \<and> (\<forall>x \<in> set xs. fst x = 0)) \<and>
    (an_disp st = Anr_Interceptor \<longrightarrow> an_disp st' = Anr_Interceptor)"
proof -
  have "muted_inv (an_raised st) (shutdown_close st)"
    by (simp add: muted_inv_def shutdown_close_def reset_android_anr_handler_def)
  then have "muted_inv (an_raised st) st'" by (rule muted_steps [OF assms])
  moreover have "an_disp st' = Anr_Interceptor" if "an_disp st = Anr_Interceptor"
    using interceptor_stays [OF assms] that by (simp add: shutdown_close_def reset_android_anr_handler_def)
  ultimately show ?thesis by (simp add: muted_inv_def)
qed

theorem stop_mutes_anr_witness:
  "\<exists>st'. init_begin arm64_build quit_fs 7 True (shutdown_close quit_joined) = Returns st' \<and>
     an_monitor_tid st' = 9 \<and> an_pid st' = 0 \<and> an_disp st' = Anr_Interceptor"
proof -
  let ?st = "shutdown_close quit_joined"
  obtain st' where st': "init_begin arm64_build quit_fs 7 True ?st = Returns st'" "an_monitor_tid st' = 9"
    using quit_fs_begin [of ?st] by (simp add: anr_control_defs)
  have "anr_step arm64_build quit_fs 7 True ?st st'"
    by (rule anr_step.Begin [OF _ _ st'(1)])
      (simp_all add: anr_control_defs quit_joined_def quit_defs)
  then show ?thesis
    using stop_mutes_anr [OF r_into_rtranclp, of _ _ _ _ quit_joined st'] st'
    by (auto simp: quit_joined_def quit_defs)
qed

text \<open>
  If \<open>sem_init\<close> fails after the watchdog has begun to wait, the stop never returns: the
  module polls from then on, so neither the interceptor nor the stop posts the semaphore the
  watchdog waits for, and the join waits for the watchdog.
\<close>

theorem failed_semaphore_hangs_stop:
  assumes "detect_android_anr_handler b fs pid (-1) = Returns (found, tid)"
  shows "\<exists>st. anr_reachable b fs pid False st \<and> an_control st = S_join \<and>
    (\<forall>st'. (\<lambda>s s'. \<exists>w t d ok si uc. s' = anr_interceptor b w t d ok si uc s)\<^sup>*\<^sup>* st st' \<longrightarrow>
       watchdog_step True st' = None \<and> shutdown_join st' = None)"
proof -
  let ?st = "shutdown_post False (shutdown_begin (init_enable (init_alloc (waiting_start pid tid False))))"
  have reach: "anr_reachable b fs pid False ?st"
    by (rule stop_steps_reachable [OF waiting_start_reachable [OF assms]]) (simp_all add: waiting_start_def)
  have stuck: "an_must_poll ?st" "an_watchdog ?st = W_sem" "an_sem ?st = 0" "an_control ?st = S_join"
    by (simp_all add: waiting_start_def anr_loaded_def anr_control_defs)
  show ?thesis
    using reach stuck(4) interceptors_keep_stuck [OF _ stuck(1-3)]
    by (intro exI [of _ ?st]) (simp add: watchdog_step_simps shutdown_join_def)
qed

theorem failed_semaphore_hangs_stop_witness:
  "\<exists>st. anr_reachable arm64_build quit_fs 7 False st \<and> an_control st = S_join \<and> shutdown_join st = None"
  using failed_semaphore_hangs_stop [OF quit_fs_detects] by blast

text \<open>
  The watchdog may wait before the semaphore is initialized. Such a state is reachable even when
  every call succeeds; if \<open>sem_init\<close> loses the waiter, which POSIX allows and a semaphore whose
  waiters mark its value does, the watchdog takes no further step, and a stop posts the semaphore
  and then waits for ever.
\<close>

theorem early_wait_hangs_stop:
  assumes "detect_android_anr_handler b fs pid (-1) = Returns (found, tid)"
  shows "\<exists>st st'. anr_reachable b fs pid True st \<and> an_control st = I_sem_init \<and> an_watchdog st = W_sem \<and>
    (\<lambda>s s'. anr_step b fs pid True s s' \<and> an_watchdog s' = an_watchdog s)\<^sup>*\<^sup>* st st' \<and>
    an_control st' = S_join \<and> an_sem st' > 0 \<and> shutdown_join st' = None"
proof -
  define Q where "Q = (\<lambda>s s'. anr_step b fs pid True s s' \<and> an_watchdog s' = an_watchdog s)"
  define s0 where "s0 = early_wait pid tid"
  define s2 where "s2 = init_install True (init_sem True s0)"
  define s4 where "s4 = init_enable (init_alloc s2)"
  define s6 where "s6 = shutdown_post True (shutdown_begin s4)"
  note defs = s0_def s2_def s4_def s6_def early_wait_def anr_loaded_def anr_control_defs
  have "Q s0 (init_sem True s0)" unfolding Q_def by (intro conjI anr_step.Sem_init) (simp_all add: defs)
  moreover have "Q (init_sem True s0) s2" unfolding s2_def Q_def by (intro conjI anr_step.Install) (simp_all add: defs)
  moreover have "Q s2 (init_alloc s2)" unfolding Q_def by (intro conjI anr_step.Alloc) (simp_all add: defs)
  moreover have "Q (init_alloc s2) s4" unfolding s4_def Q_def by (intro conjI anr_step.Enable) (simp_all add: defs)
  moreover have "Q s4 (shutdown_begin s4)" unfolding Q_def by (intro conjI anr_step.Shutdown) (simp_all add: defs)
  moreover have "Q (shutdown_begin s4) s6" unfolding s6_def Q_def by (intro conjI anr_step.Post) (simp_all add: defs)
  ultimately have "Q\<^sup>*\<^sup>* s0 s6"
    by (meson converse_rtranclp_into_rtranclp r_into_rtranclp)
  moreover have "an_control s0 = I_sem_init" "an_watchdog s0 = W_sem" "an_control s6 = S_join" "an_sem s6 > 0" "shutdown_join s6 = None"
    by (simp_all add: defs)
  ultimately show ?thesis using early_wait_reachable [OF assms] unfolding s0_def Q_def by blast
qed

theorem early_wait_hangs_stop_witness:
  "\<exists>st. anr_reachable arm64_build quit_fs 7 True st \<and> an_control st = I_sem_init \<and> an_watchdog st = W_sem"
  using early_wait_hangs_stop [OF quit_fs_detects] by blast

text \<open>
  A restart can lose its watchdog: the new thread reads \<open>enabled\<close> before
  \<open>anr_handler_initialize\<close> sets it, finds the value of the last stop and ends, while the start
  goes on to install the interceptor and to return true.
\<close>

theorem restart_loses_watchdog:
  assumes "detect_android_anr_handler b fs pid (-1) = Returns (found, tid)" "\<not> an_enabled st" "an_monitor_tid st = -1"
  shows "\<exists>st1 st2. init_begin b fs pid True st = Returns st1 \<and> watchdog_step True st1 = Some st2 \<and>
    (let st3 = init_enable (init_alloc (init_install True (init_sem True st2)))
     in an_enabled st3 \<and> an_disp st3 = Anr_Interceptor \<and> an_control st3 = Idle \<and> an_watchdog st3 = W_stopped)"
  using assms by (simp add: init_begin_def watchdog_step_simps anr_control_defs)


theorem restart_loses_watchdog_witness:
  "\<exists>st1 st2. init_begin arm64_build quit_fs 7 True (shutdown_close quit_joined) = Returns st1 \<and>
     watchdog_step True st1 = Some st2 \<and> an_watchdog st2 = W_stopped"
proof -
  have "\<not> an_enabled (shutdown_close quit_joined)" "an_monitor_tid (shutdown_close quit_joined) = -1"
    by (simp_all add: quit_joined_def anr_control_defs)
  then show ?thesis
    using restart_loses_watchdog [OF quit_fs_detects] by (fastforce simp: Let_def anr_control_defs)
qed

end
