(* ===== verification/Terminate_Handler.thy ===== *)
theory Terminate_Handler
  imports Serializer
begin

text \<open>
  \<open>terminate-handler.cpp\<close>: the handler of uncaught C++ exceptions. The runtime's two handler
  slots, the module's remembered handlers and its mutex are the state; the exception being
  handled is a parameter. The report is collected with null \<open>siginfo\<close> and context pointers.
\<close>

section \<open>State\<close>

datatype term_handler = Term_default | Term_agent | Term_other nat

record th_state =
  th_runtime :: term_handler
  th_unexpected :: term_handler
  th_currentHandler :: "term_handler option"
  th_currentUnexpected :: "term_handler option"
  th_locked :: bool
  th_files :: files
  th_called :: "term_handler list"

text \<open>The runtime's start: \<open>currentHandler\<close> is initialized with \<open>std::get_terminate()\<close>.\<close>

definition th_loaded :: "term_handler \<Rightarrow> term_handler \<Rightarrow> files \<Rightarrow> th_state" where
  "th_loaded h u fs = \<lparr>th_runtime = h, th_unexpected = u, th_currentHandler = Some h,
     th_currentUnexpected = None, th_locked = False, th_files = fs, th_called = []\<rparr>"

text \<open>\<open>std::set_terminate\<close> and \<open>std::set_unexpected\<close>: a null pointer sets the default handler;
  the previous handler is returned.\<close>

definition set_terminate :: "term_handler option \<Rightarrow> th_state \<Rightarrow> term_handler \<times> th_state" where
  "set_terminate h st = (th_runtime st, st\<lparr>th_runtime := case h of Some h \<Rightarrow> h | None \<Rightarrow> Term_default\<rparr>)"

definition set_unexpected :: "term_handler option \<Rightarrow> th_state \<Rightarrow> term_handler \<times> th_state" where
  "set_unexpected h st = (th_unexpected st, st\<lparr>th_unexpected := case h of Some h \<Rightarrow> h | None \<Rightarrow> Term_default\<rparr>)"

section \<open>The handlers\<close>

text \<open>How the handler ends when it does not fault: the process aborts, or the exception leaves
  the \<open>noexcept\<close> function and \<open>std::terminate\<close> is called again.\<close>

datatype th_end = Aborted | Terminated_again

definition save_exception ::
  "build \<Rightarrow> world \<Rightarrow> wall_clock \<Rightarrow> disk \<Rightarrow> th_state \<Rightarrow> th_state outcome" where
  "save_exception b w t d st =
     (case collect_backtrace b w BACKTRACE_SZ_MAX None None of
        None \<Rightarrow> Faults
      | Some (complete, buffer) \<Rightarrow>
          Returns (if complete
                   then st\<lparr>th_files := from_exception (w_native w) t d buffer (length (c_str buffer)) (th_files st)\<rparr>
                   else st))"

definition reset_and_abort :: "th_state \<Rightarrow> th_end \<times> th_state" where
  "reset_and_abort st =
     (case th_currentHandler st of
        Some h \<Rightarrow>
          (let st = snd (set_terminate (Some h) st); st = st\<lparr>th_called := th_called st @ [h]\<rparr>
           in (Aborted, st\<lparr>th_currentHandler := None\<rparr>))
      | None \<Rightarrow> (Aborted, st))"

text \<open>\<open>exc\<close>: no current exception, or whether it derives from \<open>std::exception\<close>. Without one the
  type information is a null pointer.\<close>

definition terminateHandler ::
  "build \<Rightarrow> world \<Rightarrow> wall_clock \<Rightarrow> disk \<Rightarrow> bool option \<Rightarrow> th_state \<Rightarrow> (th_end \<times> th_state) outcome" where
  "terminateHandler b w t d exc st =
     (case exc of
        None \<Rightarrow> Faults
      | Some std_exception \<Rightarrow>
          bind_outcome (save_exception b w t d st) (\<lambda>st.
            bind_outcome (save_exception b w t d st) (\<lambda>st.
              Returns (if std_exception then (Terminated_again, st) else reset_and_abort st))))"

definition unexpectedHandler ::
  "build \<Rightarrow> world \<Rightarrow> wall_clock \<Rightarrow> disk \<Rightarrow> th_state \<Rightarrow> th_state outcome" where
  "unexpectedHandler b w t d st = save_exception b w t d st"

section \<open>Start and stop\<close>

text \<open>\<open>lock\<close> and \<open>unlock\<close>: whether the mutex calls succeed. The unexpected handler exists in the
  builds whose library still has one.\<close>

definition terminate_handler_initialize ::
  "bool \<Rightarrow> bool \<Rightarrow> bool \<Rightarrow> th_state \<Rightarrow> (bool \<times> th_state) outcome" where
  "terminate_handler_initialize has_unexpected lock unlock st =
     (if \<not> lock then Returns (False, st)
      else if th_locked st then Blocks
      else
        (let (old, st) = set_terminate (Some Term_agent) st;
             st = st\<lparr>th_currentHandler := Some old\<rparr>;
             st = (if has_unexpected
                   then (let (old, st) = set_unexpected (Some Term_agent) st in st\<lparr>th_currentUnexpected := Some old\<rparr>)
                   else st)
         in Returns (unlock, st\<lparr>th_locked := \<not> unlock\<rparr>)))"

definition terminate_handler_shutdown :: "bool \<Rightarrow> bool \<Rightarrow> bool \<Rightarrow> th_state \<Rightarrow> th_state outcome" where
  "terminate_handler_shutdown has_unexpected lock unlock st =
     (if \<not> lock then Returns st
      else if th_locked st then Blocks
      else
        (let st = snd (set_terminate (th_currentHandler st) st);
             st = st\<lparr>th_currentHandler := None\<rparr>;
             st = (if has_unexpected then snd (set_unexpected (th_currentUnexpected st) st) else st)
         in Returns (st\<lparr>th_locked := \<not> unlock\<rparr>)))"

section \<open>Properties\<close>

text \<open>
  No exception report is ever written: the handlers pass a null \<open>siginfo\<close>, which
  \<open>collect_backtrace\<close> dereferences, so the terminate handler and the unexpected handler fault
  whatever the exception, the environment and the state.
\<close>

theorem exceptions_never_reported:
  "terminateHandler b w t d exc st = Faults \<and> unexpectedHandler b w t d st = Faults"
proof -
  have "save_exception b w t d st = Faults"
    by (simp add: save_exception_def collect_backtrace_def)
  then show ?thesis
    by (simp add: terminateHandler_def unexpectedHandler_def split: option.splits)
qed

text \<open>Stopping gives the runtime its terminate handler back: start and stop of an unlocked
  module restore the handler that was set, and the mutex is free again.\<close>

lemma terminate_start_stop:
  assumes "\<not> th_locked st"
  shows "case terminate_handler_initialize u True True st of
      Returns (ok, st1) \<Rightarrow> ok \<and> th_runtime st1 = Term_agent \<and>
        (\<exists>st2. terminate_handler_shutdown u True True st1 = Returns st2 \<and> th_runtime st2 = th_runtime st \<and>
           th_unexpected st2 = th_unexpected st \<and> \<not> th_locked st2)
    | _ \<Rightarrow> False"
  using assms
  by (cases u) (simp_all add: terminate_handler_initialize_def terminate_handler_shutdown_def
      set_terminate_def set_unexpected_def Let_def)

text \<open>
  A second start loses the previous handler: the agent's own handler is remembered as the
  previous one, so the stop leaves it installed.
\<close>

theorem terminate_double_start:
  assumes "\<not> th_locked st"
  shows "\<exists>st'. bind_outcome (terminate_handler_initialize u True True st) (\<lambda>(_, st).
      bind_outcome (terminate_handler_initialize u True True st) (\<lambda>(_, st).
        terminate_handler_shutdown u True True st)) = Returns st' \<and>
    th_runtime st' = Term_agent \<and> th_currentHandler st' = None"
  using assms
  by (cases u) (simp_all add: terminate_handler_initialize_def terminate_handler_shutdown_def
      set_terminate_def set_unexpected_def Let_def)

theorem terminate_double_start_witness:
  "\<exists>st'. bind_outcome (terminate_handler_initialize True True True (th_loaded (Term_other 3) Term_default Map.empty))
      (\<lambda>(_, st). bind_outcome (terminate_handler_initialize True True True st) (\<lambda>(_, st).
        terminate_handler_shutdown True True True st)) = Returns st' \<and> th_runtime st' = Term_agent"
  using terminate_double_start [of "th_loaded (Term_other 3) Term_default Map.empty" True]
  by (auto simp: th_loaded_def)

end
