(* ===== verification/Jni_Env.thy ===== *)
theory Jni_Env
  imports Native_Context C_Library
begin

text \<open>
  \<open>jni/jni.cpp\<close>: the wrappers of the JNI functions. The virtual machine is a parameter: a function
  from the calls made so far and the new call to its answer. Around it stand the rules of the
  JNI specification that native code can break: with an exception pending only a few functions
  may be called, and a global reference may not be used once it has been deleted.
\<close>

section \<open>The virtual machine\<close>

text \<open>References, method ids, field ids and \<open>JNIEnv\<close> pointers are numbers, 0 the null pointer.\<close>

datatype jcall =
    FindClass string
  | GetObjectClass nat
  | GetFieldID nat string string
  | GetMethodID nat string string
  | CallVoidMethodV nat nat "nat list"
  | CallObjectMethod nat nat "nat list"
  | CallBooleanMethodV nat nat "nat list"
  | NewObjectV nat nat "nat list"
  | NewGlobalRef nat
  | DeleteGlobalRef nat
  | NewStringUTF string
  | GetObjectField nat nat
  | GetBooleanField nat nat
  | GetStringUTFChars nat

record janswer =
  ja_ref :: nat
  ja_bool :: bool
  ja_chars :: "string option"
  ja_throws :: bool

type_synonym vm = "jcall list \<Rightarrow> jcall \<Rightarrow> janswer"

text \<open>The environments with a pending exception, the live and the deleted global references, the
  local references of each environment, the calls made, and the threads the agent attached.\<close>

record jstate =
  j_pending :: "nat \<Rightarrow> bool"
  j_globals :: "nat list"
  j_deleted :: "nat list"
  j_locals :: "nat \<Rightarrow> nat list"
  j_log :: "jcall list"
  j_attached :: nat

definition jvm_loaded :: jstate where
  "jvm_loaded = \<lparr>j_pending = (\<lambda>_. False), j_globals = [], j_deleted = [], j_locals = (\<lambda>_. []), j_log = [], j_attached = 0\<rparr>"

text \<open>The object references a call hands to the virtual machine.\<close>

fun jrefs :: "jcall \<Rightarrow> nat list" where
  "jrefs (GetObjectClass obj) = [obj]"
| "jrefs (GetFieldID cls _ _) = [cls]"
| "jrefs (GetMethodID cls _ _) = [cls]"
| "jrefs (CallVoidMethodV obj _ args) = obj # args"
| "jrefs (CallObjectMethod obj _ args) = obj # args"
| "jrefs (CallBooleanMethodV obj _ args) = obj # args"
| "jrefs (NewObjectV cls _ args) = cls # args"
| "jrefs (NewGlobalRef obj) = [obj]"
| "jrefs (DeleteGlobalRef obj) = [obj]"
| "jrefs (GetObjectField obj _) = [obj]"
| "jrefs (GetBooleanField obj _) = [obj]"
| "jrefs (GetStringUTFChars str) = [str]"
| "jrefs _ = []"

text \<open>The calls that answer with an object reference.\<close>

fun returns_object :: "jcall \<Rightarrow> bool" where
  "returns_object (FindClass _) = True"
| "returns_object (GetObjectClass _) = True"
| "returns_object (CallObjectMethod _ _ _) = True"
| "returns_object (NewObjectV _ _ _) = True"
| "returns_object (NewGlobalRef _) = True"
| "returns_object (NewStringUTF _) = True"
| "returns_object (GetObjectField _ _) = True"
| "returns_object _ = False"

text \<open>What a call does to the references: an answered object is live, a new global reference is in
  the table, a deleted one is not.\<close>

definition table_step :: "jcall \<Rightarrow> janswer \<Rightarrow> jstate \<Rightarrow> jstate" where
  "table_step c a st =
     (let st = (if returns_object c then st\<lparr>j_deleted := removeAll (ja_ref a) (j_deleted st)\<rparr> else st)
      in case c of
           NewGlobalRef _ \<Rightarrow> if ja_ref a = 0 then st else st\<lparr>j_globals := ja_ref a # j_globals st\<rparr>
         | DeleteGlobalRef r \<Rightarrow>
             (let st = st\<lparr>j_globals := remove1 r (j_globals st)\<rparr>
              in if r \<in> set (j_globals st) then st else st\<lparr>j_deleted := r # j_deleted st\<rparr>)
         | _ \<Rightarrow> st)"

text \<open>An object that a call answers with is a local reference of the environment, but for a global
  one. It lives until it is deleted, which the agent never does, the native method returns to
  managed code, or the thread is detached.\<close>

definition returns_local :: "jcall \<Rightarrow> bool" where
  "returns_local c \<longleftrightarrow> (case c of NewGlobalRef _ \<Rightarrow> False | _ \<Rightarrow> returns_object c)"

definition note_local :: "nat \<Rightarrow> jcall \<Rightarrow> janswer \<Rightarrow> jstate \<Rightarrow> jstate" where
  "note_local env c a st =
     (if returns_local c \<and> ja_ref a \<noteq> 0
      then st\<lparr>j_locals := (j_locals st)(env := ja_ref a # j_locals st env)\<rparr> else st)"

text \<open>
  A call in the environment \<open>env\<close>. It may not be made with an exception pending (the deletion of
  a global reference may), nor with a deleted reference; only a live global reference can be
  deleted. A call that breaks these rules is undefined, here a fault.
\<close>

definition allowed :: "nat \<Rightarrow> jcall \<Rightarrow> jstate \<Rightarrow> bool" where
  "allowed env c st \<longleftrightarrow>
     (case c of DeleteGlobalRef r \<Rightarrow> r \<in> set (j_globals st) | _ \<Rightarrow> \<not> j_pending st env) \<and>
     list_all (\<lambda>r. r = 0 \<or> r \<notin> set (j_deleted st)) (jrefs c)"

definition jni_call :: "vm \<Rightarrow> nat \<Rightarrow> jcall \<Rightarrow> jstate \<Rightarrow> (janswer \<times> jstate) outcome" where
  "jni_call vm env c st =
     (if \<not> allowed env c st then Faults
      else
        (let a = vm (j_log st) c;
             st = note_local env c a (table_step c a (st\<lparr>j_log := j_log st @ [c]\<rparr>))
         in Returns (a, st\<lparr>j_pending := (j_pending st)(env := j_pending st env \<or> ja_throws a)\<rparr>)))"

section \<open>The wrappers\<close>

definition env_check_and_clear_ex :: "nat \<Rightarrow> jstate \<Rightarrow> bool \<times> jstate" where
  "env_check_and_clear_ex env st =
     (if env \<noteq> 0 then
        (if j_pending st env then (True, st\<lparr>j_pending := (j_pending st)(env := False)\<rparr>) else (False, st))
      else (False, st))"

text \<open>The two statements every wrapper ends with: the call, and the clearing of its exception.\<close>

definition call_and_clear :: "vm \<Rightarrow> nat \<Rightarrow> jcall \<Rightarrow> (janswer \<Rightarrow> 'a) \<Rightarrow> jstate \<Rightarrow> ('a \<times> jstate) outcome" where
  "call_and_clear vm env c result st =
     bind_outcome (jni_call vm env c st) (\<lambda>(a, st).
       let (_, st) = env_check_and_clear_ex env st in Returns (result a, st))"

definition env_find_class :: "vm \<Rightarrow> nat \<Rightarrow> string option \<Rightarrow> jstate \<Rightarrow> (nat \<times> jstate) outcome" where
  "env_find_class vm env class_name st =
     (if env \<noteq> 0 then
        (case class_name of
           Some class_name \<Rightarrow> call_and_clear vm env (FindClass class_name) ja_ref st
         | None \<Rightarrow> Returns (0, st))
      else Returns (0, st))"

definition env_get_object_class :: "vm \<Rightarrow> nat \<Rightarrow> nat \<Rightarrow> jstate \<Rightarrow> (nat \<times> jstate) outcome" where
  "env_get_object_class vm env obj st =
     (if env \<noteq> 0 then
        (if obj \<noteq> 0 then call_and_clear vm env (GetObjectClass obj) ja_ref st else Returns (0, st))
      else Returns (0, st))"

definition env_get_fieldid ::
  "vm \<Rightarrow> nat \<Rightarrow> nat \<Rightarrow> string option \<Rightarrow> string option \<Rightarrow> jstate \<Rightarrow> (nat \<times> jstate) outcome" where
  "env_get_fieldid vm env cls field_name field_sig st =
     (if env \<noteq> 0 then
        (case (field_name, field_sig) of
           (Some field_name, Some field_sig) \<Rightarrow>
             if cls \<noteq> 0 then call_and_clear vm env (GetFieldID cls field_name field_sig) ja_ref st
             else Returns (0, st)
         | _ \<Rightarrow> Returns (0, st))
      else Returns (0, st))"

definition env_get_methodid ::
  "vm \<Rightarrow> nat \<Rightarrow> nat \<Rightarrow> string option \<Rightarrow> string option \<Rightarrow> jstate \<Rightarrow> (nat \<times> jstate) outcome" where
  "env_get_methodid vm env cls method_name method_sig st =
     (if env \<noteq> 0 then
        (case (method_name, method_sig) of
           (Some method_name, Some method_sig) \<Rightarrow>
             if cls \<noteq> 0 then call_and_clear vm env (GetMethodID cls method_name method_sig) ja_ref st
             else Returns (0, st)
         | _ \<Rightarrow> Returns (0, st))
      else Returns (0, st))"

definition env_call_void_method ::
  "vm \<Rightarrow> nat \<Rightarrow> nat \<Rightarrow> nat \<Rightarrow> nat list \<Rightarrow> jstate \<Rightarrow> (unit \<times> jstate) outcome" where
  "env_call_void_method vm env obj methodID args st =
     (if env \<noteq> 0 then
        (if obj \<noteq> 0 \<and> methodID \<noteq> 0
         then call_and_clear vm env (CallVoidMethodV obj methodID args) (\<lambda>_. ()) st
         else Returns ((), st))
      else Returns ((), st))"

text \<open>This one passes its \<open>va_list\<close> to the variadic \<open>CallObjectMethod\<close>; the code calls it without
  arguments only.\<close>

definition env_call_object_method :: "vm \<Rightarrow> nat \<Rightarrow> nat \<Rightarrow> nat \<Rightarrow> jstate \<Rightarrow> (nat \<times> jstate) outcome" where
  "env_call_object_method vm env obj methodID st =
     (if env \<noteq> 0 then
        (if obj \<noteq> 0 \<and> methodID \<noteq> 0
         then call_and_clear vm env (CallObjectMethod obj methodID []) ja_ref st
         else Returns (0, st))
      else Returns (0, st))"

definition env_call_bool_method ::
  "vm \<Rightarrow> nat \<Rightarrow> nat \<Rightarrow> nat \<Rightarrow> nat list \<Rightarrow> jstate \<Rightarrow> (bool \<times> jstate) outcome" where
  "env_call_bool_method vm env obj methodID args st =
     (if env \<noteq> 0 then
        (if obj \<noteq> 0 \<and> methodID \<noteq> 0
         then call_and_clear vm env (CallBooleanMethodV obj methodID args) ja_bool st
         else Returns (False, st))
      else Returns (False, st))"

definition env_new_object ::
  "vm \<Rightarrow> nat \<Rightarrow> nat \<Rightarrow> nat \<Rightarrow> nat list \<Rightarrow> jstate \<Rightarrow> (nat \<times> jstate) outcome" where
  "env_new_object vm env cls methodID args st =
     (if env \<noteq> 0 then
        (if cls \<noteq> 0 \<and> methodID \<noteq> 0
         then call_and_clear vm env (NewObjectV cls methodID args) ja_ref st
         else Returns (0, st))
      else Returns (0, st))"

definition env_new_global_ref :: "vm \<Rightarrow> nat \<Rightarrow> nat \<Rightarrow> jstate \<Rightarrow> (nat \<times> jstate) outcome" where
  "env_new_global_ref vm env obj st =
     (if env \<noteq> 0 then
        (if obj \<noteq> 0 then call_and_clear vm env (NewGlobalRef obj) ja_ref st else Returns (0, st))
      else Returns (0, st))"

definition env_delete_global_ref :: "vm \<Rightarrow> nat \<Rightarrow> nat \<Rightarrow> jstate \<Rightarrow> (unit \<times> jstate) outcome" where
  "env_delete_global_ref vm env obj st =
     (if env \<noteq> 0 then
        (if obj \<noteq> 0 then call_and_clear vm env (DeleteGlobalRef obj) (\<lambda>_. ()) st else Returns ((), st))
      else Returns ((), st))"

definition env_new_string_utf :: "vm \<Rightarrow> nat \<Rightarrow> string option \<Rightarrow> jstate \<Rightarrow> (nat \<times> jstate) outcome" where
  "env_new_string_utf vm env cstr st =
     (if env \<noteq> 0 then
        (case cstr of
           Some cstr \<Rightarrow> call_and_clear vm env (NewStringUTF cstr) ja_ref st
         | None \<Rightarrow> Returns (0, st))
      else Returns (0, st))"

definition env_get_object_field :: "vm \<Rightarrow> nat \<Rightarrow> nat \<Rightarrow> nat \<Rightarrow> jstate \<Rightarrow> (nat \<times> jstate) outcome" where
  "env_get_object_field vm env obj fieldID st =
     (if env \<noteq> 0 then
        (if obj \<noteq> 0 \<and> fieldID \<noteq> 0
         then call_and_clear vm env (GetObjectField obj fieldID) ja_ref st
         else Returns (0, st))
      else Returns (0, st))"

definition env_get_boolean_field :: "vm \<Rightarrow> nat \<Rightarrow> nat \<Rightarrow> nat \<Rightarrow> jstate \<Rightarrow> (bool \<times> jstate) outcome" where
  "env_get_boolean_field vm env obj fieldID st =
     (if env \<noteq> 0 then
        (if obj \<noteq> 0 \<and> fieldID \<noteq> 0
         then call_and_clear vm env (GetBooleanField obj fieldID) ja_bool st
         else Returns (False, st))
      else Returns (False, st))"

definition env_get_string_UTF_chars :: "vm \<Rightarrow> nat \<Rightarrow> nat \<Rightarrow> jstate \<Rightarrow> (string option \<times> jstate) outcome" where
  "env_get_string_UTF_chars vm env str st =
     (if env \<noteq> 0 then
        (if str \<noteq> 0 then call_and_clear vm env (GetStringUTFChars str) ja_chars st else Returns (None, st))
      else Returns (None, st))"


section \<open>The contract of the wrappers\<close>

lemma table_step_frame [simp]:
  "j_pending (table_step c a st) = j_pending st" "j_log (table_step c a st) = j_log st"
  "j_attached (table_step c a st) = j_attached st" "j_locals (table_step c a st) = j_locals st"
  by (simp_all add: table_step_def Let_def split: jcall.split)

lemma note_local_frame [simp]:
  "j_pending (note_local env c a st) = j_pending st" "j_log (note_local env c a st) = j_log st"
  "j_attached (note_local env c a st) = j_attached st" "j_globals (note_local env c a st) = j_globals st"
  "j_deleted (note_local env c a st) = j_deleted st"
  by (simp_all add: note_local_def)

text \<open>An allowed call without an exception pending: what is left of it is its answer, its entry in
  the log and its effect on the references.\<close>

lemma call_and_clear_allowed:
  assumes "env \<noteq> 0" "\<not> j_pending st env" "allowed env c st"
  shows "call_and_clear vm env c f st =
    Returns (f (vm (j_log st) c), note_local env c (vm (j_log st) c)
      (table_step c (vm (j_log st) c) (st\<lparr>j_log := j_log st @ [c]\<rparr>)))"
proof -
  let ?a = "vm (j_log st) c"
  define s1 where "s1 = note_local env c ?a (table_step c ?a (st\<lparr>j_log := j_log st @ [c]\<rparr>))"
  have pending: "j_pending s1 = j_pending st" by (simp add: s1_def)
  have quiet: "\<not> j_pending s1 env" using assms(2) by (simp add: pending)
  then have same: "(j_pending s1)(env := False) = j_pending s1"
    by (simp add: fun_upd_idem_iff)
  have call: "jni_call vm env c st = Returns (?a, s1\<lparr>j_pending := (j_pending s1)(env := ja_throws ?a)\<rparr>)"
    using assms(2,3) by (simp add: jni_call_def s1_def [symmetric] Let_def pending)
  have "env_check_and_clear_ex env (s1\<lparr>j_pending := (j_pending s1)(env := throws)\<rparr>) = (throws, s1)" for throws
    using assms(1) same quiet by (cases throws) (simp_all add: env_check_and_clear_ex_def fun_upd_idem)
  then show ?thesis
    by (simp add: call_and_clear_def call s1_def)
qed

text \<open>No exception pending, references that may be used, and the table of global references.\<close>

definition jsafe :: "nat \<Rightarrow> nat set \<Rightarrow> nat list \<Rightarrow> jstate \<Rightarrow> bool" where
  "jsafe env refs gs st \<longleftrightarrow>
     \<not> j_pending st env \<and> (\<forall>r \<in> refs. r = 0 \<or> r \<notin> set (j_deleted st)) \<and> j_globals st = gs"

lemma jsafe_start: "\<not> j_pending st env \<Longrightarrow> jsafe env {} (j_globals st) st"
  by (simp add: jsafe_def)

lemma jsafe_quiet: "jsafe env refs gs st \<Longrightarrow> \<not> j_pending st env"
  by (simp add: jsafe_def)

lemma jsafe_subset: "jsafe env refs gs st \<Longrightarrow> refs' \<subseteq> refs \<Longrightarrow> jsafe env refs' gs st"
  by (auto simp: jsafe_def)

text \<open>
  What the callers rely on. A wrapper given references that may be used returns, with no
  exception pending, every reference still good and no global reference made; with a null
  environment it only returns its default. So a sequence of wrapper calls never reaches a fault
  of the virtual machine.
\<close>

locale jni_wrapper =
  fixes wrap :: "vm \<Rightarrow> nat \<Rightarrow> jstate \<Rightarrow> ('a \<times> jstate) outcome"
    and args :: "nat set"
    and failed :: 'a
  assumes null_env: "wrap vm 0 st = Returns (failed, st)"
    and wrap_returns: "jsafe env (args \<union> refs) gs st \<Longrightarrow>
      \<exists>x st'. wrap vm env st = Returns (x, st') \<and> jsafe env (args \<union> refs) gs st'"
begin

lemma bind_safe:
  assumes "jsafe env refs gs st" "args \<subseteq> refs"
    and "\<And>x st'. jsafe env refs gs st' \<Longrightarrow> returns_with P (k (x, st'))"
  shows "returns_with P (bind_outcome (wrap vm env st) k)"
proof -
  have "args \<union> refs = refs" using assms(2) by blast
  then obtain x st' where "wrap vm env st = Returns (x, st')" "jsafe env refs gs st'"
    using wrap_returns [of env refs gs st vm] assms(1) by auto
  with assms(3) show ?thesis by simp
qed

end

text \<open>A wrapper that answers with an object reference, which may then be used.\<close>

locale object_wrapper = jni_wrapper wrap args "0 :: nat"
  for wrap :: "vm \<Rightarrow> nat \<Rightarrow> jstate \<Rightarrow> (nat \<times> jstate) outcome" and args :: "nat set" +
  assumes result_live: "wrap vm env st = Returns (x, st') \<Longrightarrow> x = 0 \<or> x \<notin> set (j_deleted st')"
begin

lemma bind_object:
  assumes "jsafe env refs gs st" "args \<subseteq> refs"
    and "\<And>x st'. jsafe env (insert x refs) gs st' \<Longrightarrow> returns_with P (k (x, st'))"
  shows "returns_with P (bind_outcome (wrap vm env st) k)"
proof -
  have "args \<union> refs = refs" using assms(2) by blast
  then obtain x st' where run: "wrap vm env st = Returns (x, st')" "jsafe env refs gs st'"
    using wrap_returns [of env refs gs st vm] assms(1) by auto
  then have "jsafe env (insert x refs) gs st'"
    using result_live [OF run(1)] by (simp add: jsafe_def)
  with assms(3) run(1) show ?thesis by simp
qed

end

lemma jsafe_allowed:
  assumes "jsafe env refs gs st" "set (jrefs c) \<subseteq> refs" "\<And>r. c \<noteq> DeleteGlobalRef r"
  shows "allowed env c st" "\<not> j_pending st env"
  using assms by (auto simp: allowed_def jsafe_def list_all_iff subset_iff split: jcall.split)

lemma call_and_clear_safe:
  assumes "jsafe env refs gs st" "env \<noteq> 0" "set (jrefs c) \<subseteq> refs" "\<And>r. c \<noteq> DeleteGlobalRef r" "\<And>r. c \<noteq> NewGlobalRef r"
  shows "\<exists>x st'. call_and_clear vm env c f st = Returns (x, st') \<and> jsafe env refs gs st'"
proof -
  note ok = jsafe_allowed [OF assms(1,3,4)]
  have "set (j_deleted (table_step c a s)) \<subseteq> set (j_deleted s)" "j_globals (table_step c a s) = j_globals s" for a s
    using assms(4,5) by (auto simp: table_step_def Let_def split: jcall.split)
  from this(1) [of _ "st\<lparr>j_log := j_log st @ [c]\<rparr>"] this(2) show ?thesis
    using assms(1) by (fastforce simp: call_and_clear_allowed [OF assms(2) ok(2,1)] jsafe_def)
qed

lemma call_and_clear_live:
  assumes "call_and_clear vm env c ja_ref st = Returns (x, st')" "returns_object c"
  shows "x \<notin> set (j_deleted st')"
proof -
  let ?a = "vm (j_log st) c"
  let ?s = "note_local env c ?a (table_step c ?a (st\<lparr>j_log := j_log st @ [c]\<rparr>))"
  have "x = ja_ref ?a" "j_deleted st' = j_deleted ?s"
    using assms(1)
    by (auto simp: call_and_clear_def jni_call_def env_check_and_clear_ex_def Let_def bind_Returns split: if_splits)
  moreover have "ja_ref ?a \<notin> set (j_deleted ?s)"
    using assms(2) by (cases c) (simp_all add: table_step_def Let_def)
  ultimately show ?thesis by simp
qed

text \<open>Every wrapper but the two on the table keeps the contract.\<close>

lemmas wrapper_safe = call_and_clear_safe call_and_clear_live

interpretation find_class: object_wrapper "\<lambda>vm env. env_find_class vm env name" "{}" for name
  by unfold_locales (auto simp: env_find_class_def split: option.splits if_splits intro: wrapper_safe(1) dest: wrapper_safe(2))

interpretation object_class: object_wrapper "\<lambda>vm env. env_get_object_class vm env obj" "{obj}" for obj
  by unfold_locales (auto simp: env_get_object_class_def split: option.splits if_splits intro: wrapper_safe(1) dest: wrapper_safe(2))

interpretation fieldid: jni_wrapper "\<lambda>vm env. env_get_fieldid vm env cls name sig" "{cls}" 0 for cls name sig
  by unfold_locales (auto simp: env_get_fieldid_def split: option.splits if_splits intro: wrapper_safe(1) dest: wrapper_safe(2))

interpretation methodid: jni_wrapper "\<lambda>vm env. env_get_methodid vm env cls name sig" "{cls}" 0 for cls name sig
  by unfold_locales (auto simp: env_get_methodid_def split: option.splits if_splits intro: wrapper_safe(1) dest: wrapper_safe(2))

interpretation void_method: jni_wrapper "\<lambda>vm env. env_call_void_method vm env obj m args" "insert obj (set args)" "()" for obj m args
  by unfold_locales (auto simp: env_call_void_method_def split: option.splits if_splits 
      intro: wrapper_safe(1) [where f = "\<lambda>_. ()", simplified] dest: wrapper_safe(2))

interpretation object_method: object_wrapper "\<lambda>vm env. env_call_object_method vm env obj m" "{obj}" for obj m
  by unfold_locales (auto simp: env_call_object_method_def split: option.splits if_splits intro: wrapper_safe(1) dest: wrapper_safe(2))

interpretation bool_method: jni_wrapper "\<lambda>vm env. env_call_bool_method vm env obj m args" "insert obj (set args)" False for obj m args
  by unfold_locales (auto simp: env_call_bool_method_def split: option.splits if_splits intro: wrapper_safe(1) dest: wrapper_safe(2))

interpretation new_object: object_wrapper "\<lambda>vm env. env_new_object vm env cls m args" "insert cls (set args)" for cls m args
  by unfold_locales (auto simp: env_new_object_def split: option.splits if_splits intro: wrapper_safe(1) dest: wrapper_safe(2))

interpretation new_string: object_wrapper "\<lambda>vm env. env_new_string_utf vm env cstr" "{}" for cstr
  by unfold_locales (auto simp: env_new_string_utf_def split: option.splits if_splits intro: wrapper_safe(1) dest: wrapper_safe(2))

interpretation object_field: object_wrapper "\<lambda>vm env. env_get_object_field vm env obj f" "{obj}" for obj f
  by unfold_locales (auto simp: env_get_object_field_def split: option.splits if_splits intro: wrapper_safe(1) dest: wrapper_safe(2))

interpretation boolean_field: jni_wrapper "\<lambda>vm env. env_get_boolean_field vm env obj f" "{obj}" False for obj f
  by unfold_locales (auto simp: env_get_boolean_field_def split: option.splits if_splits intro: wrapper_safe(1) dest: wrapper_safe(2))

interpretation string_chars: jni_wrapper "\<lambda>vm env. env_get_string_UTF_chars vm env str" "{str}" None for str
  by unfold_locales (auto simp: env_get_string_UTF_chars_def split: option.splits if_splits intro: wrapper_safe(1) dest: wrapper_safe(2))

text \<open>A new global reference is in the table; its deletion takes it out again.\<close>

lemma new_global_ref_bind:
  assumes "jsafe env refs gs st" "obj \<in> refs"
    and "\<And>x st'. jsafe env (insert x refs) (if x = 0 then gs else x # gs) st' \<Longrightarrow> returns_with P (k (x, st'))"
  shows "returns_with P (bind_outcome (env_new_global_ref vm env obj st) k)"
proof (cases "env = 0 \<or> obj = 0")
  case True
  have "jsafe env (insert 0 refs) gs st" using assms(1) by (auto simp: jsafe_def)
  with True assms(3) [of 0 st] show ?thesis by (auto simp: env_new_global_ref_def)
next
  case False
  let ?x = "ja_ref (vm (j_log st) (NewGlobalRef obj))"
  let ?st' = "note_local env (NewGlobalRef obj) (vm (j_log st) (NewGlobalRef obj))
      (table_step (NewGlobalRef obj) (vm (j_log st) (NewGlobalRef obj)) (st\<lparr>j_log := j_log st @ [NewGlobalRef obj]\<rparr>))"
  have ok: "allowed env (NewGlobalRef obj) st" "\<not> j_pending st env"
    using jsafe_allowed [OF assms(1), of "NewGlobalRef obj"] assms(2) by simp_all
  have "env_new_global_ref vm env obj st = Returns (?x, ?st')"
    using False by (simp add: env_new_global_ref_def call_and_clear_allowed [OF _ ok(2,1)])
  moreover have "jsafe env (insert ?x refs) (if ?x = 0 then gs else ?x # gs) ?st'"
    using assms(1) ok(2) by (auto simp: jsafe_def table_step_def Let_def)
  ultimately show ?thesis using assms(3) by simp
qed

lemma delete_global_ref_bind:
  assumes "jsafe env refs gs st" "r \<noteq> 0 \<Longrightarrow> env \<noteq> 0 \<Longrightarrow> r \<in> set gs \<and> r \<in> refs"
    and "\<And>st'. jsafe env {} (if env = 0 then gs else remove1 r gs) st' \<Longrightarrow> returns_with P (k ((), st'))"
    and "0 \<notin> set gs"
  shows "returns_with P (bind_outcome (env_delete_global_ref vm env r st) k)"
proof (cases "env = 0 \<or> r = 0")
  case True
  have "remove1 0 gs = gs" using assms(4) by (simp add: remove1_idem)
  then have "jsafe env {} (if env = 0 then gs else remove1 r gs) st"
    using True assms(1) by (auto simp: jsafe_def)
  with True assms(3) show ?thesis by (auto simp: env_delete_global_ref_def)
next
  case False
  let ?c = "DeleteGlobalRef r"
  let ?st' = "note_local env ?c (vm (j_log st) ?c) (table_step ?c (vm (j_log st) ?c) (st\<lparr>j_log := j_log st @ [?c]\<rparr>))"
  have ok: "allowed env ?c st" "\<not> j_pending st env"
    using assms(1,2) False by (auto simp: jsafe_def allowed_def)
  have "env_delete_global_ref vm env r st = Returns ((), ?st')"
    using False by (simp add: env_delete_global_ref_def call_and_clear_allowed [OF _ ok(2,1)])
  moreover have "jsafe env {} (remove1 r gs) ?st'"
    using assms(1) ok(2) by (auto simp: jsafe_def table_step_def Let_def)
  ultimately show ?thesis using assms(3) [of ?st'] False by simp
qed

end
