(* ===== verification/Jni_Delegate.thy ===== *)
theory Jni_Delegate
  imports Jni_Env
begin

text \<open>
  \<open>jni/jni-delegate.cpp\<close>: binding and releasing the managed delegate, and passing a report to it
  on a worker thread. A created worker is a result of the call; it runs later, as a step of its
  own. The native context is passed and returned, the process has one.
\<close>

section \<open>Binding\<close>

definition delegate_class :: string where
  "delegate_class = ''com/newrelic/agent/android/ndk/JVMDelegate''"

definition on_native_crash_method :: string where
  "on_native_crash_method = ''onNativeCrash''"

definition on_native_exception_method :: string where
  "on_native_exception_method = ''onNativeException''"

definition on_application_not_responding_method :: string where
  "on_application_not_responding_method = ''onApplicationNotResponding''"

definition delegate_method_sig :: string where
  "delegate_method_sig = ''(Ljava/lang/String;)V''"

text \<open>\<open>JNI_ERR\<close>, and the conversion of an integer to \<open>bool\<close> where the code returns it.\<close>

definition JNI_ERR :: int where
  "JNI_ERR = -1"

definition bool_of :: "int \<Rightarrow> bool" where
  "bool_of n \<longleftrightarrow> n \<noteq> 0"

definition bind_delegate ::
  "vm \<Rightarrow> nat \<Rightarrow> native_context \<Rightarrow> jstate \<Rightarrow> (bool \<times> native_context \<times> jstate) outcome" where
  "bind_delegate vm env nc st =
     bind_outcome (env_find_class vm env (Some delegate_class) st) (\<lambda>(jniDelegateClass, st).
       if jniDelegateClass = 0 then Returns (bool_of JNI_ERR, nc, st)
       else
         bind_outcome (env_get_methodid vm env jniDelegateClass (Some ''<init>'') (Some ''()V'') st) (\<lambda>(delegateCtor, st).
         bind_outcome (env_new_object vm env jniDelegateClass delegateCtor [] st) (\<lambda>(delegateObj, st).
         bind_outcome (env_new_global_ref vm env delegateObj st) (\<lambda>(ref, st).
           let nc = nc\<lparr>nc_jniDelegateObject := ref\<rparr>
           in if ref = 0 then Returns (bool_of JNI_ERR, nc, st)
              else
                bind_outcome (env_get_methodid vm env jniDelegateClass (Some on_native_crash_method)
                    (Some delegate_method_sig) st) (\<lambda>(m, st).
                  let nc = nc\<lparr>nc_onNativeCrash := m\<rparr>
                  in if m = 0 then Returns (False, nc, st)
                     else
                       bind_outcome (env_get_methodid vm env jniDelegateClass (Some on_native_exception_method)
                           (Some delegate_method_sig) st) (\<lambda>(m, st).
                         let nc = nc\<lparr>nc_onNativeException := m\<rparr>
                         in if m = 0 then Returns (False, nc, st)
                            else
                              bind_outcome (env_get_methodid vm env jniDelegateClass
                                  (Some on_application_not_responding_method) (Some delegate_method_sig) st) (\<lambda>(m, st).
                                let nc = nc\<lparr>nc_onApplicationNotResponding := m\<rparr>
                                in if m = 0 then Returns (False, nc, st)
                                   else Returns (True, nc\<lparr>nc_initialized := True\<rparr>, st))))))))"

definition release_delegate :: "vm \<Rightarrow> nat \<Rightarrow> native_context \<Rightarrow> jstate \<Rightarrow> (native_context \<times> jstate) outcome" where
  "release_delegate vm env nc st =
     (if env \<noteq> 0 then
        bind_outcome (env_delete_global_ref vm env (nc_jniDelegateObject nc) st) (\<lambda>(_, st).
          Returns (nc\<lparr>nc_jniDelegateObject := 0, nc_onNativeCrash := 0, nc_onNativeException := 0,
                      nc_onApplicationNotResponding := 0\<rparr>, st))
      else Returns (nc, st))"

section \<open>Reports on a worker thread\<close>

text \<open>The answer of \<open>GetEnv\<close> in the calling thread: an environment; no environment, with the one
  \<open>AttachCurrentThread\<close> gives if it succeeds; or another error.\<close>

datatype get_env = JNI_OK nat | JNI_EDETACHED "nat option" | JNI_EVERSION

text \<open>\<open>AttachCurrentThread\<close> and \<open>DetachCurrentThread\<close>; the second frees the thread's local
  references.\<close>

definition attach_thread :: "jstate \<Rightarrow> jstate" where
  "attach_thread st = st\<lparr>j_attached := Suc (j_attached st)\<rparr>"

definition detach_thread :: "nat \<Rightarrow> jstate \<Rightarrow> jstate" where
  "detach_thread env st = st\<lparr>j_attached := j_attached st - 1, j_locals := (j_locals st)(env := [])\<rparr>"

record delegate_thread_args =
  da_env :: nat
  da_delegate :: nat
  da_method :: nat
  da_backtrace :: nat

definition delegate_worker_thread ::
  "vm \<Rightarrow> get_env \<Rightarrow> delegate_thread_args \<Rightarrow> jstate \<Rightarrow> jstate outcome" where
  "delegate_worker_thread vm ge delegate_args st =
     (case (case ge of
              JNI_OK env \<Rightarrow> Some (env, False, st)
            | JNI_EDETACHED (Some env) \<Rightarrow>
                Some (env, True, snd (env_check_and_clear_ex env (attach_thread st)))
            | _ \<Rightarrow> None) of
        None \<Rightarrow> Returns st
      | Some (env, jni_attached, st) \<Rightarrow>
          bind_outcome (env_call_void_method vm env (da_delegate delegate_args) (da_method delegate_args)
              [da_backtrace delegate_args] st) (\<lambda>(_, st).
          bind_outcome (env_delete_global_ref vm env (da_backtrace delegate_args) st) (\<lambda>(_, st).
            Returns (if jni_attached then detach_thread env st else st))))"

text \<open>
  \<open>created\<close> is whether \<open>pthread_create\<close> succeeds. The worker is detached, so the \<open>pthread_join\<close>
  that follows does not wait for it.
\<close>

definition threaded_delegate_call ::
  "vm \<Rightarrow> get_env \<Rightarrow> bool \<Rightarrow> string option \<Rightarrow> nat \<Rightarrow> native_context \<Rightarrow> jstate \<Rightarrow>
   (bool \<times> delegate_thread_args option \<times> jstate) outcome" where
  "threaded_delegate_call vm ge created backtrace methodId nc st =
     (if nc_jvm nc = 0 then Returns (False, None, st)
      else case (case ge of
                   JNI_OK env \<Rightarrow> Some (env, False, st)
                 | JNI_EDETACHED (Some env) \<Rightarrow> Some (env, True, attach_thread st)
                 | _ \<Rightarrow> None) of
        None \<Rightarrow> Returns (False, None, st)
      | Some (env, jni_attached, st) \<Rightarrow>
          bind_outcome (env_new_string_utf vm env backtrace st) (\<lambda>(jBacktrace, st).
          bind_outcome (env_new_global_ref vm env jBacktrace st) (\<lambda>(jBacktraceRef, st).
            let args = \<lparr>da_env = env, da_delegate = nc_jniDelegateObject nc, da_method = methodId,
                        da_backtrace = jBacktraceRef\<rparr>
            in if \<not> created then
                 bind_outcome (env_delete_global_ref vm env jBacktraceRef st) (\<lambda>(_, st). Returns (False, None, st))
               else
                 Returns (True, Some args, if jni_attached then detach_thread env st else st))))"

definition on_native_crash ::
  "vm \<Rightarrow> get_env \<Rightarrow> bool \<Rightarrow> string option \<Rightarrow> native_context \<Rightarrow> jstate \<Rightarrow> (delegate_thread_args option \<times> jstate) outcome" where
  "on_native_crash vm ge created backtrace nc st =
     (if nc_jvm nc = 0 then Returns (None, st)
      else bind_outcome (threaded_delegate_call vm ge created backtrace (nc_onNativeCrash nc) nc st)
             (\<lambda>(_, worker, st). Returns (worker, st)))"

definition on_native_exception ::
  "vm \<Rightarrow> get_env \<Rightarrow> bool \<Rightarrow> string option \<Rightarrow> native_context \<Rightarrow> jstate \<Rightarrow> (delegate_thread_args option \<times> jstate) outcome" where
  "on_native_exception vm ge created backtrace nc st =
     (if nc_jvm nc = 0 then Returns (None, st)
      else bind_outcome (threaded_delegate_call vm ge created backtrace (nc_onNativeException nc) nc st)
             (\<lambda>(_, worker, st). Returns (worker, st)))"

definition on_application_not_responding ::
  "vm \<Rightarrow> get_env \<Rightarrow> bool \<Rightarrow> string option \<Rightarrow> native_context \<Rightarrow> jstate \<Rightarrow> (delegate_thread_args option \<times> jstate) outcome" where
  "on_application_not_responding vm ge created backtrace nc st =
     (if nc_jvm nc = 0 then Returns (None, st)
      else bind_outcome (threaded_delegate_call vm ge created backtrace (nc_onApplicationNotResponding nc) nc st)
             (\<lambda>(_, worker, st). Returns (worker, st)))"

section \<open>Binding never faults\<close>

definition bound :: "native_context \<Rightarrow> bool" where
  "bound nc \<longleftrightarrow> nc_initialized nc \<and> nc_jniDelegateObject nc \<noteq> 0 \<and> nc_onNativeCrash nc \<noteq> 0 \<and>
     nc_onNativeException nc \<noteq> 0 \<and> nc_onApplicationNotResponding nc \<noteq> 0"

lemma bind_delegate_safe:
  assumes "\<not> j_pending st env"
  shows "returns_with (\<lambda>(ok, nc', st'). \<not> j_pending st' env \<and>
      (ok \<and> bound nc' \<and> env \<noteq> 0 \<and> jsafe env {nc_jniDelegateObject nc'} (nc_jniDelegateObject nc' # j_globals st) st' \<or>
       nc_initialized nc' = nc_initialized nc))
    (bind_delegate vm env nc st)"
proof (cases "env = 0")
  case True
  then show ?thesis using assms by (simp add: bind_delegate_def env_find_class_def)
next
  case False
  show ?thesis
    unfolding bind_delegate_def
    apply (rule find_class.bind_object [OF jsafe_start [OF assms]], simp)
    apply (simp add: jsafe_quiet, intro impI)
    apply (erule methodid.bind_safe, simp)
    apply simp
    apply (erule new_object.bind_object, simp)
    apply simp
    apply (erule new_global_ref_bind, simp)
    apply (simp add: jsafe_quiet Let_def, intro conjI impI)
     apply (simp add: jsafe_quiet)
    apply (erule methodid.bind_safe, simp, simp add: jsafe_quiet Let_def, intro impI)+
    apply (use False in \<open>auto simp: bound_def jsafe_quiet elim!: jsafe_subset\<close>)
    done
qed


lemma bind_delegate_frame:
  assumes "bind_delegate vm env nc st = Returns (ok, nc', st')"
  shows "nc_reportPathAbsolute nc' = nc_reportPathAbsolute nc" "nc_sessionId nc' = nc_sessionId nc"
    "nc_buildId nc' = nc_buildId nc" "nc_anrMonitorEnabled nc' = nc_anrMonitorEnabled nc"
proof -
  have "ensures (\<lambda>(_, nc', _). nc_reportPathAbsolute nc' = nc_reportPathAbsolute nc \<and> nc_sessionId nc' = nc_sessionId nc \<and>
      nc_buildId nc' = nc_buildId nc \<and> nc_anrMonitorEnabled nc' = nc_anrMonitorEnabled nc) (bind_delegate vm env nc st)"
    unfolding bind_delegate_def by (rule ensures_bind, clarsimp simp: Let_def)+
  then show "nc_reportPathAbsolute nc' = nc_reportPathAbsolute nc" "nc_sessionId nc' = nc_sessionId nc"
      "nc_buildId nc' = nc_buildId nc" "nc_anrMonitorEnabled nc' = nc_anrMonitorEnabled nc"
    by (simp_all add: assms)
qed

section \<open>Delivery\<close>

fun env_of :: "get_env \<Rightarrow> nat option" where
  "env_of (JNI_OK env) = Some env"
| "env_of (JNI_EDETACHED a) = a"
| "env_of JNI_EVERSION = None"

text \<open>A call that is allowed, with everything it leaves behind, for the steps of one report.\<close>

lemmas run_simps = call_and_clear_allowed allowed_def table_step_def note_local_def returns_local_def Let_def

text \<open>The local references once the thread has gone on: all are freed when the agent had attached it.\<close>

definition locals_left :: "get_env \<Rightarrow> nat \<Rightarrow> (nat \<Rightarrow> nat list) \<Rightarrow> nat \<Rightarrow> nat list" where
  "locals_left ge env locals = (case ge of JNI_EDETACHED _ \<Rightarrow> locals(env := []) | _ \<Rightarrow> locals)"

lemma threaded_call_runs:
  assumes "env_of ge = Some env" "env \<noteq> 0" "\<not> j_pending st env" "nc_jvm nc \<noteq> 0"
    and "s = ja_ref (vm (j_log st) (NewStringUTF report))" "s \<noteq> 0"
    and "r = ja_ref (vm (j_log st @ [NewStringUTF report]) (NewGlobalRef s))" "r \<noteq> 0"
  shows "threaded_delegate_call vm ge True (Some report) m nc st =
    Returns (True, Some \<lparr>da_env = env, da_delegate = nc_jniDelegateObject nc, da_method = m, da_backtrace = r\<rparr>,
      st\<lparr>j_globals := r # j_globals st, j_deleted := removeAll r (removeAll s (j_deleted st)),
         j_log := j_log st @ [NewStringUTF report, NewGlobalRef s],
         j_locals := locals_left ge env ((j_locals st)(env := s # j_locals st env))\<rparr>)"
  using assms
  by (cases ge) (simp_all add: locals_left_def attach_thread_def detach_thread_def threaded_delegate_call_def env_new_string_utf_def env_new_global_ref_def run_simps)

lemma worker_runs:
  assumes "env_of ge = Some env" "env \<noteq> 0" "\<not> j_pending st env"
    and "da_delegate w \<noteq> 0" "da_method w \<noteq> 0" "da_delegate w \<notin> set (j_deleted st)"
    and "da_backtrace w \<noteq> 0" "j_globals st = da_backtrace w # gs" "da_backtrace w \<notin> set (j_deleted st)"
  shows "delegate_worker_thread vm ge w st = Returns
    (st\<lparr>j_globals := gs, j_deleted := (if da_backtrace w \<in> set gs then j_deleted st else da_backtrace w # j_deleted st),
        j_log := j_log st @ [CallVoidMethodV (da_delegate w) (da_method w) [da_backtrace w], DeleteGlobalRef (da_backtrace w)],
        j_locals := locals_left ge env (j_locals st)\<rparr>)"
  using assms
  by (cases ge) (simp_all add: locals_left_def attach_thread_def detach_thread_def delegate_worker_thread_def env_call_void_method_def env_delete_global_ref_def
      env_check_and_clear_ex_def run_simps)

section \<open>A sample virtual machine\<close>

text \<open>It finds every class, method and field, never throws, and every string is the same.\<close>

fun sample_vm :: vm where
  "sample_vm log (FindClass _) = \<lparr>ja_ref = 11, ja_bool = False, ja_chars = None, ja_throws = False\<rparr>"
| "sample_vm log (GetMethodID _ _ _) = \<lparr>ja_ref = 12, ja_bool = False, ja_chars = None, ja_throws = False\<rparr>"
| "sample_vm log (NewObjectV _ _ _) = \<lparr>ja_ref = 13, ja_bool = False, ja_chars = None, ja_throws = False\<rparr>"
| "sample_vm log (NewGlobalRef r) = \<lparr>ja_ref = r + 100, ja_bool = False, ja_chars = None, ja_throws = False\<rparr>"
| "sample_vm log (NewStringUTF _) = \<lparr>ja_ref = 15, ja_bool = False, ja_chars = None, ja_throws = False\<rparr>"
| "sample_vm log (GetStringUTFChars _) = \<lparr>ja_ref = 0, ja_bool = False, ja_chars = Some ''abc'', ja_throws = False\<rparr>"
| "sample_vm log _ = \<lparr>ja_ref = 16, ja_bool = True, ja_chars = None, ja_throws = False\<rparr>"

definition sample_bound :: native_context where
  "sample_bound = zero_native_context\<lparr>nc_initialized := True, nc_jvm := 1, nc_jniDelegateObject := 113,
     nc_onNativeCrash := 12, nc_onNativeException := 12, nc_onApplicationNotResponding := 12\<rparr>"

definition sample_jvm :: jstate where
  "sample_jvm = jvm_loaded\<lparr>j_globals := [113], j_locals := (\<lambda>_. [])(1 := [13, 11]), j_log :=
     [FindClass delegate_class, GetMethodID 11 ''<init>'' ''()V'', NewObjectV 11 12 [], NewGlobalRef 13,
      GetMethodID 11 on_native_crash_method delegate_method_sig,
      GetMethodID 11 on_native_exception_method delegate_method_sig,
      GetMethodID 11 on_application_not_responding_method delegate_method_sig]\<rparr>"

lemma sample_bind:
  "bind_delegate sample_vm 1 (zero_native_context\<lparr>nc_jvm := 1\<rparr>) jvm_loaded = Returns (True, sample_bound, sample_jvm)"
  by (simp add: bind_delegate_def env_find_class_def env_get_methodid_def env_new_object_def env_new_global_ref_def
      run_simps jvm_loaded_def sample_bound_def sample_jvm_def)

section \<open>Properties\<close>

text \<open>
  C29. Binding and releasing balance, whatever the virtual machine answers: binding always
  returns, with no exception pending; and when it has bound a context that was not initialized,
  releasing that context gives back the table of global references as it was and clears the
  delegate's four references.
\<close>

theorem bind_release_balanced:
  assumes "\<not> j_pending st env" "\<not> nc_initialized nc"
  shows "returns_with (\<lambda>(ok, nc1, st1). \<not> j_pending st1 env \<and>
      (nc_initialized nc1 \<longrightarrow> ok \<and> bound nc1 \<and>
        returns_with (\<lambda>(nc2, st2). j_globals st2 = j_globals st \<and> \<not> j_pending st2 env \<and>
            nc2 = nc1\<lparr>nc_jniDelegateObject := 0, nc_onNativeCrash := 0, nc_onNativeException := 0,
                      nc_onApplicationNotResponding := 0\<rparr>)
          (release_delegate vm env nc1 st1)))
    (bind_delegate vm env nc st)"
  by (rule returns_with_mono [OF bind_delegate_safe [OF assms(1)]])
    (use assms(2) in \<open>auto simp: release_delegate_def env_delete_global_ref_def jsafe_def bound_def run_simps\<close>)

theorem bind_release_balanced_witness:
  "returns_with (\<lambda>(nc2, st2). j_globals st2 = [] \<and> nc_jniDelegateObject nc2 = 0)
     (release_delegate sample_vm 1 sample_bound sample_jvm)"
proof -
  have "\<not> j_pending jvm_loaded 1" "\<not> nc_initialized (zero_native_context\<lparr>nc_jvm := 1\<rparr>)" "nc_initialized sample_bound"
    by (simp_all add: jvm_loaded_def zero_native_context_def sample_bound_def)
  from bind_release_balanced [OF this(1,2), of sample_vm] this(3) show ?thesis
    unfolding sample_bind by (auto simp: jvm_loaded_def elim!: returns_with_mono)
qed

text \<open>
  C31. A report reaches the managed side. With a bound delegate whose reference is live, a virtual
  machine that gives both threads an environment without a pending exception (already there, or
  by attaching), makes the string and the global reference, and a worker thread that can be
  created: the call posts the text as a Java string under a global reference, the worker calls
  the delegate's method with it exactly once, and afterwards the global reference is gone, no
  exception is pending and every thread the agent attached is detached. The local reference of
  the string is never deleted: when the two threads have different environments, as threads do,
  it is freed if the agent had attached the calling thread, and otherwise stays among that
  thread's local references; no other environment's local references change, but that those of
  a worker the agent attached are freed.
\<close>

theorem report_delivered:
  assumes "env_of ge = Some env" "env \<noteq> 0" "\<not> j_pending st env" "env_of ge' = Some env'" "env' \<noteq> 0" "\<not> j_pending st env'"
    and "nc_jvm nc \<noteq> 0" "nc_jniDelegateObject nc \<noteq> 0" "nc_onNativeCrash nc \<noteq> 0"
    and "nc_jniDelegateObject nc \<notin> set (j_deleted st)"
    and "s = ja_ref (vm (j_log st) (NewStringUTF report))" "s \<noteq> 0"
    and "r = ja_ref (vm (j_log st @ [NewStringUTF report]) (NewGlobalRef s))" "r \<noteq> 0"
  shows "\<exists>w st1 st2. on_native_crash vm ge True (Some report) nc st = Returns (Some w, st1) \<and>
    delegate_worker_thread vm ge' w st1 = Returns st2 \<and>
    j_log st2 = j_log st @ [NewStringUTF report, NewGlobalRef s,
      CallVoidMethodV (nc_jniDelegateObject nc) (nc_onNativeCrash nc) [r], DeleteGlobalRef r] \<and>
    j_globals st2 = j_globals st \<and> j_pending st2 = j_pending st \<and> j_attached st2 = j_attached st \<and>
    (\<forall>e. e \<noteq> env \<and> e \<noteq> env' \<longrightarrow> j_locals st2 e = j_locals st e) \<and>
    (env' \<noteq> env \<longrightarrow> j_locals st2 env = (if ge = JNI_OK env then s # j_locals st env else [])) \<and>
    (env' \<noteq> env \<longrightarrow> j_locals st2 env' = (if ge' = JNI_OK env' then j_locals st env' else []))"
proof -
  let ?w = "\<lparr>da_env = env, da_delegate = nc_jniDelegateObject nc, da_method = nc_onNativeCrash nc, da_backtrace = r\<rparr>"
  let ?st1 = "st\<lparr>j_globals := r # j_globals st, j_deleted := removeAll r (removeAll s (j_deleted st)),
      j_log := j_log st @ [NewStringUTF report, NewGlobalRef s],
      j_locals := locals_left ge env ((j_locals st)(env := s # j_locals st env))\<rparr>"
  have "on_native_crash vm ge True (Some report) nc st = Returns (Some ?w, ?st1)"
    using threaded_call_runs [OF assms(1-3,7,11-14)] assms(7) by (simp add: on_native_crash_def)
  moreover have "delegate_worker_thread vm ge' ?w ?st1 = Returns
      (?st1\<lparr>j_globals := j_globals st, j_deleted := (if r \<in> set (j_globals st) then j_deleted ?st1 else r # j_deleted ?st1),
        j_log := j_log ?st1 @ [CallVoidMethodV (nc_jniDelegateObject nc) (nc_onNativeCrash nc) [r], DeleteGlobalRef r],
        j_locals := locals_left ge' env' (j_locals ?st1)\<rparr>)"
    using worker_runs [OF assms(4,5), of ?st1 ?w "j_globals st" vm] assms(6,8-10,14) by simp
  moreover have "(ge = JNI_OK env) = (\<nexists>a. ge = JNI_EDETACHED a)" "(ge' = JNI_OK env') = (\<nexists>a. ge' = JNI_EDETACHED a)"
    using assms(1,4) by (cases ge; cases ge'; auto)+
  ultimately show ?thesis
    by (intro exI conjI) (assumption | simp add: locals_left_def split: get_env.split)+
qed

theorem report_delivered_witness:
  "\<exists>w st1 st2. on_native_crash sample_vm (JNI_OK 1) True (Some ''{}'') sample_bound jvm_loaded = Returns (Some w, st1) \<and>
     delegate_worker_thread sample_vm (JNI_EDETACHED (Some 2)) w st1 = Returns st2 \<and>
     j_log st2 = [NewStringUTF ''{}'', NewGlobalRef 15, CallVoidMethodV 113 12 [115], DeleteGlobalRef 115] \<and>
     j_globals st2 = [] \<and> j_locals st2 1 = [15] \<and> j_locals st2 2 = []"
  using report_delivered [of "JNI_OK 1" 1 jvm_loaded "JNI_EDETACHED (Some 2)" 2 sample_bound 15 sample_vm "''{}''" 115]
  by (auto simp: jvm_loaded_def sample_bound_def)


text \<open>
  A release overtakes a report. The worker has copied the delegate's reference and runs
  detached: when the context is released before it runs, and that was the delegate's only global
  reference, the worker uses a deleted reference, which is undefined.
\<close>

theorem release_before_worker:
  assumes "env_of ge = Some env" "env \<noteq> 0" "\<not> j_pending st env" "env_of ge' = Some env'" "env' \<noteq> 0"
    and "nc_jvm nc \<noteq> 0" "nc_jniDelegateObject nc \<noteq> 0" "nc_onNativeCrash nc \<noteq> 0"
    and "j_globals st = [nc_jniDelegateObject nc]" "nc_jniDelegateObject nc \<notin> set (j_deleted st)"
    and "s = ja_ref (vm (j_log st) (NewStringUTF report))" "s \<noteq> 0"
    and "r = ja_ref (vm (j_log st @ [NewStringUTF report]) (NewGlobalRef s))" "r \<notin> {0, nc_jniDelegateObject nc}"
  shows "\<exists>w st1 nc2 st2. on_native_crash vm ge True (Some report) nc st = Returns (Some w, st1) \<and>
    release_delegate vm env nc st1 = Returns (nc2, st2) \<and> delegate_worker_thread vm ge' w st2 = Faults"
proof -
  let ?g = "nc_jniDelegateObject nc"
  let ?w = "\<lparr>da_env = env, da_delegate = ?g, da_method = nc_onNativeCrash nc, da_backtrace = r\<rparr>"
  let ?st1 = "st\<lparr>j_globals := [r, ?g], j_deleted := removeAll r (removeAll s (j_deleted st)),
      j_log := j_log st @ [NewStringUTF report, NewGlobalRef s],
      j_locals := locals_left ge env ((j_locals st)(env := s # j_locals st env))\<rparr>"
  let ?st2 = "?st1\<lparr>j_globals := [r], j_deleted := ?g # j_deleted ?st1, j_log := j_log ?st1 @ [DeleteGlobalRef ?g]\<rparr>"
  have "r \<noteq> 0" using assms(14) by simp
  then have "on_native_crash vm ge True (Some report) nc st = Returns (Some ?w, ?st1)"
    using threaded_call_runs [OF assms(1-3,6,11-13)] assms(6,9) by (simp add: on_native_crash_def)
  moreover have "\<exists>nc2. release_delegate vm env nc ?st1 = Returns (nc2, ?st2)"
    using assms(2,3,7,10,14) by (auto simp: release_delegate_def env_delete_global_ref_def run_simps)
  moreover have "delegate_worker_thread vm ge' ?w ?st2 = Faults"
    using assms(4,5,7,8)
    by (cases ge') (auto simp: attach_thread_def detach_thread_def delegate_worker_thread_def env_call_void_method_def env_check_and_clear_ex_def
        call_and_clear_def jni_call_def allowed_def)
  ultimately show ?thesis by blast
qed

theorem release_before_worker_witness:
  "\<exists>w st1 nc2 st2. on_native_crash sample_vm (JNI_OK 1) True (Some ''{}'') sample_bound sample_jvm = Returns (Some w, st1) \<and>
     release_delegate sample_vm 1 sample_bound st1 = Returns (nc2, st2) \<and>
     delegate_worker_thread sample_vm (JNI_EDETACHED (Some 2)) w st2 = Faults"
  using release_before_worker [of "JNI_OK 1" 1 sample_jvm "JNI_EDETACHED (Some 2)" 2 sample_bound 15 sample_vm "''{}''" 115]
  by (simp add: sample_jvm_def jvm_loaded_def sample_bound_def)

text \<open>
  A missing delegate class counts as bound: \<open>JNI_ERR\<close> is returned as a \<open>bool\<close>, which is true.
  Then a report is accepted and lost: the call and its worker return, the worker makes no call
  of a method.
\<close>

theorem missing_class_drops_reports:
  assumes "env_of ge = Some env" "env \<noteq> 0" "\<not> j_pending st env" "env_of ge' = Some env'" "env' \<noteq> 0" "\<not> j_pending st env'"
    and "nc_jvm nc \<noteq> 0" "nc_jniDelegateObject nc = 0" "ja_ref (vm (j_log st) (FindClass delegate_class)) = 0"
    and "log = j_log st @ [FindClass delegate_class]"
    and "s = ja_ref (vm log (NewStringUTF report))" "s \<noteq> 0"
    and "r = ja_ref (vm (log @ [NewStringUTF report]) (NewGlobalRef s))" "r \<noteq> 0"
  shows "\<exists>st1 w st2 st3. bind_delegate vm env nc st = Returns (True, nc, st1) \<and>
    on_native_crash vm ge True (Some report) nc st1 = Returns (Some w, st2) \<and>
    delegate_worker_thread vm ge' w st2 = Returns st3 \<and>
    j_log st3 = log @ [NewStringUTF report, NewGlobalRef s, DeleteGlobalRef r]"
proof -
  let ?w = "\<lparr>da_env = env, da_delegate = nc_jniDelegateObject nc, da_method = nc_onNativeCrash nc, da_backtrace = r\<rparr>"
  let ?st1 = "st\<lparr>j_log := log, j_deleted := removeAll 0 (j_deleted st)\<rparr>"
  let ?st2 = "?st1\<lparr>j_globals := r # j_globals ?st1, j_deleted := removeAll r (removeAll s (j_deleted ?st1)),
      j_log := j_log ?st1 @ [NewStringUTF report, NewGlobalRef s],
      j_locals := locals_left ge env ((j_locals ?st1)(env := s # j_locals ?st1 env))\<rparr>"
  have "bind_delegate vm env nc st = Returns (True, nc, ?st1)"
    using assms(2,3,9,10) by (simp add: bind_delegate_def env_find_class_def run_simps JNI_ERR_def bool_of_def)
  moreover have "on_native_crash vm ge True (Some report) nc ?st1 = Returns (Some ?w, ?st2)"
    using threaded_call_runs [of ge env ?st1 nc s vm report r "nc_onNativeCrash nc"] assms
    by (simp add: on_native_crash_def)
  moreover have "returns_with (\<lambda>st3. j_log st3 = log @ [NewStringUTF report, NewGlobalRef s, DeleteGlobalRef r])
      (delegate_worker_thread vm ge' ?w ?st2)"
    using assms(4,5,6,8,10,14)
    by (cases ge') (simp_all add: attach_thread_def detach_thread_def delegate_worker_thread_def env_call_void_method_def env_delete_global_ref_def
        env_check_and_clear_ex_def run_simps)
  ultimately show ?thesis
    unfolding returns_with_def by blast
qed

text \<open>The same machine without the agent's classes.\<close>

fun classless_vm :: vm where
  "classless_vm log (FindClass _) = \<lparr>ja_ref = 0, ja_bool = False, ja_chars = None, ja_throws = True\<rparr>"
| "classless_vm log c = sample_vm log c"

theorem missing_class_drops_reports_witness:
  "\<exists>st1 w st2 st3. bind_delegate classless_vm 1 (zero_native_context\<lparr>nc_jvm := 1\<rparr>) jvm_loaded =
       Returns (True, zero_native_context\<lparr>nc_jvm := 1\<rparr>, st1) \<and>
     on_native_crash classless_vm (JNI_OK 1) True (Some ''{}'') (zero_native_context\<lparr>nc_jvm := 1\<rparr>) st1 = Returns (Some w, st2) \<and>
     delegate_worker_thread classless_vm (JNI_EDETACHED (Some 2)) w st2 = Returns st3 \<and>
     (\<forall>c \<in> set (j_log st3). \<forall>g m args. c \<noteq> CallVoidMethodV g m args)"
  using missing_class_drops_reports [of "JNI_OK 1" 1 jvm_loaded "JNI_EDETACHED (Some 2)" 2 "zero_native_context\<lparr>nc_jvm := 1\<rparr>"
      classless_vm "[FindClass delegate_class]" 15 "''{}''" 115]
  by (fastforce simp: jvm_loaded_def zero_native_context_def)

end
