(* ===== verification/Managed_Context.thy ===== *)
theory Managed_Context
  imports Jni_Delegate
begin

text \<open>
  The operations of \<open>jni/native-context.cpp\<close> on the native context, and the load and unload hooks
  of \<open>jni/jni.cpp\<close> that call them. The context's mutex is a flag; whether the mutex calls succeed
  is a parameter.
\<close>

section \<open>Reading the managed context\<close>

text \<open>\<open>strncpy\<close> into an array whose last byte stays zero; a null source is dereferenced.\<close>

definition copy_chars :: "nat \<Rightarrow> string option \<Rightarrow> string outcome" where
  "copy_chars size_of src = (case src of None \<Rightarrow> Faults | Some s \<Rightarrow> Returns (strncpy_array size_of s))"

definition JAVA_STRING :: string where
  "JAVA_STRING = ''Ljava/lang/String;''"

text \<open>The three calls that read a string field.\<close>

definition string_field :: "vm \<Rightarrow> nat \<Rightarrow> nat \<Rightarrow> nat \<Rightarrow> string \<Rightarrow> jstate \<Rightarrow> (string option \<times> jstate) outcome" where
  "string_field vm env managedContext managedContextClass name st =
     bind_outcome (env_get_fieldid vm env managedContextClass (Some name) (Some JAVA_STRING) st) (\<lambda>(fieldId, st).
     bind_outcome (env_get_object_field vm env managedContext fieldId st) (\<lambda>(fieldObject, st).
       env_get_string_UTF_chars vm env fieldObject st))"

text \<open>The calls that read the path of the report directory; the class of the context is kept.\<close>

definition reports_path :: "vm \<Rightarrow> nat \<Rightarrow> nat \<Rightarrow> jstate \<Rightarrow> (nat \<times> string option \<times> jstate) outcome" where
  "reports_path vm env managedContext st =
     bind_outcome (env_get_object_class vm env managedContext st) (\<lambda>(managedContextClass, st).
     bind_outcome (env_find_class vm env (Some ''java/io/File'') st) (\<lambda>(fileClass, st).
     bind_outcome (env_get_methodid vm env fileClass (Some ''getAbsolutePath'') (Some (''()'' @ JAVA_STRING)) st)
       (\<lambda>(absolutePathMethodId, st).
     bind_outcome (env_get_fieldid vm env managedContextClass (Some ''reportsDir'') (Some ''Ljava/io/File;'') st)
       (\<lambda>(reportsDir, st).
     bind_outcome (env_get_object_field vm env managedContext reportsDir st) (\<lambda>(fileObject, st).
     bind_outcome (env_call_object_method vm env fileObject absolutePathMethodId st) (\<lambda>(pathObject, st).
     bind_outcome (env_get_string_UTF_chars vm env pathObject st) (\<lambda>(reportsPath, st).
       Returns (managedContextClass, reportsPath, st))))))))"

definition set_native_context ::
  "build \<Rightarrow> vm \<Rightarrow> nat \<Rightarrow> nat \<Rightarrow> native_context \<Rightarrow> jstate \<Rightarrow> (native_context \<times> jstate) outcome" where
  "set_native_context b vm env managedContext nc st =
     (if managedContext \<noteq> 0 then
        bind_outcome (reports_path vm env managedContext st) (\<lambda>(managedContextClass, reportsPath, st).
        bind_outcome (copy_chars (b_path_max b) reportsPath) (\<lambda>chars.
          let nc = nc\<lparr>nc_reportPathAbsolute := chars\<rparr> in
        bind_outcome (string_field vm env managedContext managedContextClass ''sessionId'' st) (\<lambda>(sessionId, st).
        bind_outcome (copy_chars 40 sessionId) (\<lambda>chars.
          let nc = nc\<lparr>nc_sessionId := chars\<rparr> in
        bind_outcome (string_field vm env managedContext managedContextClass ''buildId'' st) (\<lambda>(buildId, st).
        bind_outcome (copy_chars 40 buildId) (\<lambda>chars.
          let nc = nc\<lparr>nc_buildId := chars\<rparr> in
        bind_outcome (env_get_fieldid vm env managedContextClass (Some ''anrMonitor'') (Some ''Z'') st) (\<lambda>(fieldId, st).
        bind_outcome (env_get_boolean_field vm env managedContext fieldId st) (\<lambda>(anrMonitorEnabled, st).
          Returns (nc\<lparr>nc_anrMonitorEnabled := anrMonitorEnabled\<rparr>, st)))))))))
      else Returns (nc, st))"

section \<open>Releasing, loading and unloading\<close>

definition release_native_context ::
  "vm \<Rightarrow> bool \<Rightarrow> bool \<Rightarrow> nat \<Rightarrow> native_context \<Rightarrow> bool \<Rightarrow> jstate \<Rightarrow> (native_context \<times> bool \<times> jstate) outcome" where
  "release_native_context vm lock unlock env nc locked st =
     (if \<not> lock then Returns (nc, locked, st)
      else if locked then Blocks
      else if nc_initialized nc then
        bind_outcome (release_delegate vm env nc st) (\<lambda>(nc, st).
          Returns (nc\<lparr>nc_initialized := False\<rparr>, \<not> unlock, st))
      else Returns (nc, \<not> unlock, st))"

definition JNI_VERSION_1_6 :: int where
  "JNI_VERSION_1_6 = 0x00010006"

definition JNI_OnLoad ::
  "vm \<Rightarrow> get_env \<Rightarrow> nat \<Rightarrow> native_context \<Rightarrow> jstate \<Rightarrow> (int \<times> native_context \<times> jstate) outcome" where
  "JNI_OnLoad vm ge jvm nc st =
     (let nc = nc\<lparr>nc_initialized := False, nc_jvm := jvm\<rparr>
      in case ge of
           JNI_OK env \<Rightarrow>
             bind_outcome (bind_delegate vm env nc st) (\<lambda>(bound, nc, st).
               Returns (JNI_VERSION_1_6, nc\<lparr>nc_initialized := bound\<rparr>, st))
         | _ \<Rightarrow> Returns (JNI_ERR, nc, st))"

definition JNI_OnUnload ::
  "vm \<Rightarrow> get_env \<Rightarrow> bool \<Rightarrow> bool \<Rightarrow> native_context \<Rightarrow> bool \<Rightarrow> jstate \<Rightarrow> (native_context \<times> bool \<times> jstate) outcome" where
  "JNI_OnUnload vm ge lock unlock nc locked st =
     (case ge of
        JNI_OK _ \<Rightarrow> Returns (nc, locked, st)
      | _ \<Rightarrow> release_native_context vm lock unlock 0 nc locked st)"

section \<open>The managed side\<close>

text \<open>
  What the virtual machine answers for a managed context: its class has the four fields, the
  reports directory is a file with an absolute path, and a string is a null reference (\<open>None\<close>)
  or an object with its characters.
\<close>

definition string_object :: "vm \<Rightarrow> nat \<Rightarrow> string option \<Rightarrow> bool" where
  "string_object vm obj s \<longleftrightarrow>
     (case s of None \<Rightarrow> obj = 0
      | Some s \<Rightarrow> obj \<noteq> 0 \<and> (\<forall>log. ja_chars (vm log (GetStringUTFChars obj)) = Some s))"

definition has_string_field :: "vm \<Rightarrow> nat \<Rightarrow> nat \<Rightarrow> string \<Rightarrow> string option \<Rightarrow> bool" where
  "has_string_field vm mc cls name s \<longleftrightarrow>
     (\<exists>f obj. f \<noteq> 0 \<and> string_object vm obj s \<and>
       (\<forall>log. ja_ref (vm log (GetFieldID cls name JAVA_STRING)) = f \<and> ja_ref (vm log (GetObjectField mc f)) = obj))"

definition has_reports_dir :: "vm \<Rightarrow> nat \<Rightarrow> nat \<Rightarrow> string option \<Rightarrow> bool" where
  "has_reports_dir vm mc cls path \<longleftrightarrow>
     (\<exists>file m f dir obj. file \<noteq> 0 \<and> m \<noteq> 0 \<and> f \<noteq> 0 \<and> dir \<noteq> 0 \<and> string_object vm obj path \<and>
       (\<forall>log. ja_ref (vm log (GetObjectClass mc)) = cls \<and> ja_ref (vm log (FindClass ''java/io/File'')) = file \<and>
          ja_ref (vm log (GetMethodID file ''getAbsolutePath'' (''()'' @ JAVA_STRING))) = m \<and>
          ja_ref (vm log (GetFieldID cls ''reportsDir'' ''Ljava/io/File;'')) = f \<and>
          ja_ref (vm log (GetObjectField mc f)) = dir \<and> ja_ref (vm log (CallObjectMethod dir m [])) = obj))"

definition managed_context :: "vm \<Rightarrow> nat \<Rightarrow> string option \<Rightarrow> string option \<Rightarrow> string option \<Rightarrow> bool \<Rightarrow> bool" where
  "managed_context vm mc path session build anr \<longleftrightarrow>
     (\<exists>cls f. cls \<noteq> 0 \<and> f \<noteq> 0 \<and> has_reports_dir vm mc cls path \<and>
       has_string_field vm mc cls ''sessionId'' session \<and> has_string_field vm mc cls ''buildId'' build \<and>
       (\<forall>log. ja_ref (vm log (GetFieldID cls ''anrMonitor'' ''Z'')) = f \<and> ja_bool (vm log (GetBooleanField mc f)) = anr))"

text \<open>The state of the references while the context is read: nothing that was usable is lost.\<close>

lemma reports_path_reads:
  assumes "has_reports_dir vm mc cls path" "cls \<noteq> 0" "mc \<noteq> 0" "env \<noteq> 0" "jsafe env {mc} gs st"
  shows "\<exists>st'. reports_path vm env mc st = Returns (cls, path, st') \<and> jsafe env {mc, cls} gs st'"
proof -
  obtain fcls m f dir obj where refs: "fcls \<noteq> 0" "m \<noteq> 0" "f \<noteq> 0" "dir \<noteq> 0" "string_object vm obj path"
    and answers: "\<And>log. ja_ref (vm log (GetObjectClass mc)) = cls" "\<And>log. ja_ref (vm log (FindClass ''java/io/File'')) = fcls"
      "\<And>log. ja_ref (vm log (GetMethodID fcls ''getAbsolutePath'' (''()'' @ JAVA_STRING))) = m"
      "\<And>log. ja_ref (vm log (GetFieldID cls ''reportsDir'' ''Ljava/io/File;'')) = f"
      "\<And>log. ja_ref (vm log (GetObjectField mc f)) = dir" "\<And>log. ja_ref (vm log (CallObjectMethod dir m [])) = obj"
    using assms(1) unfolding has_reports_dir_def by blast
  show ?thesis
    using assms(2-5) refs answers
    by (cases path) (simp_all add: reports_path_def env_get_object_class_def env_find_class_def env_get_methodid_def
        env_get_fieldid_def env_get_object_field_def env_call_object_method_def env_get_string_UTF_chars_def
        string_object_def run_simps jsafe_def)
qed

lemma string_field_reads:
  assumes "has_string_field vm mc cls name s" "cls \<noteq> 0" "mc \<noteq> 0" "env \<noteq> 0" "jsafe env {mc, cls} gs st"
  shows "\<exists>st'. string_field vm env mc cls name st = Returns (s, st') \<and> jsafe env {mc, cls} gs st'"
proof -
  obtain f obj where f: "f \<noteq> 0" "string_object vm obj s"
      "\<And>log. ja_ref (vm log (GetFieldID cls name JAVA_STRING)) = f" "\<And>log. ja_ref (vm log (GetObjectField mc f)) = obj"
    using assms(1) by (auto simp: has_string_field_def)
  show ?thesis
    using assms(2-5) f
    by (cases s) (auto simp: string_field_def string_object_def env_get_fieldid_def env_get_object_field_def
        env_get_string_UTF_chars_def run_simps jsafe_def)
qed

text \<open>What a managed context becomes: the arrays hold the strings, cut to their sizes; a null
  string is dereferenced.\<close>

definition context_of ::
  "build \<Rightarrow> string option \<Rightarrow> string option \<Rightarrow> string option \<Rightarrow> bool \<Rightarrow> native_context \<Rightarrow> native_context outcome" where
  "context_of b path session build anr nc =
     (case (path, session, build) of
        (Some p, Some s, Some i) \<Rightarrow>
          Returns (nc\<lparr>nc_reportPathAbsolute := take (b_path_max b - 1) (c_str p), nc_sessionId := take 39 (c_str s),
                      nc_buildId := take 39 (c_str i), nc_anrMonitorEnabled := anr\<rparr>)
      | _ \<Rightarrow> Faults)"

lemma set_native_context_reads:
  assumes "managed_context vm mc path session build anr" "mc \<noteq> 0" "env \<noteq> 0" "jsafe env {mc} gs st"
  shows "case context_of b path session build anr nc of
      Returns nc' \<Rightarrow> \<exists>st'. set_native_context b vm env mc nc st = Returns (nc', st') \<and> jsafe env {mc} gs st'
    | _ \<Rightarrow> set_native_context b vm env mc nc st = Faults"
proof -
  obtain cls f where cls: "cls \<noteq> 0" "f \<noteq> 0" "has_reports_dir vm mc cls path"
      "has_string_field vm mc cls ''sessionId'' session" "has_string_field vm mc cls ''buildId'' build"
      "\<And>log. ja_ref (vm log (GetFieldID cls ''anrMonitor'' ''Z'')) = f" "\<And>log. ja_bool (vm log (GetBooleanField mc f)) = anr"
    using assms(1) unfolding managed_context_def by blast
  let ?safe = "jsafe env {mc, cls} gs"
  obtain st1 where st1: "reports_path vm env mc st = Returns (cls, path, st1)" "?safe st1"
    using reports_path_reads [OF cls(3,1) assms(2-4)] by blast
  obtain st2 where st2: "string_field vm env mc cls ''sessionId'' st1 = Returns (session, st2)" "?safe st2"
    using string_field_reads [OF cls(4,1) assms(2,3) st1(2)] by blast
  obtain st3 where st3: "string_field vm env mc cls ''buildId'' st2 = Returns (build, st3)" "?safe st3"
    using string_field_reads [OF cls(5,1) assms(2,3) st2(2)] by blast
  obtain st4 st5 where st4: "env_get_fieldid vm env cls (Some ''anrMonitor'') (Some ''Z'') st3 = Returns (f, st4)"
      "env_get_boolean_field vm env mc f st4 = Returns (anr, st5)" "?safe st5"
    using assms(2,3) cls(1,2,6,7) st3(2)
    by (auto simp: env_get_fieldid_def env_get_boolean_field_def run_simps jsafe_def)
  have "jsafe env {mc} gs st5" using st4(3) by (auto elim: jsafe_subset)
  then show ?thesis
    using assms(2) st1(1) st2(1) st3(1) st4(1,2)
    by (auto simp: set_native_context_def context_of_def copy_chars_def strncpy_array_def split: option.splits)
qed


section \<open>Properties\<close>

text \<open>
  C30. Reading the managed context. For a context with the four fields whose reference may be used,
  in an environment without a pending exception, every string is copied into its array, cut to the
  array less one byte, the monitor flag is taken over, the rest of the native context stays, no
  global reference is made and no exception is left pending; a null report path, session id or
  build id is dereferenced. The arrays of the two ids have 40 bytes, so of an id of 40 characters,
  the length the README gives, the last one is lost.
\<close>

theorem set_native_context_spec:
  assumes "managed_context vm mc path session build anr" "mc \<noteq> 0" "env \<noteq> 0"
    and "\<not> j_pending st env" "mc \<notin> set (j_deleted st)"
  shows "case context_of b path session build anr nc of
      Returns nc' \<Rightarrow> \<exists>st'. set_native_context b vm env mc nc st = Returns (nc', st') \<and>
        \<not> j_pending st' env \<and> j_globals st' = j_globals st
    | _ \<Rightarrow> set_native_context b vm env mc nc st = Faults"
proof -
  have "jsafe env {mc} (j_globals st) st" using assms(4,5) by (simp add: jsafe_def)
  from set_native_context_reads [OF assms(1-3) this, of b nc] show ?thesis
    by (auto simp: jsafe_def split: outcome.splits)
qed

lemma sample_managed_context:
  "managed_context sample_vm 20 (Some ''abc'') (Some ''abc'') (Some ''abc'') True"
  unfolding managed_context_def has_reports_dir_def has_string_field_def string_object_def
  by (intro exI [of _ 16] exI [of _ 12] exI [of _ 11] conjI allI) simp_all

theorem set_native_context_spec_witness:
  "\<exists>st'. set_native_context arm64_build sample_vm 1 20 zero_native_context jvm_loaded = Returns
     (zero_native_context\<lparr>nc_reportPathAbsolute := ''abc'', nc_sessionId := ''abc'', nc_buildId := ''abc'',
        nc_anrMonitorEnabled := True\<rparr>, st')"
  using set_native_context_spec [OF sample_managed_context, of 1 jvm_loaded arm64_build zero_native_context]
  by (auto simp: context_of_def jvm_loaded_def arm64_build_def c_str_def)

text \<open>
  Unloading releases nothing: the hook releases the context only when it got no
  environment, and then with a null one. Whatever the state, no call into the virtual machine is
  made and the delegate's reference stays.
\<close>

theorem unload_releases_nothing:
  "case JNI_OnUnload vm ge lock unlock nc locked st of
     Returns (nc', _, st') \<Rightarrow> st' = st \<and> nc_jniDelegateObject nc' = nc_jniDelegateObject nc
   | Blocks \<Rightarrow> locked
   | Faults \<Rightarrow> False"
  by (cases ge) (simp_all add: JNI_OnUnload_def release_native_context_def release_delegate_def)

end
