(* ===== verification/Agent_Entry.thy ===== *)
theory Agent_Entry
  imports Signal_Safety Anr_Safety Terminate_Handler Managed_Context
begin

text \<open>
  The entry points of \<open>agent-ndk.cpp\<close>, which the managed side calls: start, stop, the dump of the
  own stack, the deliberate crash and the setting of the context. The state gathers the
  components'; the three handlers keep the files they wrote apart, no path belongs to two of them.
\<close>

record agent =
  ag_native :: native_context
  ag_jni :: jstate
  ag_sh :: sh_state
  ag_anr :: anr_state
  ag_th :: th_state
  ag_initialized :: bool

text \<open>How the library calls of a start go: the platform's \<open>SIGSTKSZ\<close>, the signal handler's calls,
  the watchdog's creation, its semaphore and the SIGQUIT handler, and the mutex of the terminate
  handler; and whether the C++ library has an unexpected handler.\<close>

record start_calls =
  sc_sigstksz :: nat
  sc_sh :: sh_outcomes
  sc_anr_created :: bool
  sc_anr_sem :: bool
  sc_anr_installed :: bool
  sc_th_lock :: bool
  sc_th_unlock :: bool
  sc_unexpected :: bool

definition nativeStart ::
  "build \<Rightarrow> vm \<Rightarrow> filesystem \<Rightarrow> cint \<Rightarrow> start_calls \<Rightarrow> nat \<Rightarrow> nat \<Rightarrow> agent \<Rightarrow> (bool \<times> agent) outcome" where
  "nativeStart b vm fs pid sc env managedContext ag =
     bind_outcome (set_native_context b vm env managedContext (ag_native ag) (ag_jni ag)) (\<lambda>(nc, js).
     bind_outcome (bind_delegate vm env nc js) (\<lambda>(bound, nc, js).
       let nc = nc\<lparr>nc_initialized := bound\<rparr>; ag = ag\<lparr>ag_native := nc, ag_jni := js\<rparr> in
     bind_outcome (signal_handler_initialize (sc_sigstksz sc) (sc_sh sc) (ag_sh ag)) (\<lambda>(_, sh).
       let ag = ag\<lparr>ag_sh := sh\<rparr> in
     bind_outcome
       (if nc_anrMonitorEnabled nc then
          bind_outcome (anr_handler_initialize b fs pid (sc_anr_created sc) (sc_anr_sem sc) (sc_anr_installed sc) (ag_anr ag))
            (\<lambda>(_, an). Returns (ag\<lparr>ag_anr := an\<rparr>))
        else Returns ag) (\<lambda>ag.
     bind_outcome (terminate_handler_initialize (sc_unexpected sc) (sc_th_lock sc) (sc_th_unlock sc) (ag_th ag)) (\<lambda>(_, th).
       let ag = ag\<lparr>ag_th := th, ag_initialized := True\<rparr>
       in Returns (ag_initialized ag, ag))))))"

text \<open>\<open>posted\<close>: whether the stop's \<open>sem_post\<close> succeeds.\<close>

definition nativeStop :: "start_calls \<Rightarrow> bool \<Rightarrow> agent \<Rightarrow> agent outcome" where
  "nativeStop sc posted ag =
     bind_outcome (signal_handler_shutdown (sc_sh sc) (ag_sh ag)) (\<lambda>sh.
       let ag = ag\<lparr>ag_sh := sh\<rparr> in
     bind_outcome
       (if nc_anrMonitorEnabled (ag_native ag) then
          bind_outcome (anr_handler_shutdown posted (ag_anr ag)) (\<lambda>an. Returns (ag\<lparr>ag_anr := an\<rparr>))
        else Returns ag) (\<lambda>ag.
     bind_outcome (terminate_handler_shutdown (sc_unexpected sc) (sc_th_lock sc) (sc_th_unlock sc) (ag_th ag)) (\<lambda>th.
       Returns (ag\<lparr>ag_th := th\<rparr>))))"

definition zero_siginfo :: siginfo where
  "zero_siginfo = \<lparr>si_signo = 0, si_code = 0, si_addr = 0\<rparr>"

text \<open>These call the virtual machine directly: an exception stays pending, for the caller.\<close>

definition dumpStack :: "build \<Rightarrow> world \<Rightarrow> vm \<Rightarrow> nat \<Rightarrow> jstate \<Rightarrow> (nat \<times> jstate) outcome" where
  "dumpStack b w vm env st =
     (case collect_backtrace b w BACKTRACE_SZ_MAX (Some zero_siginfo) (Some zero_mcontext) of
        None \<Rightarrow> Faults
      | Some (complete, buffer) \<Rightarrow>
          if complete then
            bind_outcome (jni_call vm env (NewStringUTF (c_str buffer)) st) (\<lambda>(a, st). Returns (ja_ref a, st))
          else Returns (0, st))"

text \<open>An exception no frame catches: the runtime calls the terminate handler that is set.\<close>

definition uncaught ::
  "build \<Rightarrow> world \<Rightarrow> wall_clock \<Rightarrow> disk \<Rightarrow> bool \<Rightarrow> th_state \<Rightarrow> (th_end \<times> th_state) outcome" where
  "uncaught b w t d std_exception st =
     (case th_runtime st of
        Term_agent \<Rightarrow> terminateHandler b w t d (Some std_exception) st
      | h \<Rightarrow> Returns (Aborted, st\<lparr>th_called := th_called st @ [h]\<rparr>))"

definition crashNow ::
  "build \<Rightarrow> world \<Rightarrow> wall_clock \<Rightarrow> disk \<Rightarrow> vm \<Rightarrow> nat \<Rightarrow> nat \<Rightarrow> agent \<Rightarrow> (th_end \<times> agent) outcome" where
  "crashNow b w t d vm env cause ag =
     bind_outcome (jni_call vm env (GetStringUTFChars cause) (ag_jni ag)) (\<lambda>(a, js).
       case ja_chars a of
         None \<Rightarrow> Faults
       | Some _ \<Rightarrow>
           bind_outcome (uncaught b w t d True (ag_th ag)) (\<lambda>(e, th).
             Returns (e, ag\<lparr>ag_jni := js, ag_th := th\<rparr>)))"

definition nativeSetContext :: "build \<Rightarrow> vm \<Rightarrow> nat \<Rightarrow> nat \<Rightarrow> agent \<Rightarrow> agent outcome" where
  "nativeSetContext b vm env managedContext ag =
     bind_outcome (set_native_context b vm env managedContext (ag_native ag) (ag_jni ag)) (\<lambda>(nc, js).
       Returns (ag\<lparr>ag_native := nc, ag_jni := js\<rparr>))"

definition getProcessStat :: "build \<Rightarrow> filesystem \<Rightarrow> cint \<Rightarrow> vm \<Rightarrow> nat \<Rightarrow> jstate \<Rightarrow> (nat \<times> jstate) outcome" where
  "getProcessStat b fs pid vm env st =
     bind_outcome (jni_call vm env (NewStringUTF (c_str (get_process_stat b fs pid []))) st) (\<lambda>(a, st).
       Returns (ja_ref a, st))"


section \<open>Starting\<close>

text \<open>What the first half of a start leaves: the context of the managed side, whatever binding
  the delegate gave, and no exception pending.\<close>

lemma context_and_delegate:
  assumes "managed_context vm mc path session build anr" "mc \<noteq> 0" "env \<noteq> 0"
    and "\<not> j_pending st env" "mc \<notin> set (j_deleted st)" "context_of b path session build anr nc = Returns nc1"
  shows "\<exists>st1 ok nc2 st2. set_native_context b vm env mc nc st = Returns (nc1, st1) \<and>
    bind_delegate vm env nc1 st1 = Returns (ok, nc2, st2) \<and> \<not> j_pending st2 env \<and>
    nc_reportPathAbsolute nc2 = nc_reportPathAbsolute nc1 \<and> nc_sessionId nc2 = nc_sessionId nc1 \<and>
    nc_buildId nc2 = nc_buildId nc1 \<and> nc_anrMonitorEnabled nc2 = nc_anrMonitorEnabled nc1"
proof -
  have "jsafe env {mc} (j_globals st) st" using assms(4,5) by (simp add: jsafe_def)
  then obtain st1 where st1: "set_native_context b vm env mc nc st = Returns (nc1, st1)" "\<not> j_pending st1 env"
    using set_native_context_reads [OF assms(1-3), of "j_globals st" st b nc] assms(6) by (auto simp: jsafe_def)
  obtain ok nc2 st2 where st2: "bind_delegate vm env nc1 st1 = Returns (ok, nc2, st2)" "\<not> j_pending st2 env"
    using bind_delegate_safe [OF st1(2), of nc1 vm] by (auto simp: returns_with_def)
  with st1(1) bind_delegate_frame [OF st2(1)] show ?thesis by blast
qed

text \<open>A loaded agent, in an application with handlers of its own, and library calls that succeed.\<close>

definition sample_agent :: agent where
  "sample_agent = \<lparr>ag_native = zero_native_context\<lparr>nc_jvm := 1\<rparr>, ag_jni = jvm_loaded,
     ag_sh = loaded sample_kernel Map.empty, ag_anr = anr_loaded 7 SIG_DFL Map.empty,
     ag_th = th_loaded (Term_other 3) Term_default Map.empty, ag_initialized = False\<rparr>"

definition sample_calls :: start_calls where
  "sample_calls = \<lparr>sc_sigstksz = 8192, sc_sh = sh_all_ok, sc_anr_created = True, sc_anr_sem = True,
     sc_anr_installed = True, sc_th_lock = True, sc_th_unlock = True, sc_unexpected = True\<rparr>"

definition sample_context :: native_context where
  "sample_context = zero_native_context\<lparr>nc_jvm := 1, nc_reportPathAbsolute := ''abc'', nc_sessionId := ''abc'',
     nc_buildId := ''abc'', nc_anrMonitorEnabled := True\<rparr>"

lemma sample_facts:
  "\<not> j_pending (ag_jni sample_agent) 1" "20 \<notin> set (j_deleted (ag_jni sample_agent))"
  "context_of arm64_build (Some ''abc'') (Some ''abc'') (Some ''abc'') True (ag_native sample_agent) = Returns sample_context"
  "system_ok sh_all_ok" "\<not> sh_locked (ag_sh sample_agent)" "sh_initialized (ag_sh sample_agent) = 0"
  "signos (sh_signals (ag_sh sample_agent)) = signos observedSignals" "fs_dir quit_fs p \<noteq> None" "an_control (ag_anr sample_agent) = Idle"
  "\<not> th_locked (ag_th sample_agent)"
  using signos_observed(2)
  by (simp_all add: sample_agent_def jvm_loaded_def context_of_def sample_context_def c_str_def arm64_build_def
      system_ok_def sh_all_ok_def loaded_def quit_fs_def anr_loaded_def th_loaded_def)

section \<open>Properties\<close>

text \<open>
  C4. Start and stop compose. When the library calls succeed, the handlers are idle, no exception
  is pending and the task directory can be read, a start with a complete managed context returns
  true, with the context read, the terminate handler set and, if it is asked for, the ANR handler
  installed with its watchdog; the installer thread it has created gives exactly the six observed
  signals the interceptor; and after its run the stop returns, with these signals' actions, the
  heap and the two C++ handlers as they were, the watchdog joined and the report buffer freed. The
  action of SIGQUIT, which the ANR handler replaces without keeping the old one, stays the agent's.
\<close>

theorem start_stop_agent:
  assumes "managed_context vm mc path session build anr" "mc \<noteq> 0" "env \<noteq> 0"
    and "\<not> j_pending (ag_jni ag) env" "mc \<notin> set (j_deleted (ag_jni ag))"
    and "context_of b path session build anr (ag_native ag) = Returns nc1"
    and "system_ok (sc_sh sc)" "\<not> sh_locked (ag_sh ag)" "sh_initialized (ag_sh ag) = 0"
    and "signos (sh_signals (ag_sh ag)) = signos observedSignals"
    and "fs_dir fs (get_task_path b pid) \<noteq> None" "an_control (ag_anr ag) = Idle"
    and "sc_anr_created sc" "sc_anr_sem sc" "sc_anr_installed sc"
    and "\<not> th_locked (ag_th ag)" "sc_th_lock sc" "sc_th_unlock sc"
  shows "\<exists>ag1 sh ag2. nativeStart b vm fs pid sc env mc ag = Returns (True, ag1) \<and>
    th_runtime (ag_th ag1) = Term_agent \<and> sh_pending (ag_sh ag1) = Suc (sh_pending (ag_sh ag)) \<and>
    sh = install_signal_observers (sc_sh sc) ((ag_sh ag1)\<lparr>sh_pending := sh_pending (ag_sh ag)\<rparr>) \<and>
    (\<forall>i. k_disp (sh_kernel sh) i =
       (if i \<in> {SIGILL, SIGTRAP, SIGABRT, SIGFPE, SIGBUS, SIGSEGV}
        then \<lparr>sa_flags = SA_SIGINFO OR SA_ONSTACK, sa_handler = Interceptor\<rparr>
        else k_disp (sh_kernel (ag_sh ag)) i)) \<and>
    nativeStop sc True (ag1\<lparr>ag_sh := sh\<rparr>) = Returns ag2 \<and>
    nc_reportPathAbsolute (ag_native ag2) = nc_reportPathAbsolute nc1 \<and> nc_sessionId (ag_native ag2) = nc_sessionId nc1 \<and>
    nc_buildId (ag_native ag2) = nc_buildId nc1 \<and>
    k_disp (sh_kernel (ag_sh ag2)) = k_disp (sh_kernel (ag_sh ag)) \<and>
    k_heap (sh_kernel (ag_sh ag2)) = k_heap (sh_kernel (ag_sh ag)) \<and>
    th_runtime (ag_th ag2) = th_runtime (ag_th ag) \<and> th_unexpected (ag_th ag2) = th_unexpected (ag_th ag) \<and>
    (if anr then an_enabled (ag_anr ag1) \<and> an_has_thread (ag_anr ag1) \<and> an_buffer (ag_anr ag1) \<and>
       an_disp (ag_anr ag1) = Anr_Interceptor \<and>
       \<not> an_enabled (ag_anr ag2) \<and> \<not> an_has_thread (ag_anr ag2) \<and> an_watchdog (ag_anr ag2) = W_none \<and>
       \<not> an_buffer (ag_anr ag2) \<and> an_disp (ag_anr ag2) = Anr_Interceptor
     else ag_anr ag2 = ag_anr ag)"
proof -
  let ?os = "sc_sh sc" and ?u = "sc_unexpected sc"
  have monitor: "nc_anrMonitorEnabled nc1 = anr"
    using assms(6) by (auto simp: context_of_def split: option.splits)
  obtain js1 ok nc2 js2 where jni: "set_native_context b vm env mc (ag_native ag) (ag_jni ag) = Returns (nc1, js1)"
      "bind_delegate vm env nc1 js1 = Returns (ok, nc2, js2)"
    and nc2: "nc_reportPathAbsolute nc2 = nc_reportPathAbsolute nc1" "nc_sessionId nc2 = nc_sessionId nc1"
      "nc_buildId nc2 = nc_buildId nc1" "nc_anrMonitorEnabled nc2 = anr"
    using context_and_delegate [OF assms(1-6)] monitor by auto
  have "distinct (signos (sh_signals (ag_sh ag)))" using assms(10) signos_observed(2) by simp
  then obtain sh1 sh2 sh3 where sh: "signal_handler_initialize (sc_sigstksz sc) ?os (ag_sh ag) = Returns (True, sh1)"
      "sh_pending sh1 = Suc (sh_pending (ag_sh ag))"
      "sh2 = install_signal_observers ?os (sh1\<lparr>sh_pending := sh_pending (ag_sh ag)\<rparr>)"
      "\<forall>i. k_disp (sh_kernel sh2) i =
         (if i \<in> set (signos (sh_signals (ag_sh ag))) then interceptor_action else k_disp (sh_kernel (ag_sh ag)) i)"
      "signal_handler_shutdown ?os sh2 = Returns sh3"
      "k_disp (sh_kernel sh3) = k_disp (sh_kernel (ag_sh ag))" "k_heap (sh_kernel sh3) = k_heap (sh_kernel (ag_sh ag))"
    using start_stop_restores [OF assms(7-9), of "sc_sigstksz sc"] by blast
  then have installed: "\<forall>i. k_disp (sh_kernel sh2) i =
      (if i \<in> {SIGILL, SIGTRAP, SIGABRT, SIGFPE, SIGBUS, SIGSEGV}
       then \<lparr>sa_flags = SA_SIGINFO OR SA_ONSTACK, sa_handler = Interceptor\<rparr> else k_disp (sh_kernel (ag_sh ag)) i)"
    by (simp add: assms(10) signos_observed(1) interceptor_action_def)
  obtain an1 an2 where an: "anr_handler_initialize b fs pid True True True (ag_anr ag) = Returns (True, an1)"
      "an_enabled an1" "an_has_thread an1" "an_buffer an1" "an_disp an1 = Anr_Interceptor"
      "anr_handler_shutdown True an1 = Returns an2" "\<not> an_enabled an2" "\<not> an_has_thread an2" "an_watchdog an2 = W_none"
      "\<not> an_buffer an2" "an_disp an2 = Anr_Interceptor"
    using anr_start_stop [OF assms(11,12)] by blast
  obtain q th1 th2 where th: "terminate_handler_initialize ?u True True (ag_th ag) = Returns (q, th1)"
      "th_runtime th1 = Term_agent" "terminate_handler_shutdown ?u True True th1 = Returns th2"
      "th_runtime th2 = th_runtime (ag_th ag)" "th_unexpected th2 = th_unexpected (ag_th ag)"
    using terminate_start_stop [OF assms(16), of ?u] by (auto split: outcome.splits)
  have start: "nativeStart b vm fs pid sc env mc ag = Returns (True,
      ag\<lparr>ag_native := nc2\<lparr>nc_initialized := ok\<rparr>, ag_jni := js2, ag_sh := sh1,
        ag_anr := if anr then an1 else ag_anr ag, ag_th := th1, ag_initialized := True\<rparr>)" (is "_ = Returns (True, ?ag1)")
    using jni nc2 sh(1) an(1) th(1) assms(13-15,17,18)
    by (cases anr) (simp_all add: nativeStart_def)
  have stop: "nativeStop sc True (?ag1\<lparr>ag_sh := sh2\<rparr>) = Returns (?ag1\<lparr>ag_sh := sh3,
        ag_anr := if anr then an2 else ag_anr ag, ag_th := th2\<rparr>)" (is "_ = Returns ?ag2")
    using nc2 sh(5) an(6) th(3) assms(17,18) by (cases anr) (simp_all add: nativeStop_def)
  have "sh2 = install_signal_observers ?os ((ag_sh ?ag1)\<lparr>sh_pending := sh_pending (ag_sh ag)\<rparr>)"
    "sh_pending (ag_sh ?ag1) = Suc (sh_pending (ag_sh ag))"
    using sh(2,3) by simp_all
  then show ?thesis
    using start stop installed nc2 sh(6,7) an th
    by (intro exI [of _ ?ag1] exI [of _ sh2] exI [of _ ?ag2]) simp
qed


theorem start_stop_agent_witness:
  "\<exists>ag1 sh ag2. nativeStart arm64_build sample_vm quit_fs 7 sample_calls 1 20 sample_agent = Returns (True, ag1) \<and>
     sh = install_signal_observers sh_all_ok ((ag_sh ag1)\<lparr>sh_pending := 0\<rparr>) \<and>
     sa_handler (k_disp (sh_kernel sh) SIGSEGV) = Interceptor \<and>
     nativeStop sample_calls True (ag1\<lparr>ag_sh := sh\<rparr>) = Returns ag2 \<and>
     sa_handler (k_disp (sh_kernel (ag_sh ag2)) SIGSEGV) = App_Handler 5 \<and>
     nc_sessionId (ag_native ag2) = ''abc'' \<and> th_runtime (ag_th ag1) = Term_agent \<and>
     th_runtime (ag_th ag2) = Term_other 3 \<and> an_has_thread (ag_anr ag1) \<and> \<not> an_has_thread (ag_anr ag2)"
proof -
  have calls: "system_ok (sc_sh sample_calls)" "sc_sh sample_calls = sh_all_ok" "sc_anr_created sample_calls" "sc_anr_sem sample_calls"
    "sc_anr_installed sample_calls" "sc_th_lock sample_calls" "sc_th_unlock sample_calls"
    by (simp_all add: sample_calls_def)
  have facts: "sh_pending (ag_sh sample_agent) = 0" "k_disp (sh_kernel (ag_sh sample_agent)) SIGSEGV = \<lparr>sa_flags = 0, sa_handler = App_Handler 5\<rparr>"
    "th_runtime (ag_th sample_agent) = Term_other 3" "nc_sessionId sample_context = ''abc''"
    by (simp_all add: sample_agent_def loaded_def sample_kernel_def th_loaded_def sample_context_def)
  show ?thesis
    using start_stop_agent [OF sample_managed_context _ _ sample_facts(1-3) calls(1) sample_facts(5,6,7) _ sample_facts(9)
        calls(3-5) sample_facts(10) calls(6,7), of quit_fs 7] sample_facts(8) calls(2) facts
    by fastforce
qed

text \<open>
  A start reports success whatever fails. With the alternate stack refused the signal
  handler's start fails, yet \<open>nativeStart\<close> returns true and the agent counts as initialized; and
  the stop that follows waits for ever on the signal handler's mutex.
\<close>

theorem start_hides_failure:
  assumes "managed_context vm mc path session build anr" "mc \<noteq> 0" "env \<noteq> 0"
    and "\<not> j_pending (ag_jni ag) env" "mc \<notin> set (j_deleted (ag_jni ag))"
    and "context_of b path session build anr (ag_native ag) = Returns nc1"
    and "so_lock (sc_sh sc)" "\<not> sh_locked (ag_sh ag)"
    and "\<not> (o_malloc (so_sys (sc_sh sc)) \<and> o_sigaltstack (so_sys (sc_sh sc)))"
    and "anr \<longrightarrow> fs_dir fs (get_task_path b pid) \<noteq> None" "\<not> th_locked (ag_th ag)"
  shows "\<exists>ag1. nativeStart b vm fs pid sc env mc ag = Returns (True, ag1) \<and> ag_initialized ag1 \<and>
    nativeStop sc posted ag1 = Blocks"
proof -
  have monitor: "nc_anrMonitorEnabled nc1 = anr"
    using assms(6) by (auto simp: context_of_def split: option.splits)
  obtain js1 ok nc2 js2 where jni: "set_native_context b vm env mc (ag_native ag) (ag_jni ag) = Returns (nc1, js1)"
      "bind_delegate vm env nc1 js1 = Returns (ok, nc2, js2)" "nc_anrMonitorEnabled nc2 = anr"
    using context_and_delegate [OF assms(1-6)] monitor by auto
  obtain sh1 where sh: "signal_handler_initialize (sc_sigstksz sc) (sc_sh sc) (ag_sh ag) = Returns (False, sh1)"
      "signal_handler_shutdown (sc_sh sc) sh1 = Blocks"
    using failed_initialize [OF assms(7-9)] locked_blocks(2) [OF assms(7)] by blast
  have an: "\<exists>r an. anr_handler_initialize b fs pid (sc_anr_created sc) (sc_anr_sem sc) (sc_anr_installed sc) (ag_anr ag) = Returns (r, an)"
    if anr
    using that assms(10) by (auto simp: anr_handler_initialize_def init_begin_def detect_android_anr_handler_def Let_def)
  have th: "\<exists>r th. terminate_handler_initialize (sc_unexpected sc) (sc_th_lock sc) (sc_th_unlock sc) (ag_th ag) = Returns (r, th)"
    using assms(11) by (auto simp: terminate_handler_initialize_def set_terminate_def set_unexpected_def Let_def)
  show ?thesis
    using jni sh an th by (cases anr) (auto simp: nativeStart_def nativeStop_def)
qed

theorem start_hides_failure_witness:
  "\<exists>ag1. nativeStart arm64_build sample_vm quit_fs 7 (sample_calls\<lparr>sc_sh := sh_all_ok\<lparr>so_sys := all_ok\<lparr>o_malloc := False\<rparr>\<rparr>\<rparr>)
       1 20 sample_agent = Returns (True, ag1) \<and>
     nativeStop (sample_calls\<lparr>sc_sh := sh_all_ok\<lparr>so_sys := all_ok\<lparr>o_malloc := False\<rparr>\<rparr>\<rparr>) True ag1 = Blocks"
  using start_hides_failure [OF sample_managed_context _ _ sample_facts(1-3),
      of "sample_calls\<lparr>sc_sh := sh_all_ok\<lparr>so_sys := all_ok\<lparr>o_malloc := False\<rparr>\<rparr>\<rparr>" quit_fs 7 True] sample_facts(5,8,10)
  by (auto simp: sample_calls_def sh_all_ok_def)

text \<open>
  A monitor switched off is never stopped: the stop looks at the current context, so when the
  managed side sets a context without ANR monitoring after the start, the stop leaves the
  watchdog, the buffer and the SIGQUIT handler as they are.
\<close>

theorem monitor_switched_off:
  assumes "managed_context vm mc path session build False" "mc \<noteq> 0" "env \<noteq> 0"
    and "\<not> j_pending (ag_jni ag) env" "mc \<notin> set (j_deleted (ag_jni ag))"
    and "context_of b path session build False (ag_native ag) = Returns nc1"
    and "\<not> sh_locked (ag_sh ag)" "\<not> th_locked (ag_th ag)"
  shows "\<exists>ag1 ag2. nativeSetContext b vm env mc ag = Returns ag1 \<and> nativeStop sc posted ag1 = Returns ag2 \<and>
    ag_anr ag2 = ag_anr ag"
proof -
  have monitor: "\<not> nc_anrMonitorEnabled nc1"
    using assms(6) by (auto simp: context_of_def split: option.splits)
  obtain js1 where jni: "set_native_context b vm env mc (ag_native ag) (ag_jni ag) = Returns (nc1, js1)"
    using context_and_delegate [OF assms(1-6)] by blast
  have "\<exists>sh. signal_handler_shutdown (sc_sh sc) (ag_sh ag) = Returns sh"
    using assms(7) by (auto simp: signal_handler_shutdown_def mutex_lock_def)
  moreover have "\<exists>th. terminate_handler_shutdown (sc_unexpected sc) (sc_th_lock sc) (sc_th_unlock sc) (ag_th ag) = Returns th"
    using assms(8) by (auto simp: terminate_handler_shutdown_def Let_def)
  ultimately show ?thesis
    using jni monitor by (auto simp: nativeSetContext_def nativeStop_def)
qed

text \<open>The sample machine with a context that has monitoring off.\<close>

fun quiet_vm :: vm where
  "quiet_vm log (GetBooleanField _ _) = \<lparr>ja_ref = 0, ja_bool = False, ja_chars = None, ja_throws = False\<rparr>"
| "quiet_vm log c = sample_vm log c"

theorem monitor_switched_off_witness:
  "\<exists>ag1 ag2. nativeSetContext arm64_build quiet_vm 1 20 (sample_agent\<lparr>ag_anr := quit_installed\<rparr>) = Returns ag1 \<and>
     nativeStop sample_calls True ag1 = Returns ag2 \<and> an_enabled (ag_anr ag2) \<and> an_has_thread (ag_anr ag2)"
proof -
  let ?ag = "sample_agent\<lparr>ag_anr := quit_installed\<rparr>"
  have mc: "managed_context quiet_vm 20 (Some ''abc'') (Some ''abc'') (Some ''abc'') False"
    unfolding managed_context_def has_reports_dir_def has_string_field_def string_object_def
    by (intro exI [of _ 16] exI [of _ 12] exI [of _ 11] conjI allI) simp_all
  have "context_of arm64_build (Some ''abc'') (Some ''abc'') (Some ''abc'') False (ag_native ?ag) =
      Returns (sample_context\<lparr>nc_anrMonitorEnabled := False\<rparr>)"
    by (simp add: sample_agent_def context_of_def sample_context_def c_str_def arm64_build_def)
  from monitor_switched_off [OF mc _ _ _ _ this] sample_facts(1,2,5,10)
  show ?thesis by (fastforce simp: quit_defs)
qed

text \<open>
  C32. The dump of the stack is the report. For a process whose names, paths and identifiers need
  no escape (no quote, no backslash, no control character), whose library paths have at most 1023
  characters and whose tasks are distinct, on a platform of at most 64 numbered registers, and in
  an environment without a pending exception,
  \<open>dumpStack\<close> makes one Java string, of a text that reads back as the report collected with an
  empty signal and an empty register context. (A quoted symbol or a longer path breaks it:
  \<open>quoted_symbol_breaks_frame\<close>, \<open>long_path_breaks_frame\<close>.)
\<close>

theorem dump_stack_report:
  assumes "clean_world b w" "distinct_tids b w" "b_ngreg b \<le> 64" "\<not> j_pending st env"
  shows "\<exists>report st'. dumpStack b w vm env st = Returns (ja_ref (vm (j_log st) (NewStringUTF report)), st') \<and>
    j_log st' = j_log st @ [NewStringUTF report] \<and>
    parse_json report = Some (report_json b (w_fs w) (w_symbols w) (w_native w)
      (fill_backtrace b w zero_siginfo (Some zero_mcontext)) zero_mcontext zero_siginfo)"
proof -
  let ?text = "show_json DQ (report_json b (w_fs w) (w_symbols w) (w_native w)
      (fill_backtrace b w zero_siginfo (Some zero_mcontext)) zero_mcontext zero_siginfo)"
  note doc = report_text [OF assms(1-3), of zero_siginfo zero_mcontext]
  have "\<exists>st'. dumpStack b w vm env st = Returns (ja_ref (vm (j_log st) (NewStringUTF ?text)), st') \<and>
      j_log st' = j_log st @ [NewStringUTF ?text]"
    using assms(4) by (simp add: dumpStack_def doc(1) c_str_id [OF doc(2)] jni_call_def allowed_def Let_def)
  with doc(4) show ?thesis by blast
qed

theorem dump_stack_report_witness:
  "\<exists>report st'. dumpStack arm64_build sample_world sample_vm 1 jvm_loaded = Returns (15, st') \<and>
     j_log st' = [NewStringUTF report] \<and> parse_json report \<noteq> None"
proof -
  have "b_ngreg arm64_build \<le> 64" "\<not> j_pending jvm_loaded 1" by (simp_all add: arm64_build_def jvm_loaded_def)
  from dump_stack_report [OF sample_world_facts(1,2) this, of sample_vm] show ?thesis
    by (auto simp: jvm_loaded_def)
qed

end
