(* ===== verification/Sample_Procfs.thy ===== *)
theory Sample_Procfs
  imports Procfs
begin

text \<open>
  \<open>samples/.../procfs.cpp\<close>: the copy of the readers that the sample application is built with,
  here at the level of its buffers. The trimming loop stores a NUL into the array under a moving
  pointer; the readers are shown to return what the agent's return.
\<close>

section \<open>Buffers\<close>

text \<open>\<open>i\<close> is the offset of \<open>buffEol\<close>; \<open>strpbrk\<close> sees the C string that starts there.\<close>

fun sample_trim_loop :: "string \<Rightarrow> nat \<Rightarrow> string" where
  "sample_trim_loop buff 0 = buff"
| "sample_trim_loop buff (Suc i) =
     (if strpbrk (c_str (drop (Suc i) buff)) ws_chars then sample_trim_loop (buff[Suc i := NUL]) i else buff)"

text \<open>For an empty string the pointer starts before the array and the loop does not run.\<close>

definition sample_trim_trailing_ws :: "string \<Rightarrow> string" where
  "sample_trim_trailing_ws buff = sample_trim_loop buff (length (c_str buff) - 1)"

text \<open>The array after \<open>fgets\<close>: the line, its terminator, and whatever was there before.\<close>

definition sample_read_line :: "filesystem \<Rightarrow> string \<Rightarrow> string \<Rightarrow> string option" where
  "sample_read_line fs rest path =
     (case fs_read fs path of
        None \<Rightarrow> None
      | Some content \<Rightarrow>
          (case fgets 1024 content of
             None \<Rightarrow> None
           | Some (line, _) \<Rightarrow> Some (c_str (sample_trim_trailing_ws (line @ NUL # rest)))))"

section \<open>Readers\<close>

definition sample_get_process_name :: "build \<Rightarrow> filesystem \<Rightarrow> string \<Rightarrow> cint \<Rightarrow> string" where
  "sample_get_process_name b fs rest pid =
     (case sample_read_line fs rest (proc_path b ''/proc/%d/cmdline'' [int_arg pid]) of
        None \<Rightarrow> ''<unknown>'' | Some processName \<Rightarrow> processName)"

definition sample_get_thread_name :: "build \<Rightarrow> filesystem \<Rightarrow> string \<Rightarrow> cint \<Rightarrow> cint \<Rightarrow> string" where
  "sample_get_thread_name b fs rest pid tid =
     (case sample_read_line fs rest (proc_path b ''/proc/%d/task/%d/comm'' [int_arg pid, int_arg tid]) of
        None \<Rightarrow> ''<unknown>'' | Some threadName \<Rightarrow> threadName)"

definition sample_get_thread_status_path :: "build \<Rightarrow> cint \<Rightarrow> cint \<Rightarrow> string" where
  "sample_get_thread_status_path b pid tid = proc_path b ''/proc/%d/task/%d/status'' [int_arg pid, int_arg tid]"

definition sample_get_thread_stat :: "build \<Rightarrow> filesystem \<Rightarrow> string \<Rightarrow> cint \<Rightarrow> cint \<Rightarrow> string \<Rightarrow> string" where
  "sample_get_thread_stat b fs rest pid tid stat =
     (case sample_read_line fs rest (proc_path b ''/proc/%d/task/%d/stat'' [int_arg pid, int_arg tid]) of
        None \<Rightarrow> stat | Some line \<Rightarrow> line)"

definition sample_get_task_path :: "build \<Rightarrow> cint \<Rightarrow> string" where
  "sample_get_task_path b pid = proc_path b ''/proc/%d/task'' [int_arg pid]"

section \<open>The buffer holds the trimmed string\<close>

lemma c_str_drop: "n \<le> length (c_str s) \<Longrightarrow> c_str (drop n s) = drop n (c_str s)"
proof (induction n arbitrary: s)
  case (Suc n)
  then show ?case by (cases s) (auto simp: c_str_def split: if_splits)
qed simp

lemma c_str_terminate: "n < length (c_str s) \<Longrightarrow> c_str (s[n := NUL]) = take n (c_str s)"
proof (induction n arbitrary: s)
  case 0
  then show ?case by (cases s) (auto simp: c_str_def)
next
  case (Suc n)
  then show ?case by (cases s) (auto simp: c_str_def split: if_splits)
qed

lemma c_str_sample_trim_loop:
  "length (c_str buff) = Suc i \<Longrightarrow> c_str (sample_trim_loop buff i) = trim_loop (c_str buff) i"
proof (induction i arbitrary: buff)
  case (Suc i)
  have "c_str (drop (Suc i) buff) = drop (Suc i) (c_str buff)" "c_str (buff[Suc i := NUL]) = take (Suc i) (c_str buff)"
    using Suc.prems by (simp_all add: c_str_drop c_str_terminate)
  then show ?case using Suc.IH [of "buff[Suc i := NUL]"] Suc.prems by simp
qed simp

lemma c_str_sample_trim: "c_str (sample_trim_trailing_ws buff) = trim_trailing_ws (c_str buff)"
proof (cases "length (c_str buff)")
  case (Suc i)
  then show ?thesis by (simp add: sample_trim_trailing_ws_def trim_trailing_ws_def c_str_sample_trim_loop)
qed (simp add: sample_trim_trailing_ws_def)

lemma c_str_append_NUL: "c_str (s @ NUL # r) = c_str s"
  by (induction s) (simp_all add: c_str_def)

lemma sample_read_line_first_line: "sample_read_line fs rest path = first_line fs path"
  by (simp add: sample_read_line_def first_line_def c_str_sample_trim c_str_append_NUL split: option.split)

text \<open>
  C34. The readers over their buffers are the agent's readers: whatever the arrays held before,
  trimming in place leaves the trimmed string, and each reader of the sample returns what the
  agent's reader returns for the same file system and numbers.
\<close>

theorem sample_readers_agree:
  "c_str (sample_trim_trailing_ws buff) = trim_trailing_ws (c_str buff) \<and>
   sample_get_process_name b fs rest pid = get_process_name b fs pid \<and>
   sample_get_thread_name b fs rest pid tid = get_thread_name b fs pid tid \<and>
   sample_get_thread_status_path b pid tid = get_thread_status_path b pid tid \<and>
   sample_get_thread_stat b fs rest pid tid stat = get_thread_stat b fs pid tid stat \<and>
   sample_get_task_path b pid = get_task_path b pid"
  by (simp add: c_str_sample_trim sample_get_process_name_def get_process_name_def sample_get_thread_name_def
      get_thread_name_def sample_get_thread_status_path_def get_thread_status_path_def sample_get_thread_stat_def
      get_thread_stat_def sample_get_task_path_def get_task_path_def sample_read_line_first_line split: option.split)

end
