(* ===== verification/Sample_App.thy ===== *)
theory Sample_App
  imports Agent_Entry Sample_Procfs
begin

text \<open>
  The native half of the sample application (\<open>samples/.../native-lib.cpp\<close>), which crashes on
  purpose so that the agent has something to report: the ways to crash, alone or on background
  threads, and what becomes of the arguments the threads share. Its own
  \<open>procfs.cpp\<close> is \<open>Sample_Procfs\<close>.
\<close>

section \<open>The architecture name\<close>

text \<open>The compiler's predefined macros.\<close>

record macros =
  m_arm :: bool
  m_arm_arch_7a :: bool
  m_arm_neon :: bool
  m_arm_pcs_vfp :: bool
  m_i386 :: bool
  m_x86_64 :: bool
  m_mips64 :: bool
  m_mips :: bool
  m_aarch64 :: bool

definition sample_get_arch :: "macros \<Rightarrow> string" where
  "sample_get_arch m =
     (if m_arm m then
        (if m_arm_arch_7a m then
           (if m_arm_neon m then
              (if m_arm_pcs_vfp m then ''armeabi-v7a/NEON (hard-float)'' else ''armeabi-v7a/NEON'')
            else if m_arm_pcs_vfp m then ''armeabi-v7a (hard-float)'' else ''armeabi-v7a'')
         else ''armeabi'')
      else if m_i386 m then ''x86''
      else if m_x86_64 m then ''x86_64''
      else if m_mips64 m then ''mips64''
      else if m_mips m then ''mips''
      else if m_aarch64 m then ''arm64-v8a''
      else ''unknown'')"

text \<open>\<open>rest\<close>: what the reader's buffer held before.\<close>

definition install_text :: "build \<Rightarrow> macros \<Rightarrow> filesystem \<Rightarrow> string \<Rightarrow> cint \<Rightarrow> cint \<Rightarrow> cint \<Rightarrow> string" where
  "install_text b m fs rest pid ppid tid =
     vsnprintf (abi_bits b) 0x200
       (''Process[%s]'' @ [NL] @ ''ABI[%s] '' @ [NL] @ ''pid[%d]'' @ [NL] @ ''ppid[%d]'' @ [NL] @ ''thread[%d]'' @ [NL])
       [Str (sample_get_process_name b fs rest pid), Str (sample_get_arch m), int_arg pid, int_arg ppid, int_arg tid]"

definition installNative ::
  "build \<Rightarrow> macros \<Rightarrow> filesystem \<Rightarrow> string \<Rightarrow> cint \<Rightarrow> cint \<Rightarrow> cint \<Rightarrow> vm \<Rightarrow> nat \<Rightarrow> jstate \<Rightarrow> (nat \<times> jstate) outcome" where
  "installNative b m fs rest pid ppid tid vm env st =
     bind_outcome (jni_call vm env (NewStringUTF (install_text b m fs rest pid ppid tid)) st) (\<lambda>(a, st).
       Returns (ja_ref a, st))"

section \<open>Crashing\<close>

text \<open>What a deliberate crash does: a store through a null pointer, a division by zero, the
  signal sent to the own thread, and waiting for oneself.\<close>

datatype crash_act = Store_null | Divide_by_zero | Tgkill int | Waitpid

definition crashBySignal :: "int \<Rightarrow> crash_act list" where
  "crashBySignal signo =
     (if signo = SIGSEGV then [Store_null]
      else if signo = SIGFPE then [Divide_by_zero]
      else if signo \<in> {SIGABRT, SIGTRAP, SIGBUS, SIGILL} then [Tgkill signo, Waitpid]
      else if signo = SIGQUIT then [Tgkill SIGQUIT]
      else [])"

definition raiseSignal :: "int \<Rightarrow> crash_act list \<times> nat" where
  "raiseSignal signo = (crashBySignal signo, 0)"

datatype std_exception = Logic_error | Domain_error | Invalid_argument | Length_error | Out_of_range
  | Runtime_error | Range_error | Overflow_error | Underflow_error | Bad_cast | Bad_alloc

definition exception_ids :: "std_exception list" where
  "exception_ids = [Logic_error, Domain_error, Invalid_argument, Length_error, Out_of_range,
     Runtime_error, Range_error, Overflow_error, Underflow_error, Bad_cast, Bad_alloc]"

text \<open>The exception thrown, or the null object returned.\<close>

definition raiseException :: "int \<Rightarrow> std_exception + nat" where
  "raiseException exception_name_id =
     (if 0 \<le> exception_name_id \<and> exception_name_id < int (length exception_ids)
      then Inl (exception_ids ! nat exception_name_id) else Inr 0)"

section \<open>Crashing in the background\<close>

record thread_args =
  ta_signo :: cint
  ta_sleepSec :: uptr
  ta_thread_count :: uptr
  ta_detach :: bool
  ta_join :: bool

text \<open>The name a worker gives itself: 15 bytes of buffer are offered, of 16.\<close>

definition worker_name :: "build \<Rightarrow> cint \<Rightarrow> cint \<Rightarrow> string" where
  "worker_name b tid signo = vsnprintf (abi_bits b) (16 - 1) ''Worker-%d-%d'' [int_arg tid, int_arg signo]"

text \<open>A worker reads its arguments, names itself (a failure is only logged), sleeps and crashes.
  \<open>None\<close> stands for arguments that are freed: reading them is a fault.\<close>

definition crashing_thread :: "build \<Rightarrow> cint \<Rightarrow> thread_args option \<Rightarrow> (string \<times> crash_act list) outcome" where
  "crashing_thread b tid args =
     (case args of
        None \<Rightarrow> Faults
      | Some a \<Rightarrow> Returns (worker_name b tid (ta_signo a), crashBySignal (sint (ta_signo a))))"

record background =
  bg_args :: "thread_args option"
  bg_workers :: nat

text \<open>The creating loop: \<open>created i\<close> says whether the \<open>i\<close>-th \<open>pthread_create\<close> succeeds.\<close>

fun create_workers :: "(nat \<Rightarrow> bool) \<Rightarrow> nat \<Rightarrow> nat \<Rightarrow> background \<Rightarrow> background" where
  "create_workers created i 0 bg = bg"
| "create_workers created i (Suc n) bg =
     (if created i then create_workers created (Suc i) n (bg\<lparr>bg_workers := Suc (bg_workers bg)\<rparr>)
      else bg\<lparr>bg_args := None\<rparr>)"

definition backgroundCrash :: "build \<Rightarrow> (nat \<Rightarrow> bool) \<Rightarrow> cint \<Rightarrow> cint \<Rightarrow> cint \<Rightarrow> bool \<Rightarrow> background" where
  "backgroundCrash b created signo sleep_sec thread_cnt detached =
     create_workers created 0 (nat (sint thread_cnt))
       \<lparr>bg_args = Some \<lparr>ta_signo = signo, ta_sleepSec = take_bit (abi_bits b) (scast sleep_sec),
          ta_thread_count = take_bit (abi_bits b) (scast thread_cnt),
          ta_detach = detached, ta_join = False\<rparr>, bg_workers = 0\<rparr>"

text \<open>The loop that keeps the main thread busy: it stores its counter and goes on, on 32 bits.\<close>

partial_function (option) triggerNativeANR :: "32 word \<Rightarrow> 32 word \<Rightarrow> (32 word) option" where
  "triggerNativeANR anrCounter i = triggerNativeANR i (i + 1)"

section \<open>Facts\<close>

lemma trigger_never_returns: "triggerNativeANR anrCounter i = None"
proof -
  have "False" if "triggerNativeANR c j = Some y" for c j y
    using triggerNativeANR.raw_induct [where P = "\<lambda>_ _ _. False"] that by blast
  then show ?thesis by (cases "triggerNativeANR anrCounter i") auto
qed

text \<open>The text shown at the start fits its array, and the name of a worker is always accepted by
  \<open>pthread_setname_np\<close>, which takes at most 15 characters.\<close>

lemma install_text_fits: "length (install_text b m fs rest pid ppid tid) < 0x200"
  unfolding install_text_def by (rule le_less_trans [OF length_vsnprintf]) simp

lemma worker_name_fits: "length (worker_name b tid signo) \<le> 15"
  unfolding worker_name_def by (rule order_trans [OF length_vsnprintf]) simp

text \<open>Every signal the agent observes, and no other but SIGQUIT, can be provoked.\<close>

lemma crash_covers_observed:
  "crashBySignal signo \<noteq> [] \<longleftrightarrow> signo \<in> set (signos observedSignals) \<union> {SIGQUIT}"
  by (auto simp: crashBySignal_def signos_observed(1))

text \<open>A thrown exception ends in the agent's terminate handler, which faults on it.\<close>

lemma thrown_exception_faults:
  "raiseException i = Inl e \<Longrightarrow> th_runtime st = Term_agent \<Longrightarrow> uncaught b w t d True st = Faults"
  by (simp add: uncaught_def terminateHandler_def save_exception_def collect_backtrace_def)

lemma create_workers_all:
  "\<forall>k < n. created (i + k) \<Longrightarrow> create_workers created i n bg = bg\<lparr>bg_workers := bg_workers bg + n\<rparr>"
proof (induction n arbitrary: i bg)
  case (Suc n)
  then have "created i" "\<forall>k < n. created (Suc i + k)"
    by (force, metis Suc_less_eq add_Suc_shift)
  then show ?case using Suc.IH by simp
qed simp

lemma create_workers_fails:
  "k < n \<Longrightarrow> \<not> created (i + k) \<Longrightarrow> \<forall>j < k. created (i + j) \<Longrightarrow>
   create_workers created i n bg = bg\<lparr>bg_workers := bg_workers bg + k, bg_args := None\<rparr>"
proof (induction n arbitrary: i k bg)
  case (Suc n)
  show ?case
  proof (cases k)
    case 0
    then show ?thesis using Suc.prems(2) by simp
  next
    case (Suc k')
    then have "created i" "\<forall>j < k'. created (Suc i + j)"
      using Suc.prems(3) by (force, metis Suc_less_eq add_Suc_shift)
    then show ?thesis using Suc.IH [of k' "Suc i"] Suc.prems(1,2) Suc by simp
  qed
qed simp

text \<open>
  When every worker is created the arguments live on, nobody frees them, and each worker crashes
  with the requested signal. When the creation of a later worker fails, the arguments are freed
  under the workers that were created before it.
\<close>

lemma background_crash_all:
  assumes "\<forall>k < nat (sint thread_cnt). created k"
  shows "bg_workers (backgroundCrash b created signo sleep_sec thread_cnt detached) = nat (sint thread_cnt) \<and>
    crashing_thread b tid (bg_args (backgroundCrash b created signo sleep_sec thread_cnt detached)) =
      Returns (worker_name b tid signo, crashBySignal (sint signo))"
  using create_workers_all [of "nat (sint thread_cnt)" created 0] assms
  by (simp add: backgroundCrash_def crashing_thread_def)

lemma failed_worker_frees_arguments:
  assumes "0 < k" "k < nat (sint thread_cnt)" "\<not> created k" "\<forall>j < k. created j"
  shows "bg_workers (backgroundCrash b created signo sleep_sec thread_cnt detached) = k \<and>
    crashing_thread b tid (bg_args (backgroundCrash b created signo sleep_sec thread_cnt detached)) = Faults"
  using create_workers_fails [of k "nat (sint thread_cnt)" created 0] assms
  by (simp add: backgroundCrash_def crashing_thread_def)

end
