(* ===== verification/Report_Limits.thy ===== *)
theory Report_Limits
  imports Emitter_Spec
begin

text \<open>
  What a report does not say: the inputs for which the emitter loses or cannot express the
  collected data. Each statement is about the emitter as it is written.
\<close>

text \<open>
  C39. Without a register context the report ends after the process context: the null pointer
  \<open>emit_registers\<close> returns ends the variable argument list of \<open>_EMIT_E\<close>, so the exception and
  every collected thread are dropped, whatever they are.
\<close>

theorem report_without_ucontext:
  assumes "wf_context b fs nc bt" "bs_sa_ucontext (bt_state bt) = None"
  shows "parse_json (emit_backtrace b fs sy nc bt) =
    Some (JObj [(''backtrace'', JObj (context_members b fs nc bt))])"
proof -
  let ?j = "JObj [(''backtrace'', JObj (context_members b fs nc bt))]"
  note clean = clean_context_json [OF assms(1)]
  then have cj: "clean_json ?j" by (simp add: clean_simps clean_char_def)
  have "emit_backtrace b fs sy nc bt = map requote (show_json SQ ?j)"
    using show_members_no_NUL [OF clean]
    by (simp add: emit_backtrace_def EMIT_E_def emit_name_eq emit_registers_def assms(2)
        emit_context_json [OF assms(1)] c_str_id show_JObj show_members_Cons show_member_def
        clean_simps clean_char_def del: show_json.simps)
  then show ?thesis using requote_show [OF cj] parse_json_show [OF cj] by simp
qed

theorem report_without_ucontext_witness:
  "parse_json (emit_backtrace arm64_build sample_files no_symbols zero_native_context
      (sample_backtrace\<lparr>bt_state := zero_backtrace_state\<rparr>)) =
    Some (JObj [(''backtrace'', JObj (context_members arm64_build sample_files zero_native_context
      (sample_backtrace\<lparr>bt_state := zero_backtrace_state\<rparr>)))])"
  by (rule report_without_ucontext)
    (use sample_context in \<open>simp_all add: wf_context_def zero_backtrace_state_def\<close>)

text \<open>
  A null \<open>siginfo\<close> leaves a comma before a closing brace: the exception object is not JSON.
\<close>

theorem exception_without_siginfo:
  "emit_signal_context b None state =
     state @ SQ # ''exception'' @ SQ # '':{'' @ SQ # ''name'' @ SQ # '':'' @ SQ # ''Native exception'' @ SQ # '',}'' \<and>
   parse_json (map requote (''{'' @ emit_signal_context b None [] @ ''}'')) = None"
proof -
  have eq: "emit_signal_context b None s =
      s @ SQ # ''exception'' @ SQ # '':{'' @ SQ # ''name'' @ SQ # '':'' @ SQ # ''Native exception'' @ SQ # '',}''" for s
    by (simp add: emit_signal_context_def EMIT_E_def emit_name_eq emit_field_simps clean_simps clean_char_def)
  show ?thesis
    unfolding eq by (rule conjI, rule refl, simp add: requote_def, code_simp)
qed

text \<open>
  On ARM the registers r0 to r10 never reach the report: two contexts that differ in
  nothing else give the same text.
\<close>

theorem arm_report_hides_r0_r10:
  assumes "b_abi b = ARM"
  shows "emit_registers b (Some (mc\<lparr>mc_arm_r := r\<rparr>)) state = emit_registers b (Some mc) state"
  using assms by (simp add: emit_registers_json registers_members_def)

theorem arm_report_hides_r0_r10_witness:
  "emit_registers arm_build (Some (zero_mcontext\<lparr>mc_arm_r := (\<lambda>_. 0xDEADBEEF)\<rparr>)) [] =
   emit_registers arm_build (Some zero_mcontext) []"
  using arm_report_hides_r0_r10 [of arm_build "\<lambda>_. 0xDEADBEEF" zero_mcontext "[]"]
  by (simp add: arm_build_def)

text \<open>
  On arm64 the general registers, \<open>lr\<close>, \<open>sp\<close>, \<open>pc\<close> and \<open>pst\<close> are reported by their low 32
  bits only: cutting them to 32 bits changes no report.
\<close>

theorem arm64_report_low_words:
  assumes "b_abi b = AARCH64"
  shows "emit_registers b (Some (mc\<lparr>mc_regs := \<lambda>i. take_bit 32 (mc_regs mc i), mc_sp := take_bit 32 (mc_sp mc),
      mc_pc := take_bit 32 (mc_pc mc), mc_pstate := take_bit 32 (mc_pstate mc)\<rparr>)) state =
    emit_registers b (Some mc) state"
proof -
  have "hex_json 16 32 (take_bit 32 r) = hex_json 16 32 r" for r
    by (simp add: hex_json_def unsigned_arg_def unsigned_take_bit_eq)
  then show ?thesis
    using assms by (simp add: emit_registers_json registers_members_def del: upt_Suc upt_rec_numeral)
qed

theorem arm64_report_low_words_witness:
  "emit_registers arm64_build (Some (zero_mcontext\<lparr>mc_regs := \<lambda>i. take_bit 32 0, mc_sp := take_bit 32 0,
      mc_pc := take_bit 32 0, mc_pstate := take_bit 32 0\<rparr>)) [] =
   emit_registers arm64_build (Some zero_mcontext) []"
  using arm64_report_low_words [of arm64_build zero_mcontext "[]"] by (simp add: zero_mcontext_def)

section \<open>Symbol names\<close>

lemma c_str_append: "NUL \<notin> set xs \<Longrightarrow> c_str (xs @ ys) = xs @ c_str ys"
  by (induction xs) (auto simp: c_str_def)

text \<open>An object whose first member's string ends before a character that is neither a comma nor
  a closing brace is not JSON.\<close>

lemma parse_json_bad_member:
  assumes "clean k" "clean v" "c \<noteq> CHR '',''" "c \<noteq> CHR ''}''"
  shows "parse_json (''{'' @ DQ # k @ DQ # '':'' @ DQ # v @ DQ # c # rest) = None"
proof -
  let ?s = "''{'' @ DQ # k @ DQ # '':'' @ DQ # v @ DQ # c # rest"
  have "3 \<le> 2 * length ?s" by simp
  then obtain n where n: "2 * length ?s = Suc (Suc (Suc n))"
    by (metis Suc_le_D numeral_3_eq_3 le_add_diff_inverse plus_nat.simps(2) add_Suc)
  have v: "parse_value (Suc n) (DQ # v @ DQ # c # rest) = Some (JStr v, c # rest)"
    by (simp add: parse_string_show [OF assms(2)])
  have m: "parse_members (Suc (Suc n)) (DQ # k @ DQ # '':'' @ DQ # v @ DQ # c # rest) = None"
    using assms(3,4) by (simp add: parse_string_show [OF assms(1)] v del: parse_value.simps(3))
  show ?thesis
    unfolding parse_json_def n using m by (simp del: parse_members.simps)
qed

lemma frame_to_json_prefix:
  "\<exists>rest. frame_to_json b sf [] =
    ''{'' @ c_str (EMIT_F b [] '''cstr':'%s','' [Str (frame_to_string b sf [])] @ rest) @ ''}''"
  unfolding frame_to_json_def Let_def EMIT_E_def emit_name_def
  by (cases "sf_so_path sf = []"; cases "sf_sym_name sf = []";
      simp add: EMIT_F_def; intro exI; rule refl)

text \<open>
  A quote in a symbol's name breaks the report: single quotes, which the demangler writes
  around the names of lambdas and lifted locals, end the string early once all quotes are
  translated, and the frame is no longer JSON. (The only harmless followers of such a quote
  are a comma and a closing brace.)
\<close>

theorem quoted_symbol_breaks_frame:
  assumes "sf_sym_name sf = pre @ SQ # c # post" "clean pre" "clean (sf_so_path sf)"
    "c \<noteq> NUL" "c \<noteq> CHR '',''" "c \<noteq> CHR ''}''" "NUL \<notin> set post"
    "length (sf_so_path sf) \<le> 1023" "length (sf_sym_name sf) \<le> 254"
  shows "parse_json (map requote (emit_stackframe b sf [])) = None"
proof -
  define A where "A = ''#'' @ pad_field True 2 '''' (radix 10 (unsigned_arg (abi_bits b) (sf_index sf))) @
     '' pc '' @ pad_field True 16 '''' (radix 16 (unsigned_arg 32 (sf_pc sf))) @ '' '' @ sf_so_path sf @ '' ('' @ pre"
  have A: "clean A"
    using assms by (simp add: A_def clean_simps clean_pad_field clean_char_def)
  have sym: "NUL \<notin> set (sf_sym_name sf)"
    using assms by (simp add: clean_not)
  define B where "B = post @ ''+'' @ show_int (signed_arg 32 (sf_sym_addr_offset sf)) @ '')''"
  have "length (A @ SQ # c # B) \<le> 1400"
    using assms length_radix_unsigned [of "abi_bits b" "sf_index sf"]
      length_radix16_unsigned [of 32 "sf_pc sf"] length_show_signed [of 32 "sf_sym_addr_offset sf"]
    by (simp add: A_def B_def length_pad_field max_def)
  moreover have str: "frame_to_string b sf [] = A @ SQ # c # B"
    using assms sym by (simp add: frame_to_string_def A_def B_def emit_field_simps numeral_2_eq_2)
  moreover have "NUL \<notin> set (A @ SQ # c # B)"
    using A assms(4,7) clean_not(1) [OF clean_show_int]
    by (simp add: B_def clean_not)
  ultimately have "EMIT_F b [] '''cstr':'%s','' [Str (frame_to_string b sf [])] =
      SQ # ''cstr'' @ SQ # '':'' @ SQ # A @ SQ # c # B @ SQ # '',''"
    by (simp add: emit_field_simps)
  moreover obtain rest where "frame_to_json b sf [] =
      ''{'' @ c_str (EMIT_F b [] '''cstr':'%s','' [Str (frame_to_string b sf [])] @ rest) @ ''}''"
    using frame_to_json_prefix [of b sf] by blast
  ultimately have frame: "frame_to_json b sf [] =
      ''{'' @ c_str (SQ # ''cstr'' @ SQ # '':'' @ SQ # A @ SQ # c # B @ SQ # '','' @ rest) @ ''}''"
    by simp
  have "emit_stackframe b sf [] =
      ''{'' @ SQ # ''cstr'' @ SQ # '':'' @ SQ # A @ SQ # c # c_str (B @ SQ # '','' @ rest) @ ''}''"
    using assms(4) clean_not(1) [OF A] unfolding emit_stackframe_def frame
    by (simp add: c_str_def takeWhile_append)
  then have "map requote (emit_stackframe b sf []) =
      ''{'' @ DQ # ''cstr'' @ DQ # '':'' @ DQ # A @ DQ # requote c # map requote (c_str (B @ SQ # '','' @ rest) @ ''}'')"
    using requote_id [OF clean_not(2) [OF A]] by (simp add: requote_def)
  moreover have "requote c \<noteq> CHR '',''" "requote c \<noteq> CHR ''}''"
    using assms(5,6) by (simp_all add: requote_def)
  ultimately show ?thesis
    using parse_json_bad_member [of "''cstr''" A "requote c"] A by (simp add: clean_simps clean_char_def)
qed

theorem quoted_symbol_breaks_frame_witness:
  "parse_json (map requote (emit_stackframe arm64_build
     (zero_stackframe\<lparr>sf_sym_name := ''f()::'lambda'()''\<rparr>) [])) = None"
  using quoted_symbol_breaks_frame
    [of "zero_stackframe\<lparr>sf_sym_name := ''f()::'lambda'()''\<rparr>" "''f()::''" "CHR ''l''" "''ambda'()''" arm64_build]
  by (simp add: zero_stackframe_def clean_simps clean_char_def)

section \<open>Long library paths\<close>

text \<open>the frame's text as \<open>_EMIT_F\<close> leaves it, and the member that follows it.\<close>

lemma frame_to_json_index:
  "\<exists>rest. frame_to_json b sf [] =
    ''{'' @ c_str (EMIT_F b [] '''cstr':'%s','' [Str (frame_to_string b sf [])] @ SQ # ''index'' @ SQ # rest) @ ''}''"
proof -
  have index: "EMIT_F b frame '''index':%d,'' [word_arg i] =
      frame @ SQ # ''index'' @ SQ # '':'' @ show_int (signed_arg 32 i) @ '',''" for frame i
    by (simp add: emit_field_simps)
  show ?thesis
    unfolding frame_to_json_def Let_def EMIT_E_def emit_name_def index
    by (cases "sf_so_path sf = []"; cases "sf_sym_name sf = []"; simp add: EMIT_F_def; intro exI; rule refl)
qed

text \<open>A path that fills the 2048 bytes: the line is cut, and it is the text of the path.\<close>

lemma frame_text_cut:
  assumes "clean (sf_so_path sf)" "2047 \<le> length (sf_so_path sf)"
  shows "\<exists>line rest. frame_to_string b sf [] = line @ rest \<and> clean line \<and> length line = 2047"
proof -
  define line where "line = ''#'' @ pad_field True 2 '''' (radix 10 (unsigned_arg (abi_bits b) (sf_index sf))) @
     '' pc '' @ pad_field True 16 '''' (radix 16 (unsigned_arg 32 (sf_pc sf))) @ '' '' @ sf_so_path sf"
  have clean: "clean line"
    using assms by (simp add: line_def clean_simps clean_pad_field clean_char_def)
  have "vformat (abi_bits b) ''#%02zu pc %016x %s'' [word_arg (sf_index sf), word_arg (sf_pc sf), Str (sf_so_path sf)] = line"
    using clean_not(1) [OF assms(1)]
    by (simp add: vformat_def line_def fmt_simps conv_of_def isdigit_def c_str_id numeral_2_eq_2)
  then have "EMIT_F b [] ''#%02zu pc %016x %s'' [word_arg (sf_index sf), word_arg (sf_pc sf), Str (sf_so_path sf)] =
      take 2047 line"
    by (simp add: EMIT_F_def vsnprintf_def)
  then have "\<exists>rest. frame_to_string b sf [] = take 2047 line @ rest"
    unfolding frame_to_string_def by (simp add: Let_def) (simp add: EMIT_F_def)
  moreover have "clean (take 2047 line)" by (rule clean_subset [OF set_take_subset clean])
  moreover have "length (take 2047 line) = 2047" using assms(2) by (simp add: line_def)
  ultimately show ?thesis by blast
qed

text \<open>
  C36. A library path of 2047 characters or more, which an array of Android's \<open>PATH_MAX\<close> of
  4096 holds, breaks the report: the 2048-byte buffer of \<open>_EMIT_F\<close> cuts the member
  \<open>cstr\<close> before its closing quote, the next member's name is then read as the end of
  the string, and the frame is no longer JSON. The path needs no escape; every other field of
  the frame is arbitrary.
\<close>

theorem long_path_breaks_frame:
  assumes "clean (sf_so_path sf)" "2047 \<le> length (sf_so_path sf)"
  shows "parse_json (map requote (emit_stackframe b sf [])) = None"
proof -
  obtain line post where str: "frame_to_string b sf [] = line @ post" "clean line" "length line = 2047"
    using frame_text_cut [OF assms] by blast
  define v where "v = take 2039 line"
  have v: "clean v" unfolding v_def by (rule clean_subset [OF set_take_subset str(2)])
  have "c_str (frame_to_string b sf []) = line @ c_str post"
    unfolding str(1) by (rule c_str_append [OF clean_not(1) [OF str(2)]])
  then have "EMIT_F b [] '''cstr':'%s','' [Str (frame_to_string b sf [])] = SQ # ''cstr'' @ SQ # '':'' @ SQ # v"
    using str(3) by (simp add: EMIT_F_def vsnprintf_def vformat_def fmt_simps conv_of_def isdigit_def v_def)
  moreover obtain rest where "frame_to_json b sf [] =
      ''{'' @ c_str (EMIT_F b [] '''cstr':'%s','' [Str (frame_to_string b sf [])] @ SQ # ''index'' @ SQ # rest) @ ''}''"
    using frame_to_json_index [of b sf] by blast
  ultimately have "emit_stackframe b sf [] =
      ''{'' @ c_str ((SQ # ''cstr'' @ SQ # '':'' @ SQ # v @ SQ # ''index'') @ SQ # rest) @ ''}''"
    by (simp add: emit_stackframe_def)
  then have "emit_stackframe b sf [] =
      ''{'' @ SQ # ''cstr'' @ SQ # '':'' @ SQ # v @ SQ # CHR ''i'' # ''ndex'' @ c_str (SQ # rest) @ ''}''"
    using clean_not(1) [OF v] by (subst (asm) c_str_append) simp_all
  then have "map requote (emit_stackframe b sf []) =
      ''{'' @ DQ # ''cstr'' @ DQ # '':'' @ DQ # v @ DQ # CHR ''i'' # ''ndex'' @ map requote (c_str (SQ # rest) @ ''}'')"
    using requote_id [OF clean_not(2) [OF v]] by (simp add: requote_def)
  then show ?thesis
    using parse_json_bad_member [of "''cstr''" v "CHR ''i''"] v by (simp add: clean_simps clean_char_def)
qed

theorem long_path_breaks_frame_witness:
  "parse_json (map requote (emit_stackframe arm64_build
     (zero_stackframe\<lparr>sf_so_path := replicate 4000 CHR ''/''\<rparr>) [])) = None"
  by (rule long_path_breaks_frame) (simp_all add: clean_def list_all_iff clean_char_def)

end
