(* ===== verification/Signal_Race.thy ===== *)
theory Signal_Race
  imports Signal_Safety
begin

text \<open>
  Interceptions that overlap (\<open>signal-handler.cpp\<close>): several threads may crash at once, and a
  handler may itself be interrupted by a second signal. \<open>interceptor\<close> is cut where it reads or
  writes what is shared, \<open>race_step\<close> interleaves any number of activations with starts and
  stops, and run alone the pieces are the interceptor of \<open>Signal_Handler\<close>. The counter
  \<open>intercepting\<close> is a plain \<open>volatile\<close> object, so that \<open>intercepting++\<close> is a load and a store;
  whether the two can be torn apart is a parameter.
\<close>

section \<open>The stages of one activation\<close>

text \<open>A delivered signal and the surroundings its handler runs in.\<close>

record arrival =
  ar_signo :: int
  ar_info :: "siginfo option"
  ar_context :: "mcontext option"
  ar_world :: world
  ar_time :: wall_clock
  ar_disk :: disk
  ar_calls :: sh_outcomes

datatype stage =
    Entering
  | Loaded int
  | Inside
  | Reported nat
  | Removed nat
  | Chained nat
  | Storing int
  | Left

text \<open>
  One piece of the handler's body. The index is that of the observed signal; \<open>Loaded\<close> and
  \<open>Storing\<close> hold the value read from the counter. The counter of a single observed signal is
  only logged, its update is part of the piece it stands in.
\<close>

fun advance :: "bool \<Rightarrow> build \<Rightarrow> arrival \<Rightarrow> stage \<Rightarrow> sh_state \<Rightarrow> (stage \<times> sh_state) outcome" where
  "advance torn b c Entering st =
     (let was = sh_intercepting st
      in if torn then Returns (Loaded was, st)
         else Returns (if was = 0 then Inside else Left, st\<lparr>sh_intercepting := was + 1\<rparr>))"
| "advance torn b c (Loaded was) st =
     Returns (if was = 0 then Inside else Left, st\<lparr>sh_intercepting := was + 1\<rparr>)"
| "advance torn b c Inside st =
     (case observed_signal_get_or_null (ar_signo c) (sh_signals st) of
        None \<Rightarrow> Returns (Left, st)
      | Some i \<Rightarrow>
          (let st = count_callers i 1 st
           in case collect_backtrace b (ar_world c) BACKTRACE_SZ_MAX (ar_info c) (ar_context c) of
                None \<Rightarrow> Faults
              | Some (complete, buffer) \<Rightarrow>
                  Returns (Reported i,
                    if complete
                    then st\<lparr>sh_files := from_crash (w_native (ar_world c)) (ar_time c) (ar_disk c) buffer
                              (length (c_str buffer)) (sh_files st)\<rparr>
                    else st)))"
| "advance torn b c (Reported i) st = Returns (Removed i, uninstall_handler (ar_calls c) st)"
| "advance torn b c (Removed i) st =
     bind_outcome (invoke_previous_sigaction (ar_calls c) (ar_signo c) st) (\<lambda>st.
       Returns (Chained i, count_callers i (- 1) st))"
| "advance torn b c (Chained i) st =
     (if torn then Returns (Storing (sh_intercepting st), st)
      else Returns (Left, st\<lparr>sh_intercepting := sh_intercepting st - 1\<rparr>))"
| "advance torn b c (Storing n) st = Returns (Left, st\<lparr>sh_intercepting := n - 1\<rparr>)"
| "advance torn b c Left st = Returns (Left, st)"

fun run_alone ::
  "bool \<Rightarrow> build \<Rightarrow> arrival \<Rightarrow> nat \<Rightarrow> stage \<Rightarrow> sh_state \<Rightarrow> (stage \<times> sh_state) outcome" where
  "run_alone torn b c 0 s st = Returns (s, st)"
| "run_alone torn b c (Suc n) s st =
     bind_outcome (advance torn b c s st) (\<lambda>(s, st). run_alone torn b c n s st)"

lemma run_alone_Left [simp]: "run_alone torn b c n Left st = Returns (Left, st)"
  by (induction n) auto

lemma run_alone_Reported:
  "run_alone torn b c (Suc (Suc (Suc (Suc n)))) (Reported i) st =
     bind_outcome (invoke_previous_sigaction (ar_calls c) (ar_signo c) (uninstall_handler (ar_calls c) st))
       (\<lambda>st. Returns (Left, finished i st))"
  by (cases "invoke_previous_sigaction (ar_calls c) (ar_signo c) (uninstall_handler (ar_calls c) st)")
    (simp_all add: finished_def)

lemma run_alone_Inside:
  assumes "sh_intercepting st = 0"
  shows "run_alone torn b c (Suc (Suc (Suc (Suc (Suc n))))) Inside (st\<lparr>sh_intercepting := 1\<rparr>) =
    bind_outcome (interceptor b (ar_world c) (ar_time c) (ar_disk c) (ar_calls c) (ar_signo c) (ar_info c) (ar_context c) st)
      (\<lambda>st. Returns (Left, st))"
proof (cases "observed_signal_get_or_null (ar_signo c) (sh_signals st)")
  case None
  then show ?thesis using assms by (simp add: interceptor_early)
next
  case (Some i)
  have noop: "(count_callers i 1 (st\<lparr>sh_intercepting := 1\<rparr>))\<lparr>sh_files := sh_files st\<rparr> =
      count_callers i 1 (st\<lparr>sh_intercepting := 1\<rparr>)"
    by (simp add: count_callers_def Let_def)
  show ?thesis
  proof (cases "collect_backtrace b (ar_world c) BACKTRACE_SZ_MAX (ar_info c) (ar_context c)")
    case None
    then show ?thesis using assms Some by (simp add: interceptor_def Let_def)
  next
    case collected: (Some r)
    obtain ok buf where r: "r = (ok, buf)" by (cases r)
    have "run_alone torn b c (Suc (Suc (Suc (Suc (Suc n))))) Inside (st\<lparr>sh_intercepting := 1\<rparr>) =
        run_alone torn b c (Suc (Suc (Suc (Suc n)))) (Reported i) ((entered i st)\<lparr>sh_files :=
          if ok then from_crash (w_native (ar_world c)) (ar_time c) (ar_disk c) buf (length (c_str buf)) (sh_files st)
          else sh_files st\<rparr>)"
      by (subst run_alone.simps(2)) (simp add: Some collected r Let_def entered_def noop del: run_alone.simps)
    then show ?thesis
      using interceptor_stages [OF assms Some collected [unfolded r]]
      by (simp only: run_alone_Reported bind_outcome_assoc bind_outcome.simps)
  qed
qed

text \<open>
  The pieces are a faithful cut of the handler: whether or not the counter's update can be
  torn, an activation that is not interleaved with another ends after at most seven pieces, in
  exactly the state in which \<open>interceptor\<close> returns; it waits where \<open>interceptor\<close> waits and
  faults where it faults.
\<close>

theorem alone_is_interceptor:
  "run_alone torn b c 7 Entering st =
    bind_outcome (interceptor b (ar_world c) (ar_time c) (ar_disk c) (ar_calls c) (ar_signo c) (ar_info c) (ar_context c) st)
      (\<lambda>st. Returns (Left, st))"
proof (cases "sh_intercepting st = 0")
  case True
  note inside = run_alone_Inside [OF True]
  show ?thesis
  proof (cases torn)
    case True
    then have "run_alone torn b c 7 Entering st =
        run_alone torn b c (Suc (Suc (Suc (Suc (Suc 0))))) Inside (st\<lparr>sh_intercepting := 1\<rparr>)"
      using \<open>sh_intercepting st = 0\<close> by (simp add: numeral_eq_Suc Let_def del: advance.simps(3-7))
    then show ?thesis by (simp only: inside)
  next
    case False
    then have "run_alone torn b c 7 Entering st =
        run_alone torn b c (Suc (Suc (Suc (Suc (Suc (Suc 0)))))) Inside (st\<lparr>sh_intercepting := 1\<rparr>)"
      using \<open>sh_intercepting st = 0\<close> by (simp add: numeral_eq_Suc Let_def del: advance.simps(3-7))
    then show ?thesis by (simp only: inside)
  qed
next
  case False
  then show ?thesis
    by (simp add: interceptor_early numeral_eq_Suc Let_def del: advance.simps(3-7))
qed

section \<open>Interleavings\<close>

record race =
  rc_module :: sh_state
  rc_runs :: "nat \<Rightarrow> (arrival \<times> stage) option"

definition goes_on :: "nat \<Rightarrow> arrival \<Rightarrow> stage \<Rightarrow> sh_state \<Rightarrow> race \<Rightarrow> race" where
  "goes_on i c s st r = r\<lparr>rc_module := st, rc_runs := (rc_runs r)(i \<mapsto> (c, s))\<rparr>"

lemma goes_on_simps [simp]:
  "rc_module (goes_on i c s st r) = st"
  "rc_runs (goes_on i c s st r) j = (if j = i then Some (c, s) else rc_runs r j)"
  by (simp_all add: goes_on_def)

text \<open>The stages behind the guard.\<close>

fun behind_guard :: "stage \<Rightarrow> bool" where
  "behind_guard Inside = True"
| "behind_guard (Reported i) = True"
| "behind_guard (Removed i) = True"
| "behind_guard (Chained i) = True"
| "behind_guard (Storing n) = True"
| "behind_guard s = False"

definition holds_guard :: "race \<Rightarrow> nat \<Rightarrow> bool" where
  "holds_guard r i \<longleftrightarrow> (\<exists>c s. rc_runs r i = Some (c, s) \<and> behind_guard s)"

text \<open>
  A step: a signal whose action is the interceptor is delivered, an activation does its next
  piece, the agent is started or stopped, its installer thread runs, or the application sets an
  action. With \<open>calm\<close> the installer thread runs only while no interception is under way.
\<close>

inductive race_step :: "bool \<Rightarrow> bool \<Rightarrow> build \<Rightarrow> race \<Rightarrow> race \<Rightarrow> bool" for torn calm b where
  Deliver: "rc_runs r i = None \<Longrightarrow> sa_handler (k_disp (sh_kernel (rc_module r)) (ar_signo c)) = Interceptor \<Longrightarrow>
    race_step torn calm b r (goes_on i c Entering (rc_module r) r)"
| Piece: "rc_runs r i = Some (c, s) \<Longrightarrow> advance torn b c s (rc_module r) = Returns (s', st) \<Longrightarrow>
    race_step torn calm b r (goes_on i c s' st r)"
| Started: "signal_handler_initialize n os (rc_module r) = Returns (ok, st) \<Longrightarrow>
    race_step torn calm b r (r\<lparr>rc_module := st\<rparr>)"
| Installer: "sh_pending (rc_module r) = Suc m \<Longrightarrow> \<not> calm \<or> (\<forall>i. \<not> holds_guard r i) \<Longrightarrow>
    race_step torn calm b r (r\<lparr>rc_module := install_signal_observers os ((rc_module r)\<lparr>sh_pending := m\<rparr>)\<rparr>)"
| Stopped: "signal_handler_shutdown os (rc_module r) = Returns st \<Longrightarrow>
    race_step torn calm b r (r\<lparr>rc_module := st\<rparr>)"
| Application: "sa_handler act \<noteq> Interceptor \<Longrightarrow>
    race_step torn calm b r (r\<lparr>rc_module := (rc_module r)\<lparr>sh_kernel :=
      (sh_kernel (rc_module r))\<lparr>k_disp := (k_disp (sh_kernel (rc_module r)))(signo := act)\<rparr>\<rparr>\<rparr>)"

definition at_load :: "kernel \<Rightarrow> files \<Rightarrow> race" where
  "at_load k fs = \<lparr>rc_module = loaded k fs, rc_runs = Map.empty\<rparr>"

definition race_reachable :: "bool \<Rightarrow> bool \<Rightarrow> build \<Rightarrow> race \<Rightarrow> bool" where
  "race_reachable torn calm b r \<longleftrightarrow> (\<exists>k fs. (race_step torn calm b)\<^sup>*\<^sup>* (at_load k fs) r)"

lemma race_reachable_induct [consumes 1, case_names load step]:
  assumes "race_reachable torn calm b r"
    and "\<And>k fs. P (at_load k fs)"
    and "\<And>r r'. P r \<Longrightarrow> race_step torn calm b r r' \<Longrightarrow> P r'"
  shows "P r"
proof -
  obtain k fs where "(race_step torn calm b)\<^sup>*\<^sup>* (at_load k fs) r"
    using assms(1) by (auto simp: race_reachable_def)
  then show ?thesis by (induction rule: rtranclp_induct) (auto intro: assms(2,3))
qed

section \<open>What an operation does to the counter\<close>

lemma uninstall_intercepting [simp]: "sh_intercepting (uninstall_handler os st) = sh_intercepting st"
  by (simp add: uninstall_handler_def)

lemma initialize_intercepting:
  "signal_handler_initialize n os st = Returns (ok, st') \<Longrightarrow> sh_intercepting st' = sh_intercepting st"
  by (auto simp: signal_handler_initialize_def bind_Returns mutex_lock_Returns mutex_unlock_eq start_installer_def
      Let_def split: if_splits prod.splits)

lemma shutdown_intercepting:
  "signal_handler_shutdown os st = Returns st' \<Longrightarrow> sh_intercepting st' = sh_intercepting st"
  by (auto simp: signal_handler_shutdown_def bind_Returns mutex_lock_Returns mutex_unlock_eq dealloc_def
      split: if_splits option.splits)

lemma install_intercepting:
  "sh_intercepting (install_signal_observers os st) \<in> {0, sh_intercepting st}"
  by (simp add: install_signal_observers_def Let_def split: prod.split)

lemma invoke_previous_intercepting:
  assumes "invoke_previous_sigaction os signo st = Returns st'"
  shows "sh_intercepting st' = sh_intercepting st"
proof -
  have "sh_intercepting (fold (\<lambda>s st. if os_signo s = signo then invoke_sigaction signo (os_sa_previous s) st else st) ss st)
      = sh_intercepting st" for ss :: "observed_signal list" and st
    by (induction ss arbitrary: st) (simp_all add: invoke_sigaction_def)
  then show ?thesis
    using assms by (auto simp: invoke_previous_sigaction_def bind_Returns mutex_lock_Returns mutex_unlock_eq Let_def split: if_splits)
qed

lemmas keeps_intercepting =
  initialize_intercepting shutdown_intercepting invoke_previous_intercepting

text \<open>The pieces of the handler when the update of the counter is one access: the guard is entered
  from zero only, is left with a decrement or with the counter untouched, and is never torn.\<close>

fun whole :: "stage \<Rightarrow> bool" where
  "whole (Loaded n) = False"
| "whole (Storing n) = False"
| "whole s = True"

lemma advance_whole:
  assumes "advance False b c s st = Returns (s', st')" "whole s"
  shows "whole s'"
    and "behind_guard s' \<Longrightarrow> \<not> behind_guard s \<Longrightarrow> sh_intercepting st = 0 \<and> sh_intercepting st' = 1"
    and "behind_guard s' \<Longrightarrow> behind_guard s \<Longrightarrow> sh_intercepting st' = sh_intercepting st"
    and "\<not> behind_guard s' \<Longrightarrow> \<not> behind_guard s \<Longrightarrow> sh_intercepting st' \<in> {sh_intercepting st, sh_intercepting st + 1}"
    and "\<not> behind_guard s' \<Longrightarrow> behind_guard s \<Longrightarrow> sh_intercepting st' \<in> {sh_intercepting st, sh_intercepting st - 1}"
  using assms
  by (cases s; auto simp: Let_def bind_Returns invoke_previous_intercepting split: if_splits option.splits)+

section \<open>Mutual exclusion\<close>

definition guard_inv :: "race \<Rightarrow> bool" where
  "guard_inv r \<longleftrightarrow>
     0 \<le> sh_intercepting (rc_module r) \<and>
     (\<forall>i c s. rc_runs r i = Some (c, s) \<longrightarrow> whole s) \<and>
     (\<forall>i. holds_guard r i \<longrightarrow> sh_intercepting (rc_module r) > 0) \<and>
     (\<forall>i j. holds_guard r i \<longrightarrow> holds_guard r j \<longrightarrow> i = j)"

lemma holds_guard_module [simp]: "holds_guard (r\<lparr>rc_module := st\<rparr>) i = holds_guard r i"
  by (simp add: holds_guard_def)

lemma holds_guard_goes_on:
  "holds_guard (goes_on i c s st r) j \<longleftrightarrow> (if j = i then behind_guard s else holds_guard r j)"
  by (simp add: holds_guard_def)

lemma guard_inv_module:
  assumes "guard_inv r" "sh_intercepting st = sh_intercepting (rc_module r)"
  shows "guard_inv (r\<lparr>rc_module := st\<rparr>)"
  using assms by (simp add: guard_inv_def)

lemma guard_inv_piece:
  assumes "guard_inv r" "rc_runs r i = Some (c, s)" "advance False b c s (rc_module r) = Returns (s', st)"
  shows "guard_inv (goes_on i c s' st r)"
proof -
  have s: "whole s" using assms(1,2) by (auto simp: guard_inv_def)
  have held: "holds_guard r i \<longleftrightarrow> behind_guard s" using assms(2) by (simp add: holds_guard_def)
  have others: "j = i" if "holds_guard r j" "behind_guard s" for j
    using assms(1) that held by (auto simp: guard_inv_def)
  have none: "\<not> holds_guard r j" if "sh_intercepting (rc_module r) = 0" for j
    using assms(1) that by (auto simp: guard_inv_def)
  have pos: "sh_intercepting (rc_module r) > 0" if "holds_guard r j" for j
    using assms(1) that by (auto simp: guard_inv_def)
  have nonneg: "0 \<le> sh_intercepting (rc_module r)" using assms(1) by (simp add: guard_inv_def)
  note moved = advance_whole [OF assms(3) s]
  have "0 \<le> sh_intercepting st"
    using moved(2-5) nonneg pos [of i] held by (cases "behind_guard s"; cases "behind_guard s'") auto
  moreover have "sh_intercepting st > 0" if "holds_guard (goes_on i c s' st r) j" for j
  proof (cases "j = i")
    case True
    then have "behind_guard s'" using that by (simp add: holds_guard_goes_on)
    then show ?thesis using moved(2,3) pos [of i] held by (cases "behind_guard s") auto
  next
    case False
    then have j: "holds_guard r j" using that by (simp add: holds_guard_goes_on)
    then have "\<not> behind_guard s" using others False by blast
    moreover from this have "\<not> behind_guard s'" using moved(2) pos [OF j] by auto
    ultimately show ?thesis using moved(4) pos [OF j] by auto
  qed
  moreover have "j = k" if "holds_guard (goes_on i c s' st r) j" "holds_guard (goes_on i c s' st r) k" for j k
  proof (cases "j = i \<or> k = i")
    case True
    then have "behind_guard s'" using that by (auto simp: holds_guard_goes_on)
    then show ?thesis
      using that others none moved(2) True by (cases "behind_guard s") (auto simp: holds_guard_goes_on split: if_splits)
  next
    case False
    then show ?thesis using that assms(1) by (simp add: holds_guard_goes_on guard_inv_def)
  qed
  moreover have "\<forall>j c' s''. rc_runs (goes_on i c s' st r) j = Some (c', s'') \<longrightarrow> whole s''"
    using assms(1) moved(1) by (auto simp: guard_inv_def)
  ultimately show ?thesis by (simp add: guard_inv_def)
qed

lemma guard_inv_step: "race_step False True b r r' \<Longrightarrow> guard_inv r \<Longrightarrow> guard_inv r'"
proof (induction rule: race_step.induct)
  case (Deliver r i c)
  then show ?case by (auto simp: guard_inv_def holds_guard_goes_on split: if_splits)
next
  case (Piece r i c s s' st)
  then show ?case using guard_inv_piece by blast
next
  case (Installer r m os)
  then show ?case
    using install_intercepting [of os "(rc_module r)\<lparr>sh_pending := m\<rparr>"] by (auto simp: guard_inv_def)
qed (auto intro!: guard_inv_module dest: keeps_intercepting)

lemma guard_inv_reachable: "race_reachable False True b r \<Longrightarrow> guard_inv r"
proof (induction rule: race_reachable_induct)
  case (load k fs)
  then show ?case by (simp add: at_load_def guard_inv_def holds_guard_def loaded_def)
next
  case (step r r')
  then show ?case using guard_inv_step by blast
qed

text \<open>
  C18. At most one activation collects, uninstalls and chains at a time. If the update of the
  counter is one access and no installer thread runs during an interception, then in every
  interleaving of any number of signals (of several threads, or nested) with starts, stops and
  the application, the activations behind the guard are at most one, and the counter is
  positive while there is one.
\<close>

theorem one_interception_at_a_time:
  assumes "race_reachable False True b r" "holds_guard r i" "holds_guard r j"
  shows "i = j \<and> sh_intercepting (rc_module r) > 0"
  using guard_inv_reachable [OF assms(1)] assms(2,3) by (auto simp: guard_inv_def)

lemma then_deliver:
  "rc_runs r i = None \<Longrightarrow> sa_handler (k_disp (sh_kernel (rc_module r)) (ar_signo c)) = Interceptor \<Longrightarrow>
   (race_step torn calm b)\<^sup>*\<^sup>* (goes_on i c Entering (rc_module r) r) r' \<Longrightarrow> (race_step torn calm b)\<^sup>*\<^sup>* r r'"
  by (rule converse_rtranclp_into_rtranclp [where r = "race_step torn calm b"], rule race_step.Deliver)

lemma then_piece:
  "rc_runs r i = Some (c, s) \<Longrightarrow> advance torn b c s (rc_module r) = Returns (s', st) \<Longrightarrow>
   (race_step torn calm b)\<^sup>*\<^sup>* (goes_on i c s' st r) r' \<Longrightarrow> (race_step torn calm b)\<^sup>*\<^sup>* r r'"
  by (rule converse_rtranclp_into_rtranclp [where r = "race_step torn calm b"], rule race_step.Piece)

text \<open>A process for closed examples: the agent is started and its installer thread has run.\<close>

lemma started_race:
  "\<exists>st. race_reachable torn calm b \<lparr>rc_module = st, rc_runs = Map.empty\<rparr> \<and>
     sa_handler (k_disp (sh_kernel st) SIGSEGV) = Interceptor \<and> sh_intercepting st = 0 \<and>
     signos (sh_signals st) = signos observedSignals \<and> sh_files st = Map.empty \<and>
     sh_initialized st = 1 \<and> \<not> sh_locked st"
proof -
  let ?k = "at_load sample_kernel Map.empty"
  have idle: "\<not> sh_locked (rc_module ?k)" "\<not> holds_guard ?k i" "sh_pending (rc_module ?k) = 0" for i
    by (simp_all add: at_load_def loaded_def holds_guard_def)
  obtain st1 where init: "signal_handler_initialize 8192 sh_all_ok (rc_module ?k) = Returns (True, st1)"
    and st1: "sh_pending st1 = Suc 0" "sh_initialized st1 = 0" "sh_signals st1 = observedSignals"
      "sh_kernel st1 = (sh_kernel (rc_module ?k))\<lparr>k_blocked := (k_blocked (sh_kernel (rc_module ?k)))(SIGQUIT := False),
         k_altstack := Some (stack_block 8192 (sh_kernel (rc_module ?k))),
         k_heap := [k_fresh (sh_kernel (rc_module ?k))], k_fresh := Suc (k_fresh (sh_kernel (rc_module ?k)))\<rparr>"
      "sh_files st1 = Map.empty" "\<not> sh_locked st1"
    using initialize_ok [of sh_all_ok "rc_module ?k" 8192] idle(1)
    by (simp add: at_load_def loaded_def sample_kernel_def)
  define st2 where "st2 = install_signal_observers sh_all_ok (st1\<lparr>sh_pending := 0\<rparr>)"
  have start: "race_step torn calm b ?k (?k\<lparr>rc_module := st1\<rparr>)"
    by (rule race_step.Started [OF init])
  have "race_step torn calm b (?k\<lparr>rc_module := st1\<rparr>) (?k\<lparr>rc_module := st1, rc_module := st2\<rparr>)"
    using race_step.Installer [of "?k\<lparr>rc_module := st1\<rparr>" 0 calm torn b sh_all_ok] idle(2) st1(1)
    by (simp add: st2_def)
  with start have "(race_step torn calm b)\<^sup>*\<^sup>* ?k (?k\<lparr>rc_module := st1, rc_module := st2\<rparr>)"
    by (meson converse_rtranclp_into_rtranclp r_into_rtranclp)
  moreover have "?k\<lparr>rc_module := st1, rc_module := st2\<rparr> = \<lparr>rc_module = st2, rc_runs = Map.empty\<rparr>"
    by (simp add: at_load_def)
  ultimately have "race_reachable torn calm b \<lparr>rc_module = st2, rc_runs = Map.empty\<rparr>"
    unfolding race_reachable_def by metis
  moreover have "sh_intercepting st2 = 0" "sh_files st2 = Map.empty" "signos (sh_signals st2) = signos observedSignals"
    "sa_handler (k_disp (sh_kernel st2) SIGSEGV) = Interceptor" "sh_initialized st2 = 1" "\<not> sh_locked st2"
    using st1 signos_observed by (simp_all add: st2_def install_ok interceptor_action_def)
  ultimately show ?thesis by blast
qed

definition sample_arrival :: arrival where
  "sample_arrival = \<lparr>ar_signo = SIGSEGV, ar_info = Some \<lparr>si_signo = 11, si_code = 1, si_addr = 0\<rparr>,
     ar_context = Some zero_mcontext, ar_world = sample_world, ar_time = sample_clock,
     ar_disk = \<lparr>d_open = (\<lambda>_. True), d_room = (\<lambda>_. 340000)\<rparr>, ar_calls = sh_all_ok\<rparr>"

theorem one_interception_at_a_time_witness:
  "\<exists>r. race_reachable False True arm64_build r \<and> holds_guard r 0 \<and> rc_runs r 1 = Some (sample_arrival, Left) \<and>
     sh_intercepting (rc_module r) > 0"
proof -
  obtain st where st: "race_reachable False True arm64_build \<lparr>rc_module = st, rc_runs = Map.empty\<rparr>"
    "sa_handler (k_disp (sh_kernel st) SIGSEGV) = Interceptor" "sh_intercepting st = 0"
    using started_race by blast
  let ?go = "\<lparr>rc_module = st, rc_runs = Map.empty\<rparr>"
  let ?sta = "st\<lparr>sh_intercepting := 1\<rparr>" and ?stb = "st\<lparr>sh_intercepting := 2\<rparr>"
  let ?r = "goes_on 1 sample_arrival Left ?stb (goes_on 0 sample_arrival Inside ?sta
      (goes_on 1 sample_arrival Entering st (goes_on 0 sample_arrival Entering st ?go)))"
  have "(race_step False True arm64_build)\<^sup>*\<^sup>* ?go ?r"
    apply (rule then_deliver [where i = 0 and c = sample_arrival])
      apply (simp_all add: st sample_arrival_def)[2]
    apply (rule then_deliver [where i = 1 and c = sample_arrival])
      apply (simp_all add: st sample_arrival_def)[2]
    apply (rule then_piece [where i = 0 and c = sample_arrival and s = Entering and s' = Inside and st = ?sta])
      apply (simp_all add: st Let_def)[2]
    apply (rule then_piece [where i = 1 and c = sample_arrival and s = Entering and s' = Left and st = ?stb])
      apply (simp_all add: st Let_def)[2]
    apply (simp add: goes_on_def)
    done
  with st(1) have r: "race_reachable False True arm64_build ?r"
    unfolding race_reachable_def by (meson rtranclp_trans)
  have "holds_guard ?r 0" by (simp add: holds_guard_def)
  with one_interception_at_a_time [OF r this this] r show ?thesis by (intro exI [of _ ?r]) simp
qed

section \<open>What the guard does not exclude\<close>

lemma get_or_null_observed:
  "signos ss = signos observedSignals \<Longrightarrow> signo \<in> set (signos observedSignals) \<Longrightarrow>
   \<exists>i. observed_signal_get_or_null signo ss = Some i \<and> i < length ss"
  using get_or_null_Some [of signo ss] get_or_null_bound [of signo ss] by auto

lemma advance_Inside:
  assumes "observed_signal_get_or_null (ar_signo c) (sh_signals st) = Some i"
    and "collect_backtrace b (ar_world c) BACKTRACE_SZ_MAX (ar_info c) (ar_context c) = Some (True, buffer)"
  shows "advance torn b c Inside st = Returns (Reported i, (count_callers i 1 st)\<lparr>sh_files :=
    from_crash (w_native (ar_world c)) (ar_time c) (ar_disk c) buffer (length (c_str buffer))
      (sh_files (count_callers i 1 st))\<rparr>)"
  using assms by (simp add: Let_def)

lemma both_arrive:
  assumes "i \<noteq> j" "rc_runs r i = None" "rc_runs r j = None"
    and "sa_handler (k_disp (sh_kernel (rc_module r)) (ar_signo c)) = Interceptor"
    and "sa_handler (k_disp (sh_kernel (rc_module r)) (ar_signo d)) = Interceptor"
  shows "(race_step torn calm b)\<^sup>*\<^sup>* r
    (goes_on j d Entering (rc_module r) (goes_on i c Entering (rc_module r) r))"
proof (rule then_deliver [where i = i and c = c])
  show "(race_step torn calm b)\<^sup>*\<^sup>* (goes_on i c Entering (rc_module r) r)
      (goes_on j d Entering (rc_module r) (goes_on i c Entering (rc_module r) r))"
    using race_step.Deliver [of "goes_on i c Entering (rc_module r) r" j d] assms by fastforce
qed (use assms in simp_all)

lemma both_advance:
  assumes "i \<noteq> j" "rc_runs r i = Some (c, s)" "rc_runs r j = Some (d, t)"
    and "advance torn b c s (rc_module r) = Returns (s', st)" "advance torn b d t st = Returns (t', st')"
  shows "(race_step torn calm b)\<^sup>*\<^sup>* r (goes_on j d t' st' (goes_on i c s' st r))"
proof (rule then_piece [where i = i])
  show "(race_step torn calm b)\<^sup>*\<^sup>* (goes_on i c s' st r) (goes_on j d t' st' (goes_on i c s' st r))"
    using race_step.Piece [of "goes_on i c s' st r" j d t torn b t' st'] assms by fastforce
qed (use assms in simp_all)

text \<open>
  C37. The guard is not enough for two threads. When the load and the store of \<open>intercepting++\<close>
  are torn apart, two signals that arrive in an idle module both pass it: both activations
  collect, both write their report, and the counter shows one.
\<close>

theorem torn_guard_admits_two:
  assumes "i \<noteq> j" "rc_runs r i = None" "rc_runs r j = None"
    and "sh_intercepting (rc_module r) = 0" "signos (sh_signals (rc_module r)) = signos observedSignals"
    and "\<And>e. e \<in> {c, d :: arrival} \<Longrightarrow> sa_handler (k_disp (sh_kernel (rc_module r)) (ar_signo e)) = Interceptor"
    and "\<And>e. e \<in> {c, d} \<Longrightarrow> ar_signo e \<in> set (signos observedSignals)"
    and "\<And>e. e \<in> {c, d} \<Longrightarrow> collect_backtrace b (ar_world e) BACKTRACE_SZ_MAX (ar_info e) (ar_context e) = Some (True, report e)"
  shows "\<exists>r'. (race_step True True b)\<^sup>*\<^sup>* r r' \<and> holds_guard r' i \<and> holds_guard r' j \<and>
    sh_intercepting (rc_module r') = 1 \<and>
    sh_files (rc_module r') =
      from_crash (w_native (ar_world d)) (ar_time d) (ar_disk d) (report d) (length (c_str (report d)))
        (from_crash (w_native (ar_world c)) (ar_time c) (ar_disk c) (report c) (length (c_str (report c)))
          (sh_files (rc_module r)))"
proof -
  let ?st = "rc_module r"
  let ?one = "?st\<lparr>sh_intercepting := 1\<rparr>"
  let ?saved = "\<lambda>e st. st\<lparr>sh_files := from_crash (w_native (ar_world e)) (ar_time e) (ar_disk e) (report e)
      (length (c_str (report e))) (sh_files st)\<rparr>"
  obtain k where k: "observed_signal_get_or_null (ar_signo c) (sh_signals ?one) = Some k" "k < length (sh_signals ?one)"
    using get_or_null_observed [of "sh_signals ?one"] assms(5,7) by auto
  let ?two = "?saved c (count_callers k 1 ?one)"
  have "signos (sh_signals ?two) = signos observedSignals"
    using count_callers_signals(1) [OF k(2)] assms(5) by simp
  then obtain l where l: "observed_signal_get_or_null (ar_signo d) (sh_signals ?two) = Some l"
    using get_or_null_observed assms(7) by blast
  let ?three = "?saved d (count_callers l 1 ?two)"
  define r1 where "r1 = goes_on j d Entering ?st (goes_on i c Entering ?st r)"
  define r2 where "r2 = goes_on j d (Loaded 0) ?st (goes_on i c (Loaded 0) ?st r1)"
  define r3 where "r3 = goes_on j d Inside ?one (goes_on i c Inside ?one r2)"
  define r4 where "r4 = goes_on j d (Reported l) ?three (goes_on i c (Reported k) ?two r3)"
  have arrive: "(race_step True True b)\<^sup>*\<^sup>* r r1"
    unfolding r1_def by (rule both_arrive [OF assms(1-3)]) (simp_all add: assms(6))
  have load: "(race_step True True b)\<^sup>*\<^sup>* r1 r2"
    unfolding r2_def by (rule both_advance [OF assms(1), where s = Entering and t = Entering]) (simp_all add: r1_def assms(1,4) Let_def)
  have store: "(race_step True True b)\<^sup>*\<^sup>* r2 r3"
    unfolding r3_def by (rule both_advance [OF assms(1), where s = "Loaded 0" and t = "Loaded 0"]) (simp_all add: r2_def assms(1,4))
  have "(race_step True True b)\<^sup>*\<^sup>* r3 r4"
    unfolding r4_def
  proof (rule both_advance [OF assms(1), where s = Inside and t = Inside])
    show "advance True b c Inside (rc_module r3) = Returns (Reported k, ?two)"
      using advance_Inside [OF k(1) assms(8)] by (simp add: r3_def del: advance.simps)
    show "advance True b d Inside ?two = Returns (Reported l, ?three)"
      by (rule advance_Inside [OF l assms(8)]) simp
  qed (simp_all add: r3_def assms(1))
  with arrive load store have "(race_step True True b)\<^sup>*\<^sup>* r r4" by (meson rtranclp_trans)
  moreover have "holds_guard r4 i" "holds_guard r4 j" using assms(1) by (simp_all add: r4_def holds_guard_def)
  moreover have "sh_intercepting (rc_module r4) = 1" "sh_files (rc_module r4) = sh_files ?three" by (simp_all add: r4_def)
  ultimately show ?thesis by (intro exI [of _ r4]) simp
qed

theorem torn_guard_admits_two_witness:
  "\<exists>r. race_reachable True True arm64_build r \<and> holds_guard r 0 \<and> holds_guard r 1 \<and> sh_intercepting (rc_module r) = 1"
proof -
  obtain st where st: "race_reachable True True arm64_build \<lparr>rc_module = st, rc_runs = Map.empty\<rparr>"
    "sa_handler (k_disp (sh_kernel st) SIGSEGV) = Interceptor" "sh_intercepting st = 0"
    "signos (sh_signals st) = signos observedSignals"
    using started_race by blast
  have "b_ngreg arm64_build \<le> 64" by (simp add: arm64_build_def)
  note doc = report_text(1) [OF sample_world_facts(1,2) this, of "\<lparr>si_signo = 11, si_code = 1, si_addr = 0\<rparr>" zero_mcontext]
  have "SIGSEGV \<in> set (signos observedSignals)" by (simp add: signos_observed(1))
  from torn_guard_admits_two [of "0::nat" 1 "\<lparr>rc_module = st, rc_runs = Map.empty\<rparr>" sample_arrival sample_arrival
      arm64_build "\<lambda>_. show_json DQ (report_json arm64_build (w_fs sample_world) (w_symbols sample_world)
        (w_native sample_world) (fill_backtrace arm64_build sample_world \<lparr>si_signo = 11, si_code = 1, si_addr = 0\<rparr>
          (Some zero_mcontext)) zero_mcontext \<lparr>si_signo = 11, si_code = 1, si_addr = 0\<rparr>)"]
  obtain r where "(race_step True True arm64_build)\<^sup>*\<^sup>* \<lparr>rc_module = st, rc_runs = Map.empty\<rparr> r"
    "holds_guard r 0" "holds_guard r 1" "sh_intercepting (rc_module r) = 1"
    using st(2-4) \<open>SIGSEGV \<in> _\<close> by (auto simp: sample_arrival_def doc)
  with st(1) show ?thesis unfolding race_reachable_def by (meson rtranclp_trans)
qed

lemma chained_leaves:
  assumes "rc_runs r i = Some (c, Chained k)"
  shows "\<exists>r'. (race_step torn calm b)\<^sup>*\<^sup>* r r' \<and> rc_runs r' i = Some (c, Left) \<and>
    rc_module r' = (rc_module r)\<lparr>sh_intercepting := sh_intercepting (rc_module r) - 1\<rparr>"
proof -
  let ?off = "(rc_module r)\<lparr>sh_intercepting := sh_intercepting (rc_module r) - 1\<rparr>"
  let ?between = "goes_on i c (Storing (sh_intercepting (rc_module r))) (rc_module r) r"
  have "(race_step torn calm b)\<^sup>*\<^sup>* r (if torn then goes_on i c Left ?off ?between else goes_on i c Left ?off r)"
  proof (cases torn)
    case True
    have "race_step torn calm b r ?between"
      by (rule race_step.Piece [OF assms]) (simp add: True)
    moreover have "race_step torn calm b ?between (goes_on i c Left ?off ?between)"
      by (rule race_step.Piece [where s = "Storing (sh_intercepting (rc_module r))"]) simp_all
    ultimately show ?thesis using True by (simp add: converse_rtranclp_into_rtranclp)
  next
    case False
    have "race_step torn calm b r (goes_on i c Left ?off r)"
      by (rule race_step.Piece [OF assms]) (simp add: False)
    then show ?thesis using False by simp
  qed
  then show ?thesis by (rule exI [where x = "if torn then _ else _", OF conjI]) simp
qed

text \<open>One activation, from its signal to the end of its chaining, when nothing comes between.\<close>

lemma reaches_chained:
  assumes "rc_runs r i = None" "sa_handler (k_disp (sh_kernel (rc_module r)) (ar_signo c)) = Interceptor"
    and "sh_intercepting (rc_module r) = 0" "sh_initialized (rc_module r) = 1" "\<not> sh_locked (rc_module r)"
    and "signos (sh_signals (rc_module r)) = signos observedSignals" "ar_signo c \<in> set (signos observedSignals)"
    and "collect_backtrace b (ar_world c) BACKTRACE_SZ_MAX (ar_info c) (ar_context c) = Some (True, buffer)"
    and "lock_safe (ar_calls c)"
  shows "\<exists>r' k. (race_step False calm b)\<^sup>*\<^sup>* r r' \<and> rc_runs r' i = Some (c, Chained k) \<and>
    sh_initialized (rc_module r') = 0 \<and> \<not> sh_locked (rc_module r') \<and>
    signos (sh_signals (rc_module r')) = signos observedSignals"
proof -
  let ?st = "rc_module r"
  let ?one = "?st\<lparr>sh_intercepting := 1\<rparr>"
  obtain k where k: "observed_signal_get_or_null (ar_signo c) (sh_signals ?one) = Some k" "k < length (sh_signals ?one)"
    using get_or_null_observed [of "sh_signals ?one"] assms(6,7) by auto
  let ?two = "(count_callers k 1 ?one)\<lparr>sh_files := from_crash (w_native (ar_world c)) (ar_time c) (ar_disk c) buffer
      (length (c_str buffer)) (sh_files (count_callers k 1 ?one))\<rparr>"
  let ?three = "uninstall_handler (ar_calls c) ?two"
  have "\<not> sh_locked ?three" using assms(5) by simp
  then obtain s3 where s3: "invoke_previous_sigaction (ar_calls c) (ar_signo c) ?three = Returns s3"
    using unlocked_Returns(3) by blast
  let ?four = "count_callers k (- 1) s3"
  have signals: "signos (sh_signals ?three) = signos observedSignals" "k < length (sh_signals s3)"
    using count_callers_signals(1) [OF k(2)] assms(6) k(2) invoke_previous_keeps [OF s3] by simp_all
  then have four: "signos (sh_signals ?four) = signos observedSignals"
    using count_callers_signals(1) [OF signals(2)] invoke_previous_keeps [OF s3] by simp
  define r1 where "r1 = goes_on i c Entering ?st r"
  define r2 where "r2 = goes_on i c Inside ?one r1"
  define r3 where "r3 = goes_on i c (Reported k) ?two r2"
  define r4 where "r4 = goes_on i c (Removed k) ?three r3"
  define r5 where "r5 = goes_on i c (Chained k) ?four r4"
  have steps: "race_step False calm b r r1" "race_step False calm b r1 r2" "race_step False calm b r2 r3"
    "race_step False calm b r3 r4" "race_step False calm b r4 r5"
  proof -
    show "race_step False calm b r r1" unfolding r1_def by (rule race_step.Deliver [OF assms(1,2)])
    show "race_step False calm b r1 r2" unfolding r2_def
      by (rule race_step.Piece [where s = Entering]) (simp_all add: r1_def assms(3) Let_def)
    show "race_step False calm b r2 r3" unfolding r3_def
      using advance_Inside [OF k(1) assms(8)]
      by (intro race_step.Piece [where s = Inside]) (simp_all add: r2_def del: advance.simps)
    show "race_step False calm b r3 r4" unfolding r4_def
      by (rule race_step.Piece [where s = "Reported k"]) (simp_all add: r3_def)
    show "race_step False calm b r4 r5" unfolding r5_def
      by (rule race_step.Piece [where s = "Removed k"]) (use s3 in \<open>simp_all add: r4_def\<close>)
  qed
  have "(race_step False calm b)\<^sup>*\<^sup>* r r5"
    using steps by (meson converse_rtranclp_into_rtranclp r_into_rtranclp)
  moreover have "rc_runs r5 i = Some (c, Chained k)" "rc_module r5 = ?four" by (simp_all add: r5_def)
  moreover have "\<not> sh_locked s3" by (rule invoke_previous_unlocked [OF assms(9) \<open>\<not> sh_locked ?three\<close> s3])
  moreover have "sh_initialized s3 = 0"
    using invoke_previous_frame(3) [OF s3] assms(4) by (simp add: uninstall_handler_def)
  ultimately show ?thesis
    using four by (intro exI [of _ r5] exI [of _ k]) simp
qed

text \<open>
  C38. A restart at the end of an interception mutes the next crash. The chaining is over and
  the mutex free again, but the interceptor has not taken back its mark: a start that comes now,
  or that waited for the mutex, and its installer thread, with no earlier start counted and all
  their calls succeeding, reset the counter, and the interceptor's decrement takes it below
  zero. The handlers are installed, but the next crash passes without a report, an
  uninstallation or a call of the previous action. (During the chaining itself the mutex holds
  the start back.)
\<close>

theorem restart_mutes_next_crash:
  assumes "rc_runs r i = Some (c, Chained k)" "system_ok os" "\<not> sh_locked (rc_module r)"
    and "sh_initialized (rc_module r) = 0" "distinct (signos (sh_signals (rc_module r)))"
  shows "\<exists>r'. (race_step torn False b)\<^sup>*\<^sup>* r r' \<and> rc_runs r' i = Some (c, Left) \<and>
    (\<forall>n \<in> set (signos (sh_signals (rc_module r))). k_disp (sh_kernel (rc_module r')) n = interceptor_action) \<and>
    (\<forall>w t d os' signo si uc. interceptor b w t d os' signo si uc (rc_module r') =
       Returns ((rc_module r')\<lparr>sh_intercepting := 0\<rparr>))"
proof -
  obtain st1 where init: "signal_handler_initialize n os (rc_module r) = Returns (True, st1)"
    and st1: "sh_initialized st1 = 0" "signos (sh_signals st1) = signos (sh_signals (rc_module r))"
      "sh_pending st1 = Suc (sh_pending (rc_module r))"
    using initialize_ok [OF assms(2,3)] assms(4) by simp
  define st2 where "st2 = install_signal_observers os (st1\<lparr>sh_pending := sh_pending (rc_module r)\<rparr>)"
  let ?off = "st2\<lparr>sh_intercepting := - 1\<rparr>"
  let ?again = "r\<lparr>rc_module := st1, rc_module := st2\<rparr>"
  have st2: "sh_intercepting st2 = 0" "\<forall>n \<in> set (signos (sh_signals (rc_module r))). k_disp (sh_kernel st2) n = interceptor_action"
    using install_ok [of os "st1\<lparr>sh_pending := sh_pending (rc_module r)\<rparr>"] assms(2,5) st1 by (simp_all add: st2_def)
  have start: "race_step torn False b r (r\<lparr>rc_module := st1\<rparr>)"
    by (rule race_step.Started [OF init])
  have "race_step torn False b (r\<lparr>rc_module := st1\<rparr>) ?again"
    using race_step.Installer [of "r\<lparr>rc_module := st1\<rparr>" "sh_pending (rc_module r)" False torn b os] st1(3)
    by (simp add: st2_def)
  with start have restarted: "(race_step torn False b)\<^sup>*\<^sup>* r ?again"
    by (rule converse_rtranclp_into_rtranclp [OF _ r_into_rtranclp])
  have "rc_runs ?again i = Some (c, Chained k)" using assms(1) by simp
  from chained_leaves [OF this, of torn False b] st2(1) obtain r' where "(race_step torn False b)\<^sup>*\<^sup>* ?again r'"
    and r': "rc_runs r' i = Some (c, Left)" "rc_module r' = ?off"
    by auto
  with restarted have "(race_step torn False b)\<^sup>*\<^sup>* r r'" by simp
  then show ?thesis
    using st2(2) r' by (intro exI [of _ r']) (simp add: interceptor_early)
qed

theorem restart_mutes_next_crash_witness:
  "\<exists>r. race_reachable False False arm64_build r \<and> rc_runs r 0 = Some (sample_arrival, Left) \<and>
    k_disp (sh_kernel (rc_module r)) SIGSEGV = interceptor_action \<and>
    interceptor arm64_build sample_world sample_clock \<lparr>d_open = (\<lambda>_. True), d_room = (\<lambda>_. 340000)\<rparr> sh_all_ok SIGSEGV
      None None (rc_module r) = Returns ((rc_module r)\<lparr>sh_intercepting := 0\<rparr>)"
proof -
  obtain st where st: "race_reachable False False arm64_build \<lparr>rc_module = st, rc_runs = Map.empty\<rparr>"
    "sa_handler (k_disp (sh_kernel st) SIGSEGV) = Interceptor" "sh_intercepting st = 0"
    "signos (sh_signals st) = signos observedSignals" "sh_initialized st = 1" "\<not> sh_locked st"
    using started_race by blast
  have sig: "SIGSEGV \<in> set (signos observedSignals)" by (simp add: signos_observed(1))
  have "b_ngreg arm64_build \<le> 64" by (simp add: arm64_build_def)
  note doc = report_text(1) [OF sample_world_facts(1,2) this, of "\<lparr>si_signo = 11, si_code = 1, si_addr = 0\<rparr>" zero_mcontext]
  have "lock_safe sh_all_ok" by (simp add: lock_safe_def sh_all_ok_def all_ok_def)
  then obtain r1 k where r1: "(race_step False False arm64_build)\<^sup>*\<^sup>* \<lparr>rc_module = st, rc_runs = Map.empty\<rparr> r1"
    "rc_runs r1 0 = Some (sample_arrival, Chained k)" "sh_initialized (rc_module r1) = 0" "\<not> sh_locked (rc_module r1)"
    "signos (sh_signals (rc_module r1)) = signos observedSignals"
    using reaches_chained [of "\<lparr>rc_module = st, rc_runs = Map.empty\<rparr>" 0 sample_arrival arm64_build _ False] st(2-6) sig doc
    by (auto simp: sample_arrival_def)
  have "distinct (signos (sh_signals (rc_module r1)))" using r1(5) signos_observed(2) by simp
  from restart_mutes_next_crash [OF r1(2) system_ok_sh_all_ok r1(4,3) this, of False arm64_build]
  obtain r2 where r2: "(race_step False False arm64_build)\<^sup>*\<^sup>* r1 r2" "rc_runs r2 0 = Some (sample_arrival, Left)"
    "\<forall>n \<in> set (signos (sh_signals (rc_module r1))). k_disp (sh_kernel (rc_module r2)) n = interceptor_action"
    "interceptor arm64_build sample_world sample_clock \<lparr>d_open = (\<lambda>_. True), d_room = (\<lambda>_. 340000)\<rparr> sh_all_ok SIGSEGV
      None None (rc_module r2) = Returns ((rc_module r2)\<lparr>sh_intercepting := 0\<rparr>)"
    by blast
  moreover have "race_reachable False False arm64_build r2"
    using st(1) r1(1) r2(1) unfolding race_reachable_def by (meson rtranclp_trans)
  ultimately show ?thesis using r1(5) sig by auto
qed

end
