(* ===== verification/Managed_Reader.thy ===== *)
theory Managed_Reader
  imports Emitter_Spec
begin

text \<open>
  The managed reader of a report: \<open>NativeStackTrace.kt\<close>, \<open>NativeThreadInfo.kt\<close>,
  \<open>NativeStackFrame.kt\<close> and \<open>NativeException.kt\<close> turn the text that the native side wrote into
  threads, stack trace elements and a message. The JSON library of the platform, \<open>org.json\<close>, is
  a parameter; the locale \<open>org_json\<close> is what its documentation says of well-formed text and of the
  accessors on members that are there with the right type.
\<close>

section \<open>The JSON library\<close>

text \<open>The calls the reader makes. \<open>get\<close> accessors throw a \<open>JSONException\<close> (\<open>None\<close>), \<open>opt\<close> accessors
  take a fallback; the last field is the message of the exception for a missing name.\<close>

record json_lib =
  jl_parse :: "string \<Rightarrow> json option"
  jl_toString :: "json \<Rightarrow> string"
  jl_getJSONObject :: "json \<Rightarrow> string \<Rightarrow> json option"
  jl_getJSONArray :: "json \<Rightarrow> string \<Rightarrow> json list option"
  jl_getString :: "json \<Rightarrow> string \<Rightarrow> string option"
  jl_getInt :: "json \<Rightarrow> string \<Rightarrow> int option"
  jl_getLong :: "json \<Rightarrow> string \<Rightarrow> int option"
  jl_optString :: "json \<Rightarrow> string \<Rightarrow> string \<Rightarrow> string"
  jl_optInt :: "json \<Rightarrow> string \<Rightarrow> int \<Rightarrow> int"
  jl_optLong :: "json \<Rightarrow> string \<Rightarrow> int \<Rightarrow> int"
  jl_optBoolean :: "json \<Rightarrow> string \<Rightarrow> bool \<Rightarrow> bool"
  jl_optJSONArray :: "json \<Rightarrow> string \<Rightarrow> json list option"
  jl_message :: "json \<Rightarrow> string \<Rightarrow> string"

text \<open>The value of a name: a later member replaces an earlier one.\<close>

fun member :: "json \<Rightarrow> string \<Rightarrow> json option" where
  "member (JObj ms) k = map_of (rev ms) k"
| "member _ k = None"

definition fits_int :: "int \<Rightarrow> bool" where
  "fits_int i \<longleftrightarrow> - (2 ^ 31) \<le> i \<and> i < 2 ^ 31"

definition fits_long :: "int \<Rightarrow> bool" where
  "fits_long i \<longleftrightarrow> - (2 ^ 63) \<le> i \<and> i < 2 ^ 63"

text \<open>Values the library represents exactly: every number is a \<open>long\<close>.\<close>

fun long_json :: "json \<Rightarrow> bool" where
  "long_json (JInt i) \<longleftrightarrow> fits_long i"
| "long_json (JArr js) \<longleftrightarrow> list_all long_json js"
| "long_json (JObj ms) \<longleftrightarrow> list_all (\<lambda>(k, v). long_json v) ms"
| "long_json _ \<longleftrightarrow> True"

fun distinct_names :: "json \<Rightarrow> bool" where
  "distinct_names (JArr js) \<longleftrightarrow> list_all distinct_names js"
| "distinct_names (JObj ms) \<longleftrightarrow> distinct (map fst ms) \<and> list_all (\<lambda>(k, v). distinct_names v) ms"
| "distinct_names _ \<longleftrightarrow> True"

locale org_json =
  fixes lib :: json_lib
  assumes parse_text: "clean_json (JObj ms) \<Longrightarrow> long_json (JObj ms) \<Longrightarrow>
      jl_parse lib (show_json DQ (JObj ms)) = Some (JObj ms)"
    and parse_toString: "clean_json (JObj ms) \<Longrightarrow> long_json (JObj ms) \<Longrightarrow> distinct_names (JObj ms) \<Longrightarrow>
      jl_parse lib (jl_toString lib (JObj ms)) = Some (JObj ms)"
    and getJSONObject: "member j k = Some (JObj ms) \<Longrightarrow> jl_getJSONObject lib j k = Some (JObj ms)"
    and getJSONArray: "member j k = Some (JArr js) \<Longrightarrow> jl_getJSONArray lib j k = Some js"
    and optJSONArray: "member j k = Some (JArr js) \<Longrightarrow> jl_optJSONArray lib j k = Some js"
    and getString: "member j k = Some (JStr t) \<Longrightarrow> jl_getString lib j k = Some t"
    and optString: "member j k = Some (JStr t) \<Longrightarrow> jl_optString lib j k d = t"
    and getInt: "member j k = Some (JInt i) \<Longrightarrow> fits_int i \<Longrightarrow> jl_getInt lib j k = Some i"
    and optInt: "member j k = Some (JInt i) \<Longrightarrow> fits_int i \<Longrightarrow> jl_optInt lib j k n = i"
    and getLong: "member j k = Some (JInt i) \<Longrightarrow> fits_long i \<Longrightarrow> jl_getLong lib j k = Some i"
    and optLong: "member j k = Some (JInt i) \<Longrightarrow> fits_long i \<Longrightarrow> jl_optLong lib j k n = i"
    and optBoolean: "member j k = Some (JBool v) \<Longrightarrow> jl_optBoolean lib j k w = v"
    and optString_none: "member j k = None \<Longrightarrow> jl_optString lib j k d = d"
    and optInt_none: "member j k = None \<Longrightarrow> jl_optInt lib j k n = n"
    and optLong_none: "member j k = None \<Longrightarrow> jl_optLong lib j k n = n"

section \<open>Frames\<close>

record stack_element =
  se_className :: string
  se_methodName :: string
  se_fileName :: string
  se_lineNumber :: int

text \<open>Kotlin's \<open>toString(16)\<close> on a \<open>Long\<close>: sign and magnitude.\<close>

definition hex_string :: "int \<Rightarrow> string" where
  "hex_string i = (if i < 0 then ''-'' else '''') @ radix 16 (nat \<bar>i\<bar>)"

definition frame_fromJson :: "json_lib \<Rightarrow> json \<Rightarrow> stack_element" where
  "frame_fromJson lib frame =
     \<lparr>se_className = ''0x'' @ hex_string (jl_optLong lib frame ''address'' (jl_optLong lib frame ''so_base'' (- 1))),
      se_methodName = jl_optString lib frame ''sym_name'' ''???'',
      se_fileName = jl_optString lib frame ''so_path'' (''0x'' @ hex_string (jl_optLong lib frame ''so_base'' (- 1))),
      se_lineNumber = jl_optInt lib frame ''lineNumber'' (- 2)\<rparr>"

definition unknown_element :: stack_element where
  "unknown_element = \<lparr>se_className = ''<unknown>'', se_methodName = ''<unknown>'', se_fileName = ''<unknown>'',
     se_lineNumber = - 2\<rparr>"

text \<open>The cast to \<open>JSONObject\<close> fails on any other value.\<close>

fun stack_element_of :: "json_lib \<Rightarrow> json \<Rightarrow> stack_element" where
  "stack_element_of lib (JObj ms) = frame_fromJson lib (JObj ms)"
| "stack_element_of lib _ = unknown_element"

definition stackTraceFromJson :: "json_lib \<Rightarrow> json list option \<Rightarrow> stack_element list" where
  "stackTraceFromJson lib allFrames =
     (case allFrames of None \<Rightarrow> [] | Some fs \<Rightarrow> map (stack_element_of lib) fs)"

section \<open>Threads\<close>

record native_thread_info =
  nt_crashed :: bool
  nt_state :: string
  nt_threadId :: int
  nt_threadName :: string
  nt_threadPriority :: int
  nt_stackTrace :: "stack_element list"

definition thread_fromJson :: "json_lib \<Rightarrow> json \<Rightarrow> native_thread_info" where
  "thread_fromJson lib jsonObject =
     \<lparr>nt_crashed = jl_optBoolean lib jsonObject ''crashed'' False,
      nt_state = jl_optString lib jsonObject ''state'' '''',
      nt_threadId = jl_optLong lib jsonObject ''threadNumber'' 0,
      nt_threadName = jl_optString lib jsonObject ''threadId'' '''',
      nt_threadPriority = jl_optInt lib jsonObject ''priority'' (- 1),
      nt_stackTrace = stackTraceFromJson lib (jl_optJSONArray lib jsonObject ''stack'')\<rparr>"

text \<open>Every element is printed and parsed again; text that is no object throws.\<close>

fun allThreads :: "json_lib \<Rightarrow> json list \<Rightarrow> native_thread_info list option" where
  "allThreads lib [] = Some []"
| "allThreads lib (t # ts) =
     (case jl_parse lib (jl_toString lib t) of
        None \<Rightarrow> None
      | Some jsonObject \<Rightarrow> map_option (\<lambda>rest. thread_fromJson lib jsonObject # rest) (allThreads lib ts))"

section \<open>The whole trace\<close>

record native_stack_trace =
  ns_crashedThread :: "native_thread_info option"
  ns_threads :: "native_thread_info list"
  ns_exceptionMessage :: string

definition exception_message :: "json_lib \<Rightarrow> json \<Rightarrow> string \<Rightarrow> string" where
  "exception_message lib backtrace message =
     (case jl_getJSONObject lib backtrace ''exception'' of
        None \<Rightarrow> message
      | Some exception \<Rightarrow>
          (let cause = jl_optString lib exception ''cause'' ''''
           in case jl_getString lib exception ''name'' of
                None \<Rightarrow> message
              | Some name \<Rightarrow>
                  (let message = name @ '': '' @ cause
                   in case jl_getJSONObject lib exception ''signalInfo'' of
                        None \<Rightarrow> message
                      | Some info \<Rightarrow>
                          (case (jl_getString lib info ''signalName'', jl_getInt lib info ''signalCode'',
                                 jl_getLong lib info ''faultAddress'') of
                             (Some signal, Some code, Some address) \<Rightarrow>
                               signal @ '' '' @ ''(code '' @ show_int code @ '') '' @ cause @ '' '' @
                               ''at 0x'' @ hex_string address
                           | _ \<Rightarrow> message))))"

text \<open>The constructor: \<open>None\<close> when the text is no JSON object, which throws past every handler.\<close>

definition transformNativeStackTrace :: "json_lib \<Rightarrow> string \<Rightarrow> native_stack_trace option" where
  "transformNativeStackTrace lib stackTraceAsString =
     (case jl_parse lib stackTraceAsString of
        None \<Rightarrow> None
      | Some jsonObj \<Rightarrow>
          (case jl_getJSONObject lib jsonObj ''backtrace'' of
             None \<Rightarrow> Some \<lparr>ns_crashedThread = None, ns_threads = [],
                           ns_exceptionMessage = jl_message lib jsonObj ''backtrace''\<rparr>
           | Some backtrace \<Rightarrow>
               (let threads = (case jl_getJSONArray lib backtrace ''threads'' of
                                 None \<Rightarrow> None | Some ts \<Rightarrow> allThreads lib ts)
                in Some \<lparr>ns_crashedThread = (case threads of None \<Rightarrow> None | Some ts \<Rightarrow> find nt_crashed ts),
                         ns_threads = (case threads of None \<Rightarrow> [] | Some ts \<Rightarrow> ts),
                         ns_exceptionMessage = exception_message lib backtrace ''Native exception''\<rparr>)))"

text \<open>\<open>NativeException\<close>: its stack trace is the crashed thread's.\<close>

definition exception_stackTrace :: "native_stack_trace \<Rightarrow> stack_element list" where
  "exception_stackTrace tr = (case ns_crashedThread tr of None \<Rightarrow> [] | Some t \<Rightarrow> nt_stackTrace t)"

section \<open>What the reader should see\<close>

definition managed_frame :: "build \<Rightarrow> stackframe \<Rightarrow> stack_element" where
  "managed_frame b sf =
     \<lparr>se_className = ''0x'' @ radix 16 (unsigned_arg (abi_bits b) (sf_address sf)),
      se_methodName = (if sf_sym_name sf = [] then ''???'' else sf_sym_name sf),
      se_fileName = (if sf_so_path sf = [] then ''0x'' @ radix 16 (unsigned_arg (abi_bits b) (sf_so_base sf))
                     else sf_so_path sf),
      se_lineNumber = - 2\<rparr>"

definition managed_thread :: "build \<Rightarrow> symbols \<Rightarrow> threadinfo \<Rightarrow> native_thread_info" where
  "managed_thread b sy ti =
     \<lparr>nt_crashed = ti_crashed ti, nt_state = ti_thread_state ti, nt_threadId = sint (ti_tid ti),
      nt_threadName = ti_thread_name ti, nt_threadPriority = sint (ti_priority ti),
      nt_stackTrace = map (managed_frame b) (callstack_frames b sy (ti_backtrace_state ti))\<rparr>"

definition signal_message :: "build \<Rightarrow> siginfo \<Rightarrow> string" where
  "signal_message b si =
     get_signal_description (sint (si_signo si)) (- 1) @ '' (code '' @ show_int (sint (si_code si)) @ '') '' @
     get_signal_description (sint (si_signo si)) (sint (si_code si)) @ '' at 0x'' @
     radix 16 (unsigned_arg (abi_bits b) (si_addr si))"

definition managed_trace :: "build \<Rightarrow> symbols \<Rightarrow> backtrace \<Rightarrow> siginfo \<Rightarrow> native_stack_trace" where
  "managed_trace b sy bt si =
     \<lparr>ns_crashedThread = map_option (managed_thread b sy) (find ti_crashed (bt_threads bt)),
      ns_threads = map (managed_thread b sy) (bt_threads bt),
      ns_exceptionMessage = signal_message b si\<rparr>"

text \<open>Addresses that a \<open>long\<close> holds.\<close>

definition long_address :: "build \<Rightarrow> uptr \<Rightarrow> bool" where
  "long_address b r \<longleftrightarrow> unsigned_arg (abi_bits b) r < 2 ^ 63"

definition long_frame :: "build \<Rightarrow> stackframe \<Rightarrow> bool" where
  "long_frame b sf \<longleftrightarrow> long_address b (sf_address sf) \<and> long_address b (sf_pc sf) \<and> long_address b (sf_so_base sf) \<and>
     long_address b (sf_sym_addr sf) \<and> long_address b (sf_sym_addr_offset sf)"

definition long_report :: "build \<Rightarrow> symbols \<Rightarrow> backtrace \<Rightarrow> siginfo \<Rightarrow> bool" where
  "long_report b sy bt si \<longleftrightarrow> long_address b (si_addr si) \<and>
     list_all (\<lambda>ti. list_all (long_frame b) (callstack_frames b sy (ti_backtrace_state ti))) (bt_threads bt)"

section \<open>The report's numbers\<close>

lemma signed_arg_range:
  assumes "0 < n"
  shows "- (2 ^ (n - 1)) \<le> signed_arg n r" "signed_arg n r < 2 ^ (n - 1)"
  using assms signed_take_bit_int_greater_eq_minus_exp [of "n - 1" "uint r"]
    signed_take_bit_int_less_exp [of "n - 1" "uint r"]
  by (simp_all add: signed_arg_def)

lemma fits_int_signed_arg [simp]: "fits_int (signed_arg 32 r)"
  using signed_arg_range [of 32 r] by (simp add: fits_int_def)

lemma fits_int_sint [simp]: "fits_int (sint (x :: 32 word))"
  using sint_ge [of x] sint_lt [of x] by (simp add: fits_int_def)

lemma fits_int_long: "fits_int i \<Longrightarrow> fits_long i"
  by (simp add: fits_int_def fits_long_def)

lemma fits_long_signed_arg [simp]:
  assumes "0 < n" "n \<le> 64"
  shows "fits_long (signed_arg n r)"
proof -
  have "(2::int) ^ (n - 1) \<le> 2 ^ 63" using assms by (intro power_increasing) auto
  then show ?thesis using signed_arg_range [OF assms(1), of r] by (simp add: fits_long_def)
qed

lemma long_word_json: "long_json (word_json b r) \<longleftrightarrow> long_address b r"
  by (simp add: word_json_def long_address_def fits_long_def flip: of_nat_less_iff)

lemma long_register_json [simp]:
  "long_json (hex_json w n r)" "long_json (dec_json w n r)" "long_json (sdec_json w n r)" "long_json (ptr_json z w n r)"
  by (simp_all add: hex_json_def dec_json_def sdec_json_def ptr_json_def)

lemma long_registers: "long_json (JObj (registers_members b mc))"
  by (cases "b_abi b")
    (simp_all add: registers_members_def Let_def list_all_iff del: upt_Suc upt_rec_numeral)

lemma long_frame_json: "long_frame b sf \<Longrightarrow> long_json (frame_json b sf)"
  by (simp add: long_frame_def frame_json_def frame_members_def long_word_json fits_int_long)

lemma long_thread_json:
  "list_all (long_frame b) (callstack_frames b sy (ti_backtrace_state ti)) \<Longrightarrow> long_json (thread_json b sy ti)"
  by (simp add: thread_json_def thread_members_def stack_json_def list_all_iff long_frame_json fits_int_long)

lemma long_report_json:
  assumes "long_report b sy bt si"
  shows "long_json (report_json b fs sy nc bt mc si)"
proof -
  have "long_json (threads_json b sy (bt_threads bt))"
    using assms by (simp add: threads_json_def long_report_def list_all_iff long_thread_json)
  moreover have "long_json (JObj (exception_members b si))"
    using assms by (simp add: exception_members_def signal_info_members_def long_report_def long_word_json fits_int_long)
  moreover have "long_json (JObj (context_members b fs nc bt))"
    by (simp add: context_members_def fits_int_long)
  ultimately show ?thesis
    using long_registers by (simp add: report_json_def report_members_def)
qed

lemma distinct_word_json [simp]: "distinct_names (word_json b r)"
  by (simp add: word_json_def)

lemma distinct_frame_json: "distinct_names (frame_json b sf)"
  by (simp add: frame_json_def frame_members_def)

lemma distinct_thread_json: "distinct_names (thread_json b sy ti)"
  by (simp add: thread_json_def thread_members_def stack_json_def list_all_iff distinct_frame_json)

text \<open>On the 32-bit ABIs every address fits.\<close>

lemma long_address_32: "abi_bits b = 32 \<Longrightarrow> long_address b r"
  by (simp add: long_address_def unsigned_arg_def nat_less_iff order_less_trans [OF take_bit_int_less_exp])

lemma long_report_32: "abi_bits b = 32 \<Longrightarrow> long_report b sy bt si"
  by (simp add: long_report_def long_frame_def long_address_32 list_all_iff)

section \<open>Reading members\<close>

lemma fits_long_address: "long_address b r \<Longrightarrow> fits_long (int (unsigned_arg (abi_bits b) r))"
  by (simp add: long_address_def fits_long_def flip: of_nat_less_iff)

lemma hex_string_nat [simp]: "hex_string (int n) = radix 16 n"
  by (simp add: hex_string_def)

context org_json
begin

lemma frame_read:
  assumes "long_frame b sf"
  shows "stack_element_of lib (frame_json b sf) = managed_frame b sf"
proof -
  let ?j = "JObj (frame_members b sf)"
  have long: "fits_long (int (unsigned_arg (abi_bits b) (sf_address sf)))" "fits_long (int (unsigned_arg (abi_bits b) (sf_so_base sf)))"
    using assms by (simp_all add: long_frame_def fits_long_address)
  have "member ?j ''address'' = Some (JInt (int (unsigned_arg (abi_bits b) (sf_address sf))))"
    "member ?j ''so_base'' = Some (JInt (int (unsigned_arg (abi_bits b) (sf_so_base sf))))"
    by (simp_all add: frame_members_def word_json_def)
  note longs = optLong [OF this(1) long(1)] optLong [OF this(2) long(2)]
  have name: "jl_optString lib ?j ''sym_name'' d = (if sf_sym_name sf = [] then d else sf_sym_name sf)" for d
    by (cases "sf_sym_name sf = []") (simp_all add: frame_members_def optString optString_none)
  have path: "jl_optString lib ?j ''so_path'' d = (if sf_so_path sf = [] then d else sf_so_path sf)" for d
    by (cases "sf_so_path sf = []") (simp_all add: frame_members_def optString optString_none)
  have line: "jl_optInt lib ?j ''lineNumber'' d = d" for d
    by (intro optInt_none) (simp add: frame_members_def)
  show ?thesis
    by (simp add: frame_json_def frame_fromJson_def managed_frame_def longs name path line)
qed

lemma thread_read:
  assumes "list_all (long_frame b) (callstack_frames b sy (ti_backtrace_state ti))"
  shows "thread_fromJson lib (thread_json b sy ti) = managed_thread b sy ti"
proof -
  let ?j = "JObj (thread_members b sy ti)"
  have "member ?j ''threadNumber'' = Some (JInt (sint (ti_tid ti)))" "member ?j ''priority'' = Some (JInt (sint (ti_priority ti)))"
    "member ?j ''threadId'' = Some (JStr (ti_thread_name ti))" "member ?j ''state'' = Some (JStr (ti_thread_state ti))"
    "member ?j ''crashed'' = Some (JBool (ti_crashed ti))"
    "member ?j ''stack'' = Some (JArr (map (frame_json b) (callstack_frames b sy (ti_backtrace_state ti))))"
    by (simp_all add: thread_members_def stack_json_def)
  then show ?thesis
    using assms by (simp add: thread_json_def thread_fromJson_def managed_thread_def stackTraceFromJson_def
        optJSONArray optString optInt optLong optBoolean fits_int_long frame_read list_all_iff)
qed

lemma threads_read:
  assumes "list_all (wf_report_thread b sy) ts"
    and "list_all (\<lambda>ti. list_all (long_frame b) (callstack_frames b sy (ti_backtrace_state ti))) ts"
  shows "allThreads lib (map (thread_json b sy) ts) = Some (map (managed_thread b sy) ts)"
  using assms
proof (induction ts)
  case (Cons ti ts)
  then have "jl_parse lib (jl_toString lib (thread_json b sy ti)) = Some (thread_json b sy ti)"
    using parse_toString [of "thread_members b sy ti"] clean_thread_json [of b sy ti]
      long_thread_json [of b sy ti] distinct_thread_json [of b sy ti]
    by (simp add: thread_json_def del: clean_json.simps long_json.simps distinct_names.simps)
  then show ?case using Cons thread_read by simp
qed simp

lemma exception_read:
  assumes "long_address b (si_addr si)" "member j ''exception'' = Some (JObj (exception_members b si))"
  shows "exception_message lib j d = signal_message b si"
proof -
  let ?e = "JObj (exception_members b si)" and ?i = "JObj (signal_info_members b si)"
  have e: "member ?e ''name'' = Some (JStr ''Native exception'')"
    "member ?e ''cause'' = Some (JStr (get_signal_description (sint (si_signo si)) (sint (si_code si))))"
    "member ?e ''signalInfo'' = Some ?i"
    by (simp_all add: exception_members_def)
  have i: "member ?i ''signalName'' = Some (JStr (get_signal_description (sint (si_signo si)) (- 1)))"
    "member ?i ''signalCode'' = Some (JInt (sint (si_code si)))"
    "member ?i ''faultAddress'' = Some (JInt (int (unsigned_arg (abi_bits b) (si_addr si))))"
    by (simp_all add: signal_info_members_def word_json_def)
  show ?thesis
    by (simp add: exception_message_def getJSONObject [OF assms(2)] getString [OF e(1)] optString [OF e(2)]
        getJSONObject [OF e(3)] getString [OF i(1)] getInt [OF i(2)] getLong [OF i(3) fits_long_address [OF assms(1)]]
        signal_message_def Let_def)
qed

lemma report_read:
  assumes "wf_report b fs sy nc bt" "long_report b sy bt si"
  shows "transformNativeStackTrace lib (show_json DQ (report_json b fs sy nc bt mc si)) = Some (managed_trace b sy bt si)"
proof -
  let ?bt = "JObj (report_members b fs sy nc bt mc si)"
  have "jl_parse lib (show_json DQ (report_json b fs sy nc bt mc si)) = Some (report_json b fs sy nc bt mc si)"
    using parse_text clean_report_json [OF assms(1), of mc si] long_report_json [OF assms(2), of fs nc mc]
    by (simp add: report_json_def del: clean_json.simps long_json.simps show_json.simps)
  moreover have "jl_getJSONObject lib (report_json b fs sy nc bt mc si) ''backtrace'' = Some ?bt"
    by (intro getJSONObject) (simp add: report_json_def)
  moreover have "jl_getJSONArray lib ?bt ''threads'' = Some (map (thread_json b sy) (bt_threads bt))"
    by (intro getJSONArray) (simp add: report_members_def threads_json_def)
  moreover have "allThreads lib (map (thread_json b sy) (bt_threads bt)) = Some (map (managed_thread b sy) (bt_threads bt))"
    using assms by (intro threads_read) (simp_all add: wf_report_def long_report_def)
  moreover have "exception_message lib ?bt d = signal_message b si" for d
    using assms(2) by (intro exception_read) (simp_all add: long_report_def report_members_def)
  moreover have "find nt_crashed (map (managed_thread b sy) ts) = map_option (managed_thread b sy) (find ti_crashed ts)" for ts
    by (induction ts) (simp_all add: managed_thread_def)
  ultimately show ?thesis
    by (simp add: transformNativeStackTrace_def managed_trace_def)
qed

end

section \<open>A library with the laws\<close>

text \<open>The laws can be met: a library over the parser of \<open>Json_Spec\<close>.\<close>

definition reference_lib :: json_lib where
  "reference_lib =
     \<lparr>jl_parse = (\<lambda>s. case parse_json s of Some (JObj ms) \<Rightarrow> Some (JObj ms) | _ \<Rightarrow> None),
      jl_toString = show_json DQ,
      jl_getJSONObject = (\<lambda>j k. case member j k of Some (JObj ms) \<Rightarrow> Some (JObj ms) | _ \<Rightarrow> None),
      jl_getJSONArray = (\<lambda>j k. case member j k of Some (JArr js) \<Rightarrow> Some js | _ \<Rightarrow> None),
      jl_getString = (\<lambda>j k. case member j k of Some (JStr s) \<Rightarrow> Some s | _ \<Rightarrow> None),
      jl_getInt = (\<lambda>j k. case member j k of Some (JInt i) \<Rightarrow> Some i | _ \<Rightarrow> None),
      jl_getLong = (\<lambda>j k. case member j k of Some (JInt i) \<Rightarrow> Some i | _ \<Rightarrow> None),
      jl_optString = (\<lambda>j k d. case member j k of Some (JStr s) \<Rightarrow> s | _ \<Rightarrow> d),
      jl_optInt = (\<lambda>j k d. case member j k of Some (JInt i) \<Rightarrow> i | _ \<Rightarrow> d),
      jl_optLong = (\<lambda>j k d. case member j k of Some (JInt i) \<Rightarrow> i | _ \<Rightarrow> d),
      jl_optBoolean = (\<lambda>j k d. case member j k of Some (JBool v) \<Rightarrow> v | _ \<Rightarrow> d),
      jl_optJSONArray = (\<lambda>j k. case member j k of Some (JArr js) \<Rightarrow> Some js | _ \<Rightarrow> None),
      jl_message = (\<lambda>_ k. ''No value for '' @ k)\<rparr>"

interpretation reference: org_json reference_lib
  by unfold_locales (simp_all add: reference_lib_def parse_json_show del: clean_json.simps show_json.simps)

section \<open>Properties\<close>

text \<open>
  C11. The managed side reads what the native side wrote. For a report that is well formed (its
  strings, which include the symbols, need no escape and fit their arrays), that was collected with
  a siginfo and a register context, and whose addresses fit a signed \<open>long\<close>, \<open>NativeStackTrace\<close> of the
  emitted text holds every collected thread in order, with its name, state, priority, crashed flag
  and one stack element per resolved frame, the crashed thread, and a message with the signal's
  name, code, description and fault address. A report with a quoted symbol is no JSON and is not
  read (\<open>quoted_symbol_breaks_frame\<close>).
\<close>

theorem managed_reads_report:
  assumes "org_json lib" "wf_report b fs sy nc bt" "long_report b sy bt si"
    and "bs_sa_ucontext (bt_state bt) = Some mc" "bs_siginfo (bt_state bt) = Some si"
  shows "transformNativeStackTrace lib (emit_backtrace b fs sy nc bt) = Some
    \<lparr>ns_crashedThread = map_option (managed_thread b sy) (find ti_crashed (bt_threads bt)),
     ns_threads = map (managed_thread b sy) (bt_threads bt),
     ns_exceptionMessage = signal_message b si\<rparr>"
  using org_json.report_read [OF assms(1-3)] emit_backtrace_text [OF assms(2,4,5)] by (simp add: managed_trace_def)

theorem managed_reads_report_witness:
  "\<exists>tr. transformNativeStackTrace reference_lib
      (emit_backtrace arm64_build sample_files no_symbols zero_native_context sample_backtrace) = Some tr \<and>
    map nt_threadName (ns_threads tr) = [''main''] \<and>
    ns_exceptionMessage tr = signal_message arm64_build \<lparr>si_signo = 11, si_code = 1, si_addr = 0\<rparr>"
proof -
  have "long_report arm64_build no_symbols sample_backtrace \<lparr>si_signo = 11, si_code = 1, si_addr = 0\<rparr>"
    by (simp add: long_report_def sample_backtrace_def callstack_frames_def zero_threadinfo_def long_address_def unsigned_arg_def)
  from managed_reads_report [OF reference.org_json_axioms sample_report this, of zero_mcontext]
  show ?thesis by (simp add: sample_backtrace_def managed_thread_def)
qed

end
