(* ===== verification/Report_Flush.thy ===== *)
theory Report_Flush
  imports Serializer
begin

text \<open>
  \<open>AgentNDK.kt\<close>, the other end of \<open>serializer.cpp\<close>: at a later start of the application the managed
  agent goes through the report directory, hands every report to the listener's callback for its
  kind, deletes what the listener took, and marks what is too old. The disk is the one the
  native side wrote; the listener, the file system's answers and the clock are parameters.
  Kotlin reads the bytes as UTF-8; the texts the native side writes are ASCII.
\<close>

section \<open>Environment and state\<close>

datatype callback = OnNativeCrash string | OnNativeException string | OnApplicationNotResponding string

text \<open>
  What the flush meets. The listener answers a call by what it was called with so far: consumed
  or not, or it throws (\<open>None\<close>). The listing is \<open>None\<close> when the directory is missing or cannot
  be read or listed. Times are in milliseconds, the expiration period is in seconds.
\<close>

record flush_env =
  fe_listing :: "string list option"
  fe_listener :: "(callback list \<Rightarrow> bool option) option"
  fe_readable :: "string \<Rightarrow> bool"
  fe_deletable :: "string \<Rightarrow> bool"
  fe_lastModified :: "string \<Rightarrow> int"
  fe_currentTimeMillis :: int
  fe_expirationPeriod :: int

record flush_state =
  fl_files :: files
  fl_calls :: "callback list"
  fl_deleteOnExit :: "string list"

section \<open>Posting a report\<close>

definition to_lower :: "char \<Rightarrow> char" where
  "to_lower c = (if 65 \<le> ord_of c \<and> ord_of c \<le> 90 then char_of (of_char c + (32 :: nat)) else c)"

text \<open>\<open>startsWith(prefix, true)\<close>, on ASCII.\<close>

definition startsWith_ignoreCase :: "string \<Rightarrow> string \<Rightarrow> bool" where
  "startsWith_ignoreCase name prefix \<longleftrightarrow>
     map to_lower (take (length prefix) name) = map to_lower prefix"

definition callback_of :: "string \<Rightarrow> string \<Rightarrow> callback option" where
  "callback_of name content =
     (if startsWith_ignoreCase name ''crash-'' then Some (OnNativeCrash content)
      else if startsWith_ignoreCase name ''ex-'' then Some (OnNativeException content)
      else if startsWith_ignoreCase name ''anr-'' then Some (OnApplicationNotResponding content)
      else None)"

definition in_dir :: "string \<Rightarrow> string \<Rightarrow> string" where
  "in_dir dir name = dir @ ''/'' @ name"

lemma in_dir_inject [simp]: "in_dir dir m = in_dir dir n \<longleftrightarrow> m = n"
  by (simp add: in_dir_def)

text \<open>The result is the returned flag, or \<open>None\<close> for an exception of \<open>readText\<close> or the listener.\<close>

definition postReport :: "flush_env \<Rightarrow> string \<Rightarrow> string \<Rightarrow> flush_state \<Rightarrow> bool option \<times> flush_state" where
  "postReport env dir report st =
     (let path = in_dir dir report
      in case fl_files st path of
           None \<Rightarrow> (Some False, st)
         | Some content \<Rightarrow>
             (case fe_listener env of
                None \<Rightarrow> (Some False, st)
              | Some listener \<Rightarrow>
                  (case callback_of report content of
                     None \<Rightarrow> (Some False, st)
                   | Some c \<Rightarrow>
                       if \<not> fe_readable env path then (None, st)
                       else (let st = st\<lparr>fl_calls := fl_calls st @ [c]\<rparr>
                             in case listener (fl_calls st) of
                                  None \<Rightarrow> (None, st)
                                | Some consumed \<Rightarrow>
                                    (let st = (if consumed \<and> fe_deletable env path
                                               then st\<lparr>fl_files := (fl_files st)(path := None)\<rparr> else st)
                                     in (Some (fl_files st path = None), st))))))"

definition expire :: "flush_env \<Rightarrow> string \<Rightarrow> flush_state \<Rightarrow> flush_state" where
  "expire env path st =
     (let expirationTimeMs = fe_currentTimeMillis env - fe_expirationPeriod env * 1000
      in if fl_files st path \<noteq> None \<and> fe_lastModified env path < expirationTimeMs
         then st\<lparr>fl_deleteOnExit := fl_deleteOnExit st @ [path]\<rparr> else st)"

fun flush_reports :: "flush_env \<Rightarrow> string \<Rightarrow> string list \<Rightarrow> flush_state \<Rightarrow> flush_state" where
  "flush_reports env dir [] st = st"
| "flush_reports env dir (report # reports) st =
     (case postReport env dir report st of
        (Some True, st) \<Rightarrow> flush_reports env dir reports st
      | (_, st) \<Rightarrow> flush_reports env dir reports (expire env (in_dir dir report) st))"

definition flushPendingReports :: "flush_env \<Rightarrow> string option \<Rightarrow> flush_state \<Rightarrow> flush_state" where
  "flushPendingReports env reportsDir st =
     (case reportsDir of
        None \<Rightarrow> st
      | Some dir \<Rightarrow>
          (case fe_listing env of None \<Rightarrow> st | Some reports \<Rightarrow> flush_reports env dir reports st))"

section \<open>One report\<close>

text \<open>The call a report leads to, if any.\<close>

definition posted :: "flush_env \<Rightarrow> string \<Rightarrow> files \<Rightarrow> string \<Rightarrow> callback option" where
  "posted env dir fs report =
     (case fs (in_dir dir report) of
        None \<Rightarrow> None
      | Some content \<Rightarrow> if fe_readable env (in_dir dir report) then callback_of report content else None)"

text \<open>Whether the report is deleted: the listener took it, and the file could be deleted.\<close>

definition taken :: "flush_env \<Rightarrow> (callback list \<Rightarrow> bool option) \<Rightarrow> string \<Rightarrow> files \<Rightarrow> callback list \<Rightarrow> string \<Rightarrow> bool" where
  "taken env listener dir fs calls report \<longleftrightarrow>
     (\<exists>c. posted env dir fs report = Some c \<and> listener (calls @ [c]) = Some True \<and> fe_deletable env (in_dir dir report))"

lemma postReport_calls:
  "fe_listener env = Some listener \<Longrightarrow>
   fl_calls (snd (postReport env dir report st)) =
     fl_calls st @ (case posted env dir (fl_files st) report of None \<Rightarrow> [] | Some c \<Rightarrow> [c])"
  by (auto simp: postReport_def posted_def Let_def split: option.splits)

lemma postReport_files:
  "fe_listener env = Some listener \<Longrightarrow>
   fl_files (snd (postReport env dir report st)) =
     (if taken env listener dir (fl_files st) (fl_calls st) report
      then (fl_files st)(in_dir dir report := None) else fl_files st)"
  by (auto simp: postReport_def posted_def taken_def Let_def split: option.splits if_splits)

lemma expire_frame [simp]:
  "fl_files (expire env path st) = fl_files st" "fl_calls (expire env path st) = fl_calls st"
  by (simp_all add: expire_def Let_def)

text \<open>A step of the loop, whatever \<open>postReport\<close> returned.\<close>

lemma flush_reports_step:
  "\<exists>st'. flush_reports env dir (report # reports) st = flush_reports env dir reports st' \<and>
     fl_files st' = fl_files (snd (postReport env dir report st)) \<and>
     fl_calls st' = fl_calls (snd (postReport env dir report st))"
proof -
  obtain r st1 where "postReport env dir report st = (r, st1)" by fastforce
  then show ?thesis
    by (cases r; cases "the r"; fastforce)
qed

section \<open>All reports\<close>

definition calls_of :: "flush_env \<Rightarrow> string \<Rightarrow> files \<Rightarrow> string list \<Rightarrow> callback list" where
  "calls_of env dir fs reports = List.map_filter (posted env dir fs) reports"

lemma calls_of_Cons:
  "calls_of env dir fs (r # rs) = (case posted env dir fs r of None \<Rightarrow> [] | Some c \<Rightarrow> [c]) @ calls_of env dir fs rs"
  by (simp add: calls_of_def map_filter_simps split: option.split)

lemma calls_of_append: "calls_of env dir fs (rs @ rs') = calls_of env dir fs rs @ calls_of env dir fs rs'"
  by (simp add: calls_of_def List.map_filter_def)

lemma length_calls_of: "length (calls_of env dir fs rs) \<le> length rs"
  by (simp add: calls_of_def List.map_filter_def)

lemma calls_of_cong:
  "(\<And>r. r \<in> set rs \<Longrightarrow> fs (in_dir dir r) = fs' (in_dir dir r)) \<Longrightarrow> calls_of env dir fs rs = calls_of env dir fs' rs"
proof (induction rs)
  case (Cons r rs)
  then have "posted env dir fs r = posted env dir fs' r" by (simp add: posted_def)
  then show ?case using Cons by (simp add: calls_of_Cons)
qed (simp add: calls_of_def map_filter_simps)

lemma flush_calls:
  assumes "fe_listener env = Some listener" "distinct reports"
  shows "fl_calls (flush_reports env dir reports st) = fl_calls st @ calls_of env dir (fl_files st) reports"
  using assms(2)
proof (induction reports arbitrary: st)
  case (Cons r rs)
  obtain st' where st': "flush_reports env dir (r # rs) st = flush_reports env dir rs st'"
    "fl_files st' = fl_files (snd (postReport env dir r st))" "fl_calls st' = fl_calls (snd (postReport env dir r st))"
    using flush_reports_step by blast
  have "calls_of env dir (fl_files st') rs = calls_of env dir (fl_files st) rs"
    using Cons.prems st'(2) by (intro calls_of_cong) (auto simp: postReport_files [OF assms(1)])
  then show ?case
    using Cons st'(3) by (simp add: st'(1) postReport_calls [OF assms(1)] calls_of_Cons del: flush_reports.simps)
qed (simp add: calls_of_def map_filter_simps)

lemma flush_files_other:
  assumes "fe_listener env = Some listener" "\<And>r. r \<in> set reports \<Longrightarrow> p \<noteq> in_dir dir r"
  shows "fl_files (flush_reports env dir reports st) p = fl_files st p"
  using assms(2)
proof (induction reports arbitrary: st)
  case (Cons r rs)
  obtain st' where st': "flush_reports env dir (r # rs) st = flush_reports env dir rs st'"
    "fl_files st' = fl_files (snd (postReport env dir r st))"
    using flush_reports_step by blast
  then show ?case using Cons by (simp add: postReport_files [OF assms(1)])
qed simp

lemma flush_files_report:
  assumes "fe_listener env = Some listener" "distinct reports" "reports = rs @ r # rs'"
  shows "fl_files (flush_reports env dir reports st) (in_dir dir r) =
    (if taken env listener dir (fl_files st) (fl_calls st @ calls_of env dir (fl_files st) rs) r
     then None else fl_files st (in_dir dir r))"
  using assms(2,3)
proof (induction rs arbitrary: reports st)
  case Nil
  obtain st' where st': "flush_reports env dir reports st = flush_reports env dir rs' st'"
    "fl_files st' = fl_files (snd (postReport env dir r st))"
    using flush_reports_step Nil(2) by (metis append_Nil)
  have "fl_files (flush_reports env dir rs' st') (in_dir dir r) = fl_files st' (in_dir dir r)"
    using Nil by (intro flush_files_other [OF assms(1)]) auto
  then show ?case
    by (simp add: st' postReport_files [OF assms(1)] calls_of_def map_filter_simps)
next
  case (Cons q rs)
  obtain st' where st': "flush_reports env dir reports st = flush_reports env dir (rs @ r # rs') st'"
    "fl_files st' = fl_files (snd (postReport env dir q st))" "fl_calls st' = fl_calls (snd (postReport env dir q st))"
    using flush_reports_step Cons.prems(2) by (metis append_Cons)
  have same: "fl_files st' (in_dir dir x) = fl_files st (in_dir dir x)" if "x \<in> set (rs @ r # rs')" for x
    using Cons.prems that st'(2) by (auto simp: postReport_files [OF assms(1)])
  then have "calls_of env dir (fl_files st') rs = calls_of env dir (fl_files st) rs"
    by (intro calls_of_cong) simp
  moreover have "taken env listener dir (fl_files st') cs r = taken env listener dir (fl_files st) cs r" for cs
    using same [of r] by (simp add: taken_def posted_def)
  ultimately show ?case
    using Cons.IH [of "rs @ r # rs'" st'] Cons.prems same [of r] unfolding st'(1)
    by (simp add: st'(3) postReport_calls [OF assms(1)] calls_of_Cons del: flush_reports.simps)
qed

section \<open>Names\<close>

definition report_name :: "wall_clock \<Rightarrow> string \<Rightarrow> string" where
  "report_name t prefix = prefix @ put_time t @ zero_fill 3 (tm_ms t)"

lemma report_path_in_dir:
  "NUL \<notin> set (nc_reportPathAbsolute nc) \<Longrightarrow> p \<in> set report_prefixes \<Longrightarrow>
   report_path nc t p = in_dir (nc_reportPathAbsolute nc) (report_name t p)"
  by (simp add: report_path_eq generateTmpFilename_def in_dir_def report_name_def)

lemma startsWith_report_name [simp]:
  "startsWith_ignoreCase (report_name t p) p"
  by (simp add: startsWith_ignoreCase_def report_name_def)

lemma callback_of_report:
  "callback_of (report_name t ''crash-'') s = Some (OnNativeCrash s)"
  "callback_of (report_name t ''ex-'') s = Some (OnNativeException s)"
  "callback_of (report_name t ''anr-'') s = Some (OnApplicationNotResponding s)"
proof -
  show "callback_of (report_name t ''crash-'') s = Some (OnNativeCrash s)"
    by (simp add: callback_of_def)
  have "\<not> startsWith_ignoreCase (report_name t ''ex-'') ''crash-''"
    "\<not> startsWith_ignoreCase (report_name t ''anr-'') ''crash-''" "\<not> startsWith_ignoreCase (report_name t ''anr-'') ''ex-''"
    by (simp_all add: startsWith_ignoreCase_def report_name_def to_lower_def)
  then show "callback_of (report_name t ''ex-'') s = Some (OnNativeException s)"
    "callback_of (report_name t ''anr-'') s = Some (OnApplicationNotResponding s)"
    by (simp_all add: callback_of_def)
qed

section \<open>Properties\<close>

text \<open>
  C12. A flush calls the listener once for every report that is there and readable, in the order
  of the listing, with the report's content and the callback of its prefix, whatever the
  listener does: a report it refuses or throws on does not keep the later ones from it.
\<close>

theorem flush_posts_every_report:
  assumes "fe_listener env = Some listener" "fe_listing env = Some reports" "distinct reports"
  shows "fl_calls (flushPendingReports env (Some dir) st) = fl_calls st @ List.map_filter
    (\<lambda>r. case fl_files st (in_dir dir r) of
           None \<Rightarrow> None
         | Some content \<Rightarrow> if fe_readable env (in_dir dir r) then callback_of r content else None) reports"
  using flush_calls [OF assms(1,3), of dir st] assms(2)
  by (simp add: flushPendingReports_def calls_of_def posted_def [abs_def])

text \<open>
  C13. No report is lost: a file is gone after a flush only if it is a listed, readable and
  deletable report, and the listener, called with its content, answered that it took it. Every
  other file keeps its content; in particular without a listener nothing changes.
\<close>

theorem flush_loses_nothing:
  assumes "fe_listing env = Some reports" "distinct reports"
    and "fl_files (flushPendingReports env (Some dir) st) p \<noteq> fl_files st p"
  shows "fl_files (flushPendingReports env (Some dir) st) p = None \<and>
    (\<exists>r listener content c before. r \<in> set reports \<and> p = in_dir dir r \<and> fe_listener env = Some listener \<and>
       fl_files st p = Some content \<and> fe_readable env p \<and> fe_deletable env p \<and> callback_of r content = Some c \<and>
       listener (before @ [c]) = Some True \<and>
       (\<exists>after. fl_calls (flushPendingReports env (Some dir) st) = before @ [c] @ after))"
proof (cases "fe_listener env")
  case None
  have "fl_files (flush_reports env dir rs st') = fl_files st'" for rs st'
    by (induction rs arbitrary: st') (auto simp: postReport_def None Let_def split: option.split)
  then show ?thesis using assms(1,3) by (simp add: flushPendingReports_def)
next
  case (Some listener)
  have flush: "flushPendingReports env (Some dir) st = flush_reports env dir reports st"
    using assms(1) by (simp add: flushPendingReports_def)
  then obtain r where r: "r \<in> set reports" "p = in_dir dir r"
    using flush_files_other [OF Some] assms(3) by metis
  then obtain rs rs' where reports: "reports = rs @ r # rs'" by (meson split_list)
  let ?before = "fl_calls st @ calls_of env dir (fl_files st) rs"
  have "taken env listener dir (fl_files st) ?before r" "fl_files (flush_reports env dir reports st) p = None"
    using flush_files_report [OF Some assms(2) reports, of dir st] assms(3) r(2)
    unfolding flush by (auto split: if_splits)
  moreover have "fl_calls (flush_reports env dir reports st) =
      ?before @ (case posted env dir (fl_files st) r of None \<Rightarrow> [] | Some c \<Rightarrow> [c]) @ calls_of env dir (fl_files st) rs'"
    using flush_calls [OF Some assms(2), of dir st]
    by (simp add: reports calls_of_def map_filter_simps List.map_filter_def split: option.split)
  moreover obtain content c where "fl_files st p = Some content" "fe_readable env p" "callback_of r content = Some c"
    "posted env dir (fl_files st) r = Some c"
    using calculation(1) r(2) by (auto simp: taken_def posted_def split: option.splits if_splits)
  moreover from this calculation(1) have "listener (?before @ [c]) = Some True" "fe_deletable env p"
    using r(2) by (auto simp: taken_def)
  moreover have "\<exists>after. fl_calls (flush_reports env dir reports st) = ?before @ [c] @ after"
    using calculation(3,7) by simp
  ultimately show ?thesis
    using r Some unfolding flush by blast
qed

text \<open>A directory with a crash report, an ANR report, an old report nobody takes and a foreign file, and a
  listener that throws on exceptions and takes everything else.\<close>

definition sample_reports :: flush_state where
  "sample_reports = \<lparr>fl_files = [''d/crash-1'' \<mapsto> ''c'', ''d/ex-2'' \<mapsto> ''e'', ''d/ANR-3'' \<mapsto> ''a'', ''d/notes'' \<mapsto> ''n''],
     fl_calls = [], fl_deleteOnExit = []\<rparr>"

definition sample_env :: flush_env where
  "sample_env = \<lparr>fe_listing = Some [''ex-2'', ''crash-1'', ''notes'', ''ANR-3''],
     fe_listener = Some (\<lambda>calls. case last calls of OnNativeException _ \<Rightarrow> None | _ \<Rightarrow> Some True),
     fe_readable = (\<lambda>_. True), fe_deletable = (\<lambda>_. True), fe_lastModified = (\<lambda>_. 0),
     fe_currentTimeMillis = 1000, fe_expirationPeriod = 0\<rparr>"

lemma sample_callbacks:
  "callback_of ''crash-1'' s = Some (OnNativeCrash s)" "callback_of ''ex-2'' s = Some (OnNativeException s)"
  "callback_of ''ANR-3'' s = Some (OnApplicationNotResponding s)" "callback_of ''notes'' s = None"
proof -
  have "startsWith_ignoreCase ''crash-1'' ''crash-''" "\<not> startsWith_ignoreCase ''ex-2'' ''crash-''"
    "startsWith_ignoreCase ''ex-2'' ''ex-''" "\<not> startsWith_ignoreCase ''ANR-3'' ''crash-''"
    "\<not> startsWith_ignoreCase ''ANR-3'' ''ex-''" "startsWith_ignoreCase ''ANR-3'' ''anr-''"
    "\<not> startsWith_ignoreCase ''notes'' ''crash-''" "\<not> startsWith_ignoreCase ''notes'' ''ex-''"
    "\<not> startsWith_ignoreCase ''notes'' ''anr-''"
    by code_simp+
  then show "callback_of ''crash-1'' s = Some (OnNativeCrash s)" "callback_of ''ex-2'' s = Some (OnNativeException s)"
    "callback_of ''ANR-3'' s = Some (OnApplicationNotResponding s)" "callback_of ''notes'' s = None"
    by (simp_all add: callback_of_def)
qed

theorem flush_posts_every_report_witness:
  "fl_calls (flushPendingReports sample_env (Some ''d'') sample_reports) =
    [OnNativeException ''e'', OnNativeCrash ''c'', OnApplicationNotResponding ''a'']"
  using flush_posts_every_report [of sample_env _ "[''ex-2'', ''crash-1'', ''notes'', ''ANR-3'']" "''d''" sample_reports]
  by (simp add: sample_env_def sample_reports_def map_filter_simps in_dir_def sample_callbacks)

theorem flush_loses_nothing_witness:
  "fl_files (flushPendingReports sample_env (Some ''d'') sample_reports) ''d/crash-1'' = None \<and>
   fl_files (flushPendingReports sample_env (Some ''d'') sample_reports) ''d/ex-2'' = Some ''e'' \<and>
   (\<exists>before after. fl_calls (flushPendingReports sample_env (Some ''d'') sample_reports) = before @ [OnNativeCrash ''c''] @ after)"
proof -
  have gone: "fl_files (flushPendingReports sample_env (Some ''d'') sample_reports) ''d/crash-1'' = None"
    "fl_files (flushPendingReports sample_env (Some ''d'') sample_reports) ''d/ex-2'' = Some ''e''"
    by (simp_all add: flushPendingReports_def sample_env_def sample_reports_def postReport_def in_dir_def
        sample_callbacks expire_def Let_def)
  then have "fl_files (flushPendingReports sample_env (Some ''d'') sample_reports) ''d/crash-1'' \<noteq> fl_files sample_reports ''d/crash-1''"
    by (simp add: sample_reports_def)
  from flush_loses_nothing [OF _ _ this, of "[''ex-2'', ''crash-1'', ''notes'', ''ANR-3'']"] gone
  show ?thesis by (auto simp: sample_env_def sample_reports_def in_dir_def sample_callbacks)
qed

end
