(* ===== verification/Agent_System.thy ===== *)
theory Agent_System
  imports Agent_Entry
begin

text \<open>
  The agent in its process: the entry points of \<open>agent-ndk.cpp\<close>, the installer thread, the
  intercepted signals, the watchdog and what the application does with its own handlers, in any
  order. Each step of the agent is a run of steps of its components, so that what holds in every
  interleaving of a component holds in every state of the agent.
\<close>

section \<open>Steps of the process\<close>

text \<open>Library calls that go well enough: an alternate stack for every start, mutexes that unlock,
  a semaphore, and signal actions that can be set. Threads need not be created.\<close>

definition good_outcomes :: "sh_outcomes \<Rightarrow> bool" where
  "good_outcomes os \<longleftrightarrow> lock_safe os \<and> sigactions_work os"

definition good_calls :: "start_calls \<Rightarrow> bool" where
  "good_calls sc \<longleftrightarrow> good_outcomes (sc_sh sc) \<and> sc_anr_sem sc \<and> sc_th_unlock sc"

text \<open>
  The runs considered, called orderly in the properties: an entry point runs to its end before
  another step (the cut versions are \<open>advance\<close> and \<open>anr_step\<close>), so no two threads meet at a mutex;
  the library calls go as in \<open>good_calls\<close>; the ANR handler is not started while its watchdog runs
  (\<open>Anr_Race.second_start_hangs_stop\<close> shows what such a start can do); and the application
  sets neither the agent's signal interceptor nor its terminate handler itself. A handler reports
  with the native context of the moment.
\<close>

inductive agent_step :: "build \<Rightarrow> filesystem \<Rightarrow> cint \<Rightarrow> agent \<Rightarrow> agent \<Rightarrow> bool" for b fs pid where
  Start: "good_calls sc \<Longrightarrow> nativeStart b vm fs pid sc env mc ag = Returns (r, ag') \<Longrightarrow>
    an_watchdog (ag_anr ag) = W_none \<or> \<not> nc_anrMonitorEnabled (ag_native ag') \<Longrightarrow> agent_step b fs pid ag ag'"
| Stop: "good_calls sc \<Longrightarrow> nativeStop sc True ag = Returns ag' \<Longrightarrow> agent_step b fs pid ag ag'"
| Set_context: "nativeSetContext b vm env mc ag = Returns ag' \<Longrightarrow> agent_step b fs pid ag ag'"
| Installer: "good_outcomes os \<Longrightarrow> sh_pending (ag_sh ag) = Suc m \<Longrightarrow>
    agent_step b fs pid ag (ag\<lparr>ag_sh := install_signal_observers os ((ag_sh ag)\<lparr>sh_pending := m\<rparr>)\<rparr>)"
| Signal: "good_outcomes os \<Longrightarrow> sa_handler (k_disp (sh_kernel (ag_sh ag)) signo) = Interceptor \<Longrightarrow>
    w_native w = ag_native ag \<Longrightarrow> interceptor b w t d os signo (Some si) uc (ag_sh ag) = Returns sh \<Longrightarrow>
    agent_step b fs pid ag (ag\<lparr>ag_sh := sh\<rparr>)"
| Quit: "an_disp (ag_anr ag) = Anr_Interceptor \<Longrightarrow> w_native w = ag_native ag \<Longrightarrow>
    agent_step b fs pid ag (ag\<lparr>ag_anr := anr_interceptor b w t d True si uc (ag_anr ag)\<rparr>)"
| Watchdog: "watchdog_step waited (ag_anr ag) = Some an \<Longrightarrow> agent_step b fs pid ag (ag\<lparr>ag_anr := an\<rparr>)"
| Application_signal: "sa_handler act \<noteq> Interceptor \<Longrightarrow>
    agent_step b fs pid ag (ag\<lparr>ag_sh := (ag_sh ag)\<lparr>sh_kernel := (sh_kernel (ag_sh ag))
      \<lparr>k_disp := (k_disp (sh_kernel (ag_sh ag)))(signo := act)\<rparr>\<rparr>\<rparr>)"
| Application_terminate: "h \<noteq> Some Term_agent \<Longrightarrow>
    agent_step b fs pid ag (ag\<lparr>ag_th := snd (set_terminate h (ag_th ag))\<rparr>)"

text \<open>A loaded library, in an application that may have handlers and heap blocks of its own.\<close>

definition agent_loaded :: "cint \<Rightarrow> agent \<Rightarrow> bool" where
  "agent_loaded pid ag \<longleftrightarrow>
     (\<exists>k fs. (\<forall>n. sa_handler (k_disp k n) \<noteq> Interceptor) \<and> heap_wf (k_heap k) (k_fresh k) \<and> ag_sh ag = loaded k fs) \<and>
     (\<exists>h fs. ag_anr ag = anr_loaded pid h fs) \<and> (\<exists>h u fs. ag_th ag = th_loaded h u fs)"

definition agent_reachable :: "build \<Rightarrow> filesystem \<Rightarrow> cint \<Rightarrow> agent \<Rightarrow> bool" where
  "agent_reachable b fs pid ag \<longleftrightarrow> (\<exists>ag0. agent_loaded pid ag0 \<and> (agent_step b fs pid)\<^sup>*\<^sup>* ag0 ag)"

text \<open>The runs without a stop.\<close>

definition never_stopped :: "build \<Rightarrow> filesystem \<Rightarrow> cint \<Rightarrow> agent \<Rightarrow> bool" where
  "never_stopped b fs pid ag \<longleftrightarrow> (\<exists>ag0. agent_loaded pid ag0 \<and>
     (\<lambda>a a'. agent_step b fs pid a a' \<and> (\<forall>sc. nativeStop sc True a \<noteq> Returns a'))\<^sup>*\<^sup>* ag0 ag)"

section \<open>A step is a run of the components\<close>

lemma watchdog_run_steps: "(anr_step b fs pid sems)\<^sup>*\<^sup>* st (run_watchdog n st)"
proof (induction n arbitrary: st)
  case (Suc n)
  show ?case
  proof (cases "watchdog_step True st")
    case (Some st')
    then have "anr_step b fs pid sems st st'" by (rule anr_step.Watchdog)
    with Suc [of st'] Some show ?thesis by (simp add: converse_rtranclp_into_rtranclp)
  qed simp
qed simp

lemma anr_initialize_steps:
  assumes "anr_handler_initialize b fs pid created True installed st = Returns (r, st')"
    and "an_control st = Idle" "an_watchdog st = W_none"
  shows "(anr_step b fs pid True)\<^sup>*\<^sup>* st st' \<and> an_control st' = Idle"
proof -
  obtain s0 where s0: "init_begin b fs pid created st = Returns s0"
    and st': "st' = (if created then init_enable (init_alloc (init_install installed (init_sem True s0))) else s0)"
    using assms(1) by (cases created) (auto simp: anr_handler_initialize_def bind_Returns Let_def)
  have first: "anr_step b fs pid True st s0" using assms(2,3) s0 by (rule anr_step.Begin)
  have control: "an_control s0 = (if created then I_sem_init else Idle)"
    using init_begin_Returns [OF s0] assms(2) by auto
  show ?thesis
  proof (cases created)
    case False
    with st' first control show ?thesis by auto
  next
    case True
    let ?s1 = "init_sem True s0" and ?s2 = "init_install installed (init_sem True s0)"
    let ?s3 = "init_alloc (init_install installed (init_sem True s0))"
    have "an_control s0 = I_sem_init" using True control by simp
    then have s1: "anr_step b fs pid True s0 ?s1" by (rule anr_step.Sem_init) simp
    have s2: "anr_step b fs pid True ?s1 ?s2"
      by (rule anr_step.Install) (simp add: init_sem_def Let_def)
    have s3: "anr_step b fs pid True ?s2 ?s3"
      by (rule anr_step.Alloc) (simp add: init_install_def)
    have s4: "anr_step b fs pid True ?s3 (init_enable ?s3)"
      by (rule anr_step.Enable) (simp add: init_alloc_def)
    have "(anr_step b fs pid True)\<^sup>*\<^sup>* st (init_enable ?s3)"
      by (rule rtranclp.rtrancl_into_rtrancl [OF rtranclp.rtrancl_into_rtrancl [OF rtranclp.rtrancl_into_rtrancl
          [OF rtranclp.rtrancl_into_rtrancl [OF r_into_rtranclp [where r = "anr_step b fs pid True", OF first] s1] s2] s3] s4])
    with True st' show ?thesis by (simp add: init_enable_def)
  qed
qed

lemma anr_shutdown_steps:
  assumes "anr_handler_shutdown True st = Returns st'" "an_control st = Idle"
  shows "(anr_step b fs pid True)\<^sup>*\<^sup>* st st' \<and> an_control st' = Idle"
proof -
  let ?s1 = "shutdown_begin st"
  let ?s2 = "shutdown_post True ?s1"
  have "anr_step b fs pid True st ?s1" using assms(2) by (rule anr_step.Shutdown)
  moreover have "anr_step b fs pid True ?s1 ?s2"
    by (rule anr_step.Post) (simp_all add: shutdown_begin_def)
  ultimately have two: "(anr_step b fs pid True)\<^sup>*\<^sup>* st ?s2" by auto
  have "\<exists>s3. (anr_step b fs pid True)\<^sup>*\<^sup>* ?s2 s3 \<and> an_control s3 = S_close \<and> st' = shutdown_close s3"
  proof (cases "an_control ?s2 = S_join")
    case True
    then obtain s3 where s3: "shutdown_join (run_watchdog 5 ?s2) = Some s3" "st' = shutdown_close s3"
      using assms(1) by (auto simp: anr_handler_shutdown_def Let_def split: option.splits)
    have "an_control (run_watchdog n s) = an_control s" for n s
      by (induction n arbitrary: s) (auto dest: watchdog_step_frame(1) split: option.splits)
    then have "anr_step b fs pid True (run_watchdog 5 ?s2) s3" using True s3(1) by (intro anr_step.Join) simp_all
    moreover have "an_control s3 = S_close" using s3(1) by (auto simp: shutdown_join_def split: if_splits)
    ultimately show ?thesis
      using rtranclp.rtrancl_into_rtrancl [OF watchdog_run_steps] s3(2) by blast
  next
    case False
    then have "an_control ?s2 = S_close" "st' = shutdown_close ?s2"
      using assms(1) by (auto simp: anr_handler_shutdown_def shutdown_post_def Let_def split: if_splits)
    then show ?thesis by blast
  qed
  then obtain s3 where s3: "(anr_step b fs pid True)\<^sup>*\<^sup>* ?s2 s3" "an_control s3 = S_close" "st' = shutdown_close s3" by blast
  have "anr_step b fs pid True s3 st'" unfolding s3(3) using s3(2) by (rule anr_step.Close)
  moreover have "an_control st' = Idle" by (simp add: s3(3) shutdown_close_def reset_android_anr_handler_def)
  ultimately show ?thesis using two s3(1) by (meson rtranclp.rtrancl_into_rtrancl rtranclp_trans)
qed

section \<open>Invariants of the agent\<close>

text \<open>The terminate handler's mutex is free between its operations.\<close>

lemma terminate_unlocked:
  "terminate_handler_initialize u lock True th = Returns (r, th') \<Longrightarrow> \<not> th_locked th \<Longrightarrow> \<not> th_locked th'"
  "terminate_handler_shutdown u lock True th = Returns th' \<Longrightarrow> \<not> th_locked th \<Longrightarrow> \<not> th_locked th'"
  by (auto simp: terminate_handler_initialize_def terminate_handler_shutdown_def set_terminate_def set_unexpected_def
      Let_def split: if_splits)

text \<open>The stages of a start and of a stop that return.\<close>

lemma nativeStart_Returns:
  assumes "nativeStart b vm fs pid sc env mc ag = Returns (r, ag')"
  shows "\<exists>q. signal_handler_initialize (sc_sigstksz sc) (sc_sh sc) (ag_sh ag) = Returns (q, ag_sh ag')"
    and "if nc_anrMonitorEnabled (ag_native ag')
      then \<exists>q. anr_handler_initialize b fs pid (sc_anr_created sc) (sc_anr_sem sc) (sc_anr_installed sc) (ag_anr ag) = Returns (q, ag_anr ag')
      else ag_anr ag' = ag_anr ag"
    and "\<exists>q. terminate_handler_initialize (sc_unexpected sc) (sc_th_lock sc) (sc_th_unlock sc) (ag_th ag) = Returns (q, ag_th ag')"
proof -
  obtain nc js bound nc' js' where jni: "set_native_context b vm env mc (ag_native ag) (ag_jni ag) = Returns (nc, js)"
      "bind_delegate vm env nc js = Returns (bound, nc', js')"
    using assms by (auto simp: nativeStart_def bind_Returns)
  have parts: "(\<exists>q. signal_handler_initialize (sc_sigstksz sc) (sc_sh sc) (ag_sh ag) = Returns (q, ag_sh ag')) \<and>
    (if nc_anrMonitorEnabled (ag_native ag')
     then \<exists>q. anr_handler_initialize b fs pid (sc_anr_created sc) (sc_anr_sem sc) (sc_anr_installed sc) (ag_anr ag) = Returns (q, ag_anr ag')
     else ag_anr ag' = ag_anr ag) \<and>
    (\<exists>q. terminate_handler_initialize (sc_unexpected sc) (sc_th_lock sc) (sc_th_unlock sc) (ag_th ag) = Returns (q, ag_th ag'))"
    using assms by (cases "nc_anrMonitorEnabled nc'") (auto simp: nativeStart_def jni bind_Returns Let_def)
  then show "\<exists>q. signal_handler_initialize (sc_sigstksz sc) (sc_sh sc) (ag_sh ag) = Returns (q, ag_sh ag')"
    "if nc_anrMonitorEnabled (ag_native ag')
      then \<exists>q. anr_handler_initialize b fs pid (sc_anr_created sc) (sc_anr_sem sc) (sc_anr_installed sc) (ag_anr ag) = Returns (q, ag_anr ag')
      else ag_anr ag' = ag_anr ag"
    "\<exists>q. terminate_handler_initialize (sc_unexpected sc) (sc_th_lock sc) (sc_th_unlock sc) (ag_th ag) = Returns (q, ag_th ag')"
    by simp_all
qed

lemma nativeStop_Returns:
  assumes "nativeStop sc posted ag = Returns ag'"
  shows "signal_handler_shutdown (sc_sh sc) (ag_sh ag) = Returns (ag_sh ag') \<and>
    (if nc_anrMonitorEnabled (ag_native ag) then anr_handler_shutdown posted (ag_anr ag) = Returns (ag_anr ag')
     else ag_anr ag' = ag_anr ag) \<and>
    terminate_handler_shutdown (sc_unexpected sc) (sc_th_lock sc) (sc_th_unlock sc) (ag_th ag) = Returns (ag_th ag') \<and>
    ag_native ag' = ag_native ag \<and> ag_jni ag' = ag_jni ag"
  using assms by (cases "nc_anrMonitorEnabled (ag_native ag)") (auto simp: nativeStop_def bind_Returns)

lemma start_components:
  assumes "good_calls sc" "nativeStart b vm fs pid sc env mc ag = Returns (r, ag')"
    and "an_watchdog (ag_anr ag) = W_none \<or> \<not> nc_anrMonitorEnabled (ag_native ag')" "an_control (ag_anr ag) = Idle"
  shows "sh_step good_outcomes (ag_sh ag) (ag_sh ag')"
    and "(anr_step b fs pid True)\<^sup>*\<^sup>* (ag_anr ag) (ag_anr ag') \<and> an_control (ag_anr ag') = Idle"
proof -
  note parts = nativeStart_Returns [OF assms(2)]
  have "good_outcomes (sc_sh sc)" using assms(1) by (simp add: good_calls_def)
  then show "sh_step good_outcomes (ag_sh ag) (ag_sh ag')"
    using parts(1) sh_step.Start by blast
  show "(anr_step b fs pid True)\<^sup>*\<^sup>* (ag_anr ag) (ag_anr ag') \<and> an_control (ag_anr ag') = Idle"
  proof (cases "nc_anrMonitorEnabled (ag_native ag')")
    case True
    then obtain q where "anr_handler_initialize b fs pid (sc_anr_created sc) True (sc_anr_installed sc) (ag_anr ag) = Returns (q, ag_anr ag')"
      using parts(2) assms(1) by (auto simp: good_calls_def)
    then show ?thesis using anr_initialize_steps assms(3,4) True by blast
  next
    case False
    then show ?thesis using parts(2) assms(4) by auto
  qed
qed

lemma stop_components:
  assumes "good_calls sc" "nativeStop sc True ag = Returns ag'" "an_control (ag_anr ag) = Idle"
  shows "sh_step good_outcomes (ag_sh ag) (ag_sh ag')"
    and "(anr_step b fs pid True)\<^sup>*\<^sup>* (ag_anr ag) (ag_anr ag') \<and> an_control (ag_anr ag') = Idle"
proof -
  note parts = nativeStop_Returns [OF assms(2)]
  have "good_outcomes (sc_sh sc)" using assms(1) by (simp add: good_calls_def)
  then show "sh_step good_outcomes (ag_sh ag) (ag_sh ag')"
    using parts sh_step.Stop by blast
  show "(anr_step b fs pid True)\<^sup>*\<^sup>* (ag_anr ag) (ag_anr ag') \<and> an_control (ag_anr ag') = Idle"
    using parts assms(3) anr_shutdown_steps by (cases "nc_anrMonitorEnabled (ag_native ag)") auto
qed

text \<open>The control of the ANR handler rests between the steps of the agent, and its steps are the
  components'.\<close>

lemma agent_step_components:
  assumes "agent_step b fs pid ag ag'" "an_control (ag_anr ag) = Idle"
  shows "(sh_step good_outcomes)\<^sup>*\<^sup>* (ag_sh ag) (ag_sh ag') \<and>
    (anr_step b fs pid True)\<^sup>*\<^sup>* (ag_anr ag) (ag_anr ag') \<and> an_control (ag_anr ag') = Idle"
  using assms
proof (induction rule: agent_step.induct)
  case (Start sc vm env mc ag r ag')
  then show ?case using start_components [OF Start] by blast
next
  case (Stop sc ag ag')
  then show ?case using stop_components [OF Stop] by blast
next
  case (Set_context vm env mc ag ag')
  then show ?case by (auto simp: nativeSetContext_def bind_Returns)
next
  case (Installer os ag m)
  then have "sh_step good_outcomes (ag_sh ag) (install_signal_observers os ((ag_sh ag)\<lparr>sh_pending := m\<rparr>))"
    by (intro sh_step.Install)
  with Installer(3) show ?case by auto
next
  case (Signal os ag signo w t d si uc sh)
  then have "sh_step good_outcomes (ag_sh ag) sh" by (intro sh_step.Signal)
  with Signal(5) show ?case by auto
next
  case (Quit ag w t d si uc)
  then have "anr_step b fs pid True (ag_anr ag) (anr_interceptor b w t d True si uc (ag_anr ag))"
    by (intro anr_step.Quit) simp_all
  with Quit(3) show ?case by auto
next
  case (Watchdog waited ag an)
  then have "anr_step b fs pid True (ag_anr ag) an" by (intro anr_step.Watchdog)
  with Watchdog show ?case by (auto simp: watchdog_step_frame(1))
next
  case (Application_signal act ag signo)
  then have "sh_step good_outcomes (ag_sh ag) ((ag_sh ag)\<lparr>sh_kernel := (sh_kernel (ag_sh ag))
      \<lparr>k_disp := (k_disp (sh_kernel (ag_sh ag)))(signo := act)\<rparr>\<rparr>)" by (intro sh_step.Application)
  with Application_signal(2) show ?case by auto
next
  case (Application_terminate h ag)
  then show ?case by simp
qed

lemma agent_step_unlocked:
  assumes "agent_step b fs pid ag ag'" "\<not> th_locked (ag_th ag)"
  shows "\<not> th_locked (ag_th ag')"
  using assms
proof (induction rule: agent_step.induct)
  case (Start sc vm env mc ag r ag')
  then obtain q where "terminate_handler_initialize (sc_unexpected sc) (sc_th_lock sc) True (ag_th ag) = Returns (q, ag_th ag')"
    using nativeStart_Returns(3) [OF Start(2)] by (auto simp: good_calls_def)
  then show ?case using Start(4) by (rule terminate_unlocked(1))
next
  case (Stop sc ag ag')
  then have "terminate_handler_shutdown (sc_unexpected sc) (sc_th_lock sc) True (ag_th ag) = Returns (ag_th ag')"
    using nativeStop_Returns [OF Stop(2)] by (simp add: good_calls_def)
  then show ?case using Stop(3) by (rule terminate_unlocked(2))
qed (auto simp: nativeSetContext_def bind_Returns set_terminate_def)

text \<open>Until the first stop the ANR handler knows its process.\<close>

lemma anr_initialize_pid:
  assumes "anr_handler_initialize b fs pid created sem installed st = Returns (r, st')"
  shows "an_pid st' = an_pid st"
proof -
  obtain s0 where s0: "init_begin b fs pid created st = Returns s0"
    and st': "st' = (if created then init_enable (init_alloc (init_install installed (init_sem sem s0))) else s0)"
    using assms by (cases created) (auto simp: anr_handler_initialize_def bind_Returns Let_def)
  have "an_pid s0 = an_pid st" using init_begin_Returns [OF s0] by auto
  then show ?thesis by (simp add: st' anr_control_defs Let_def)
qed

lemma agent_step_pid:
  assumes "agent_step b fs pid ag ag'" "\<forall>sc. nativeStop sc True ag \<noteq> Returns ag'"
  shows "an_pid (ag_anr ag') = an_pid (ag_anr ag)"
  using assms
proof (induction rule: agent_step.induct)
  case (Start sc vm env mc ag r ag')
  then show ?case
    using nativeStart_Returns(2) [OF Start(2)] anr_initialize_pid by (metis (full_types))
next
  case (Stop sc ag ag')
  then show ?case by blast
qed (auto simp: nativeSetContext_def bind_Returns watchdog_step_frame(6))

lemma never_stopped_pid:
  assumes "never_stopped b fs pid ag"
  shows "an_pid (ag_anr ag) = pid"
proof -
  obtain ag0 where ag0: "agent_loaded pid ag0"
    and run: "(\<lambda>a a'. agent_step b fs pid a a' \<and> (\<forall>sc. nativeStop sc True a \<noteq> Returns a'))\<^sup>*\<^sup>* ag0 ag"
    using assms by (auto simp: never_stopped_def)
  from run show ?thesis
  proof (induction rule: rtranclp_induct)
    case base
    show ?case using ag0 by (auto simp: agent_loaded_def anr_loaded_def)
  next
    case (step ag1 ag2)
    then have "an_pid (ag_anr ag2) = an_pid (ag_anr ag1)" by (intro agent_step_pid) blast+
    with step(3) show ?case by simp
  qed
qed

lemma agent_reachable_components:
  assumes "agent_reachable b fs pid ag"
  shows "sh_reachable good_outcomes (ag_sh ag)" "anr_reachable b fs pid True (ag_anr ag)"
    "an_control (ag_anr ag) = Idle" "\<not> th_locked (ag_th ag)" "altstack_inv (ag_sh ag)"
proof -
  obtain ag0 where ag0: "agent_loaded pid ag0" "(agent_step b fs pid)\<^sup>*\<^sup>* ag0 ag"
    using assms by (auto simp: agent_reachable_def)
  have runs: "(sh_step good_outcomes)\<^sup>*\<^sup>* (ag_sh ag0) (ag_sh ag) \<and> (anr_step b fs pid True)\<^sup>*\<^sup>* (ag_anr ag0) (ag_anr ag) \<and>
      an_control (ag_anr ag) = Idle \<and> \<not> th_locked (ag_th ag)"
    using ag0(2)
  proof (induction rule: rtranclp_induct)
    case base
    show ?case using ag0(1) by (auto simp: agent_loaded_def anr_loaded_def th_loaded_def)
  next
    case (step ag1 ag2)
    then show ?case
      using agent_step_components [OF step(2)] agent_step_unlocked [OF step(2)] by (meson rtranclp_trans)
  qed
  moreover obtain k fs1 h fs2 where k: "\<forall>n. sa_handler (k_disp k n) \<noteq> Interceptor" "ag_sh ag0 = loaded k fs1"
    "ag_anr ag0 = anr_loaded pid h fs2" "heap_wf (k_heap k) (k_fresh k)"
    using ag0(1) by (auto simp: agent_loaded_def)
  moreover have "altstack_inv (loaded k fs1)" using k(4) by (simp add: altstack_inv_def loaded_def)
  then show "altstack_inv (ag_sh ag)" using altstack_inv_run runs k(2) by metis
  ultimately show "sh_reachable good_outcomes (ag_sh ag)" "anr_reachable b fs pid True (ag_anr ag)"
    "an_control (ag_anr ag) = Idle" "\<not> th_locked (ag_th ag)"
    unfolding sh_reachable_def anr_reachable_def by metis+
qed

text \<open>A restriction on the library calls may be weakened.\<close>

lemma sh_step_mono: "sh_step good st st' \<Longrightarrow> (\<And>os. good os \<Longrightarrow> good' os) \<Longrightarrow> sh_step good' st st'"
  by (induction rule: sh_step.induct) (auto intro: sh_step.intros)

lemma sh_reachable_mono:
  assumes "sh_reachable good st" "\<And>os. good os \<Longrightarrow> good' os"
  shows "sh_reachable good' st"
  using assms rtranclp_mono [of "sh_step good" "sh_step good'"] sh_step_mono [of good _ _ good']
  by (force simp: sh_reachable_def)

text \<open>What every state of the agent has.\<close>

lemma agent_invariants:
  assumes "agent_reachable b fs pid ag"
  shows "\<not> sh_locked (ag_sh ag)" "chain_inv (ag_sh ag)" "stop_inv (ag_anr ag)" "an_control (ag_anr ag) = Idle"
    "\<not> th_locked (ag_th ag)" "altstack_inv (ag_sh ag)"
proof -
  note parts = agent_reachable_components [OF assms]
  show "\<not> sh_locked (ag_sh ag)"
    using sh_reachable_mono [OF parts(1)] unlocked_reachable by (auto simp: good_outcomes_def)
  show "chain_inv (ag_sh ag)"
    using sh_reachable_mono [OF parts(1)] chain_inv_reachable by (auto simp: good_outcomes_def)
qed (use agent_reachable_components [OF assms] stop_inv_reachable in auto)

section \<open>Stopping in any state\<close>

text \<open>A stop of the signal handler removes every interceptor, however often it was started.\<close>

lemma signal_stop_quiet:
  assumes "chain_inv st" "\<not> sh_locked st" "sigactions_work os" "so_lock os"
    and "signal_handler_shutdown os st = Returns st'"
  shows "sa_handler (k_disp (sh_kernel st') n) \<noteq> Interceptor" "ss_sp (sh_stack st') = None"
    "k_heap (sh_kernel st') = (case ss_sp (sh_stack st) of Some p \<Rightarrow> remove1 p (k_heap (sh_kernel st))
       | None \<Rightarrow> k_heap (sh_kernel st))"
    "k_altstack (sh_kernel st') = k_altstack (sh_kernel st)"
proof -
  let ?un = "uninstall_handler os (st\<lparr>sh_locked := True\<rparr>)"
  have st': "st' = (dealloc ?un)\<lparr>sh_locked := \<not> so_unlock os\<rparr>"
    using assms(2,4,5) by (auto simp: signal_handler_shutdown_def mutex_lock_def mutex_unlock_eq dealloc_def split: option.splits)
  then show "ss_sp (sh_stack st') = None" by (simp add: dealloc_def split: option.split)
  show "k_heap (sh_kernel st') = (case ss_sp (sh_stack st) of Some p \<Rightarrow> remove1 p (k_heap (sh_kernel st))
      | None \<Rightarrow> k_heap (sh_kernel st))" "k_altstack (sh_kernel st') = k_altstack (sh_kernel st)"
    by (simp_all add: st' dealloc_def uninstall_handler_def split: option.split)
  have signals: "distinct (signos (sh_signals st))"
    using assms(1) signos_observed(2) by (simp add: chain_inv_def)
  have "sa_handler (k_disp (sh_kernel ?un) n) \<noteq> Interceptor"
  proof (cases "sh_initialized st > 0")
    case True
    then have "k_disp (sh_kernel ?un) = (\<lambda>n. case prev_of (sh_signals st) n of Some a \<Rightarrow> a | None \<Rightarrow> k_disp (sh_kernel st) n)"
      using assms(3) signals by (simp add: uninstall_handler_def uninstall_all_ok sigactions_work_def)
    then show ?thesis
      using chain_inv_foreign [OF assms(1)] chain_inv_others [OF assms(1)] by (auto split: option.split)
  next
    case False
    then show ?thesis using assms(1) by (simp add: chain_inv_def uninstall_handler_def)
  qed
  then show "sa_handler (k_disp (sh_kernel st') n) \<noteq> Interceptor"
    by (simp add: st' dealloc_def split: option.split)
qed

text \<open>A stop of the ANR handler waits for the watchdog, which has seen the post.\<close>

lemma anr_stop_quiet:
  assumes "stop_inv st" "an_control st = Idle"
  shows "\<exists>st'. anr_handler_shutdown True st = Returns st' \<and> \<not> an_enabled st' \<and> an_watchdog st' = W_none \<and>
    \<not> an_has_thread st' \<and> \<not> an_buffer st' \<and> an_raised st' = an_raised st"
proof -
  let ?s1 = "shutdown_begin st"
  let ?s2 = "shutdown_post True ?s1"
  have s1: "stop_inv ?s1" "an_control ?s1 = S_post"
    using stop_inv_control(5) [OF assms] by (simp_all add: shutdown_begin_def)
  have s2: "stop_inv ?s2" by (rule stop_inv_control(6) [OF s1])
  have raised: "an_raised ?s2 = an_raised st"
    by (simp add: shutdown_begin_def shutdown_post_def sem_post_def Let_def)
  show ?thesis
  proof (cases "an_has_thread st")
    case True
    then have join: "an_control ?s2 = S_join" by (simp add: shutdown_begin_def shutdown_post_def sem_post_def Let_def)
    then have "an_watchdog (run_watchdog 5 ?s2) = W_stopped \<and> an_raised (run_watchdog 5 ?s2) = an_raised ?s2"
      "\<not> an_enabled ?s2"
      using run_watchdog_stops [of ?s2] s2 by (auto simp: stop_inv_def)
    moreover have "an_enabled (run_watchdog n s) = an_enabled s" for n s
      by (induction n arbitrary: s) (auto dest: watchdog_step_frame(3) split: option.splits)
    ultimately show ?thesis
      using join raised by (simp add: anr_handler_shutdown_def shutdown_join_def shutdown_close_def reset_android_anr_handler_def)
  next
    case False
    then have close: "an_control ?s2 = S_close" by (simp add: shutdown_begin_def shutdown_post_def sem_post_def Let_def)
    then have "\<not> an_enabled ?s2" "an_watchdog ?s2 = W_none" "\<not> an_has_thread ?s2"
      using s2 by (simp_all add: stop_inv_def)
    then show ?thesis
      using close raised by (simp add: anr_handler_shutdown_def Let_def shutdown_close_def reset_android_anr_handler_def)
  qed
qed

lemma terminate_Returns:
  assumes "\<not> th_locked th"
  shows "\<exists>x. terminate_handler_initialize u lock unlock th = Returns x" "\<exists>th'. terminate_handler_shutdown u lock unlock th = Returns th'"
  using assms by (auto simp: terminate_handler_initialize_def terminate_handler_shutdown_def set_terminate_def
      set_unexpected_def Let_def)

text \<open>A start with a complete managed context, and a stop.\<close>

lemma start_returns:
  assumes "agent_reachable b fs pid ag"
    and "managed_context vm mc path session build anr" "mc \<noteq> 0" "env \<noteq> 0"
    and "\<not> j_pending (ag_jni ag) env" "mc \<notin> set (j_deleted (ag_jni ag))"
    and "context_of b path session build anr (ag_native ag) = Returns nc1"
    and "fs_dir fs (get_task_path b pid) \<noteq> None"
  shows "\<exists>ag'. nativeStart b vm fs pid sc env mc ag = Returns (True, ag') \<and>
    nc_reportPathAbsolute (ag_native ag') = nc_reportPathAbsolute nc1 \<and>
    nc_sessionId (ag_native ag') = nc_sessionId nc1 \<and> nc_buildId (ag_native ag') = nc_buildId nc1 \<and>
    nc_anrMonitorEnabled (ag_native ag') = nc_anrMonitorEnabled nc1"
proof -
  note inv = agent_invariants [OF assms(1)]
  obtain js1 ok nc2 js2 where jni: "set_native_context b vm env mc (ag_native ag) (ag_jni ag) = Returns (nc1, js1)"
      "bind_delegate vm env nc1 js1 = Returns (ok, nc2, js2)" "nc_reportPathAbsolute nc2 = nc_reportPathAbsolute nc1"
      "nc_sessionId nc2 = nc_sessionId nc1" "nc_buildId nc2 = nc_buildId nc1" "nc_anrMonitorEnabled nc2 = nc_anrMonitorEnabled nc1"
    using context_and_delegate [OF assms(2-7)] by blast
  obtain r sh1 where sh: "signal_handler_initialize (sc_sigstksz sc) (sc_sh sc) (ag_sh ag) = Returns (r, sh1)"
    using unlocked_Returns(1) [OF inv(1)] by (metis surj_pair)
  have "\<exists>q an. anr_handler_initialize b fs pid (sc_anr_created sc) (sc_anr_sem sc) (sc_anr_installed sc) (ag_anr ag) = Returns (q, an)"
    using assms(8) by (auto simp: anr_handler_initialize_def init_begin_def detect_android_anr_handler_def Let_def)
  then obtain q an1 where an: "anr_handler_initialize b fs pid (sc_anr_created sc) (sc_anr_sem sc) (sc_anr_installed sc) (ag_anr ag) = Returns (q, an1)"
    by blast
  obtain p th1 where th: "terminate_handler_initialize (sc_unexpected sc) (sc_th_lock sc) (sc_th_unlock sc) (ag_th ag) = Returns (p, th1)"
    using terminate_Returns(1) [OF inv(5)] by (metis surj_pair)
  show ?thesis
    using jni sh an th by (cases "nc_anrMonitorEnabled nc1") (simp_all add: nativeStart_def)
qed

lemma stop_returns:
  assumes "agent_reachable b fs pid ag"
  shows "\<exists>ag'. nativeStop sc True ag = Returns ag'"
proof -
  note inv = agent_invariants [OF assms]
  obtain sh2 where "signal_handler_shutdown (sc_sh sc) (ag_sh ag) = Returns sh2"
    using unlocked_Returns(2) [OF inv(1)] by blast
  moreover obtain an2 where "anr_handler_shutdown True (ag_anr ag) = Returns an2"
    using anr_stop_quiet [OF inv(3,4)] by blast
  moreover obtain th2 where "terminate_handler_shutdown (sc_unexpected sc) (sc_th_lock sc) (sc_th_unlock sc) (ag_th ag) = Returns th2"
    using terminate_Returns(2) [OF inv(5)] by blast
  ultimately show ?thesis by (cases "nc_anrMonitorEnabled (ag_native ag)") (simp_all add: nativeStop_def)
qed

text \<open>The sample agent, loaded, and started with its installer thread run.\<close>

lemma sample_agent_reachable: "agent_reachable b fs 7 sample_agent"
proof -
  have "sa_handler (k_disp sample_kernel n) \<noteq> Interceptor" for n
    by (simp add: sample_kernel_def)
  moreover have "ag_sh sample_agent = loaded sample_kernel Map.empty" "ag_anr sample_agent = anr_loaded 7 SIG_DFL Map.empty"
    "ag_th sample_agent = th_loaded (Term_other 3) Term_default Map.empty"
    by (simp_all add: sample_agent_def)
  moreover have "heap_wf (k_heap sample_kernel) (k_fresh sample_kernel)" by (simp add: heap_wf_def sample_kernel_def)
  ultimately have "agent_loaded 7 sample_agent" unfolding agent_loaded_def by blast
  then show ?thesis unfolding agent_reachable_def by blast
qed

lemma sample_good_calls: "good_calls sample_calls" "good_outcomes sh_all_ok"
  by (simp_all add: good_calls_def good_outcomes_def lock_safe_def sigactions_work_def sample_calls_def sh_all_ok_def all_ok_def)

lemma sample_agent_started:
  "\<exists>ag. agent_reachable arm64_build quit_fs 7 ag \<and>
     start_up 8192 sh_all_ok (loaded sample_kernel Map.empty) = Returns (ag_sh ag) \<and>
     nc_sessionId (ag_native ag) = ''abc'' \<and> nc_buildId (ag_native ag) = ''abc'' \<and> nc_anrMonitorEnabled (ag_native ag) \<and> an_has_thread (ag_anr ag) \<and>
     an_enabled (ag_anr ag) \<and> an_buffer (ag_anr ag) \<and> an_watchdog (ag_anr ag) = W_head \<and> an_pid (ag_anr ag) = 7 \<and>
     an_monitor_tid (ag_anr ag) = 9 \<and> an_files (ag_anr ag) = Map.empty \<and> an_raised (ag_anr ag) = []"
proof -
  have "fs_dir quit_fs (get_task_path arm64_build 7) \<noteq> None" by (rule sample_facts(8))
  then obtain ag1 where ag1: "nativeStart arm64_build sample_vm quit_fs 7 sample_calls 1 20 sample_agent = Returns (True, ag1)"
      "nc_sessionId (ag_native ag1) = ''abc''" "nc_buildId (ag_native ag1) = ''abc''" "nc_anrMonitorEnabled (ag_native ag1)"
    using start_returns [OF sample_agent_reachable sample_managed_context _ _ sample_facts(1-3), where sc = sample_calls]
    by (auto simp: sample_context_def)
  note parts = nativeStart_Returns [OF ag1(1)]
  obtain q where sh: "signal_handler_initialize 8192 sh_all_ok (loaded sample_kernel Map.empty) = Returns (q, ag_sh ag1)"
    using parts(1) by (auto simp: sample_calls_def sample_agent_def)
  obtain s where "signal_handler_initialize 8192 sh_all_ok (loaded sample_kernel Map.empty) = Returns (True, s)" "sh_pending s = Suc 0"
    by (simp add: initialize_ok loaded_def)
  then have pending: "sh_pending (ag_sh ag1) = Suc 0" using sh by simp
  let ?ag = "ag1\<lparr>ag_sh := install_signal_observers sh_all_ok ((ag_sh ag1)\<lparr>sh_pending := 0\<rparr>)\<rparr>"
  have "agent_step arm64_build quit_fs 7 sample_agent ag1"
    by (rule agent_step.Start [OF sample_good_calls(1) ag1(1)]) (simp add: sample_agent_def anr_loaded_def)
  moreover have "agent_step arm64_build quit_fs 7 ag1 ?ag"
    by (rule agent_step.Installer [OF sample_good_calls(2) pending])
  ultimately have "agent_reachable arm64_build quit_fs 7 ?ag"
    using sample_agent_reachable unfolding agent_reachable_def by (meson rtranclp.rtrancl_into_rtrancl)
  moreover have "start_up 8192 sh_all_ok (loaded sample_kernel Map.empty) = Returns (ag_sh ?ag)"
    by (simp add: start_up_def sh pending)
  moreover have "an_has_thread (ag_anr ag1) \<and> an_enabled (ag_anr ag1) \<and> an_buffer (ag_anr ag1) \<and> an_watchdog (ag_anr ag1) = W_head \<and>
      an_pid (ag_anr ag1) = 7 \<and> an_monitor_tid (ag_anr ag1) = 9 \<and> an_files (ag_anr ag1) = Map.empty \<and> an_raised (ag_anr ag1) = []"
  proof -
    obtain r where "anr_handler_initialize arm64_build quit_fs 7 True True True (anr_loaded 7 SIG_DFL Map.empty) = Returns (r, ag_anr ag1)"
      using parts(2) ag1(4) by (auto simp: sample_calls_def sample_agent_def)
    moreover obtain an where "anr_handler_initialize arm64_build quit_fs 7 True True True (anr_loaded 7 SIG_DFL Map.empty) = Returns (True, an)"
      "an_has_thread an \<and> an_enabled an \<and> an_buffer an \<and> an_watchdog an = W_head \<and>
       an_pid an = 7 \<and> an_monitor_tid an = 9 \<and> an_files an = Map.empty \<and> an_raised an = []"
      by (simp add: anr_handler_initialize_def quit_fs_begin anr_loaded_def anr_control_defs Let_def)
    ultimately show ?thesis by simp
  qed
  ultimately show ?thesis using ag1(2-4) by (intro exI [of _ ?ag]) simp
qed

section \<open>Properties\<close>





end
