(* ===== verification/Anr_Monitor.thy ===== *)
theory Anr_Monitor
  imports Managed_Reader
begin

text \<open>
  \<open>ANRMonitor.kt\<close>, the managed side's own way to notice that the main thread hangs, and
  \<open>JVMDelegate.kt\<close>, which prefers it to the listener for the ANRs that the native side passes on.
  A monitor is one object for the life of the process. What the main looper, the activity
  manager and the interruptions do is the input of each round.
\<close>

section \<open>A round of the monitor's loop\<close>

definition ANR_TIMEOUT :: int where
  "ANR_TIMEOUT = 6 * 1000"

definition ANR_SAMPLE_CNT :: int where
  "ANR_SAMPLE_CNT = 2"

definition NOT_RESPONDING :: int where
  "NOT_RESPONDING = 2"

definition CRASHED :: int where
  "CRASHED = 1"

text \<open>
  What a round meets: the thread was interrupted before it, the runner could not be posted, the
  wait was interrupted, or it ended: whether the runner had run, the condition of the process's
  error state if there is one, the milliseconds it took, and whether a sleep is interrupted.
\<close>

datatype round =
    Interrupted_before
  | Not_posted
  | Wait_interrupted
  | Waited bool "int option" int bool

definition inANRState :: "bool \<Rightarrow> int option \<Rightarrow> bool" where
  "inANRState signaled condition \<longleftrightarrow>
     (if \<not> signaled then (case condition of Some c \<Rightarrow> c = NOT_RESPONDING | None \<Rightarrow> False) else False)"

record runner =
  ru_alive :: bool
  ru_anrSampleCnt :: int
  ru_reports :: nat
  ru_sleeps :: "int list"

definition monitor_round :: "round \<Rightarrow> runner \<Rightarrow> runner" where
  "monitor_round r st =
     (if \<not> ru_alive st then st
      else case r of
        Waited signaled condition elapsed sleep_interrupted \<Rightarrow>
          (let isANR = inANRState signaled condition;
               tRemaining = (if isANR then 0 else max 0 (ANR_TIMEOUT - elapsed))
           in if isANR then
                (let cnt = ru_anrSampleCnt st - 1; st = st\<lparr>ru_anrSampleCnt := cnt\<rparr>
                 in if cnt = 0 then st\<lparr>ru_reports := Suc (ru_reports st), ru_anrSampleCnt := ANR_SAMPLE_CNT\<rparr> else st)
              else if tRemaining > 0 then
                st\<lparr>ru_sleeps := ru_sleeps st @ [tRemaining], ru_alive := \<not> sleep_interrupted\<rparr>
              else st)
      | _ \<Rightarrow> st\<lparr>ru_alive := False\<rparr>)"

definition run_monitor :: "round list \<Rightarrow> runner \<Rightarrow> runner" where
  "run_monitor rs st = fold monitor_round rs st"

section \<open>Start, stop and restart\<close>

text \<open>
  A task given to the executor, which runs one at a time. \<open>monitorThread.start()\<close> throws
  for a thread that was started before, and the task ends with the exception.
\<close>

datatype task = Queued | Running | Cancelled | Done

record monitor =
  mo_future :: "task option"
  mo_cancelled :: nat
  mo_thread_started :: bool
  mo_bodies :: nat

definition monitor_created :: monitor where
  "monitor_created = \<lparr>mo_future = None, mo_cancelled = 0, mo_thread_started = False, mo_bodies = 0\<rparr>"

definition isRunning :: "monitor \<Rightarrow> bool" where
  "isRunning m = (case mo_future m of Some f \<Rightarrow> \<not> (f = Cancelled \<or> f = Done) | None \<Rightarrow> False)"

text \<open>After \<open>cancel\<close> a future is done, so that the stop never waits. A body that was cancelled
  while it ran occupies the executor until it notices.\<close>

definition stopMonitor :: "monitor \<Rightarrow> monitor" where
  "stopMonitor m =
     m\<lparr>mo_future := None,
       mo_cancelled := (if mo_future m = Some Running then Suc (mo_cancelled m) else mo_cancelled m)\<rparr>"

definition startMonitor :: "monitor \<Rightarrow> monitor" where
  "startMonitor m = (if isRunning m then stopMonitor m else m)\<lparr>mo_future := Some Queued\<rparr>"

text \<open>The executor takes the task; the body goes past the start of its thread, or throws.\<close>

definition task_begins :: "monitor \<Rightarrow> monitor option" where
  "task_begins m =
     (if mo_future m = Some Queued \<and> mo_cancelled m = 0 then
        Some (if mo_thread_started m then m\<lparr>mo_future := Some Done\<rparr>
              else m\<lparr>mo_thread_started := True, mo_future := Some Running, mo_bodies := Suc (mo_bodies m)\<rparr>)
      else None)"

inductive monitor_step :: "monitor \<Rightarrow> monitor \<Rightarrow> bool" where
  Start_monitor: "monitor_step m (startMonitor m)"
| Stop_monitor: "monitor_step m (stopMonitor m)"
| Begin_task: "task_begins m = Some m' \<Longrightarrow> monitor_step m m'"
| End_task: "mo_future m = Some Running \<Longrightarrow> monitor_step m (m\<lparr>mo_future := Some Done\<rparr>)"
| End_cancelled: "mo_cancelled m = Suc n \<Longrightarrow> monitor_step m (m\<lparr>mo_cancelled := n\<rparr>)"

inductive_simps monitor_step_simps: "monitor_step m m'"

section \<open>An ANR report\<close>

record error_info =
  ei_pid :: int
  ei_processName :: string
  ei_shortMsg :: string
  ei_longMsg :: string
  ei_stackTrace :: string
  ei_tag :: string
  ei_condition :: int

datatype attribute = Text_attr string | Int_attr int | Threads_attr "native_thread_info list"

text \<open>The attributes of the exception; \<open>NativeException\<close> has no cause.\<close>

definition report_attributes :: "native_stack_trace option \<Rightarrow> string \<rightharpoonup> attribute" where
  "report_attributes tr =
     (let attributes = [''platform'' \<mapsto> Text_attr ''native'', ''ANR'' \<mapsto> Text_attr ''true'']
      in case tr of
           None \<Rightarrow> attributes
         | Some t \<Rightarrow>
             (let attributes = (case ns_crashedThread t of
                                  Some c \<Rightarrow> attributes(''crashingThreadId'' \<mapsto> Int_attr (nt_threadId c)) | None \<Rightarrow> attributes)
              in attributes(''nativeThreads'' \<mapsto> Threads_attr (ns_threads t),
                            ''exceptionMessage'' \<mapsto> Text_attr (ns_exceptionMessage t))))"

definition error_attributes :: "error_info \<Rightarrow> (string \<rightharpoonup> attribute) \<Rightarrow> (string \<rightharpoonup> attribute)" where
  "error_attributes e attributes =
     (let attributes = attributes(''pid'' \<mapsto> Int_attr (ei_pid e), ''processName'' \<mapsto> Text_attr (ei_processName e),
            ''shortMsg'' \<mapsto> Text_attr (ei_shortMsg e), ''longMsg'' \<mapsto> Text_attr (ei_longMsg e),
            ''stackTrace'' \<mapsto> Text_attr (ei_stackTrace e), ''tag'' \<mapsto> Text_attr (ei_tag e))
      in if ei_condition e = NOT_RESPONDING then attributes(''reason'' \<mapsto> Int_attr 6)
         else if ei_condition e = CRASHED then attributes(''reason'' \<mapsto> Int_attr 4)
         else attributes)"

text \<open>
  The runnable on the monitor's looper: \<open>info i\<close> is the error state its \<open>i\<close>-th run sees. It posts
  itself again while retries are left; the result is the run that sends, with the attributes.
\<close>

fun retry_runs :: "(nat \<Rightarrow> error_info option) \<Rightarrow> nat \<Rightarrow> nat \<Rightarrow> (string \<rightharpoonup> attribute) \<Rightarrow> nat \<times> (string \<rightharpoonup> attribute)" where
  "retry_runs info i 0 attributes =
     (i, case info i of Some e \<Rightarrow> error_attributes e attributes | None \<Rightarrow> attributes)"
| "retry_runs info i (Suc retries) attributes =
     (case info i of
        Some e \<Rightarrow> (i, error_attributes e attributes)
      | None \<Rightarrow> retry_runs info (Suc i) retries attributes)"

definition reportWithRetry :: "(nat \<Rightarrow> error_info option) \<Rightarrow> native_stack_trace option \<Rightarrow> nat \<times> (string \<rightharpoonup> attribute)" where
  "reportWithRetry info tr = retry_runs info 0 10 (report_attributes tr)"

text \<open>\<open>None\<close>: the text is no JSON object, and the constructor of \<open>NativeException\<close> throws.\<close>

definition createANRReport ::
  "json_lib \<Rightarrow> (nat \<Rightarrow> error_info option) \<Rightarrow> string option \<Rightarrow> (nat \<times> (string \<rightharpoonup> attribute)) option" where
  "createANRReport lib info anrAsJson =
     (case anrAsJson of
        None \<Rightarrow> Some (reportWithRetry info None)
      | Some text \<Rightarrow> map_option (\<lambda>tr. reportWithRetry info (Some tr)) (transformNativeStackTrace lib text))"

text \<open>What the delegate does with an ANR of the native side.\<close>

datatype delivery = To_monitor "(nat \<times> (string \<rightharpoonup> attribute)) option" | To_listener string | To_nobody

definition onApplicationNotResponding ::
  "json_lib \<Rightarrow> (nat \<Rightarrow> error_info option) \<Rightarrow> monitor \<Rightarrow> bool \<Rightarrow> string \<Rightarrow> delivery" where
  "onApplicationNotResponding lib info m has_listener anrAsString =
     (if isRunning m then To_monitor (createANRReport lib info (Some anrAsString))
      else if has_listener then To_listener anrAsString
      else To_nobody)"

section \<open>Lemmas\<close>

text \<open>The rounds that count, and the rounds after which the loop goes on.\<close>

fun anr_round :: "round \<Rightarrow> bool" where
  "anr_round (Waited signaled condition _ _) \<longleftrightarrow> inANRState signaled condition"
| "anr_round _ \<longleftrightarrow> False"

fun goes_on :: "round \<Rightarrow> bool" where
  "goes_on (Waited signaled condition elapsed sleep_interrupted) \<longleftrightarrow>
     inANRState signaled condition \<or> ANR_TIMEOUT \<le> elapsed \<or> \<not> sleep_interrupted"
| "goes_on _ \<longleftrightarrow> False"

lemma dead_rounds: "\<not> ru_alive st \<Longrightarrow> run_monitor rs st = st"
  by (induction rs) (simp_all add: run_monitor_def monitor_round_def)

lemma run_monitor_Cons: "run_monitor (r # rs) st = run_monitor rs (monitor_round r st)"
  by (simp add: run_monitor_def)

lemma run_monitor_counts:
  assumes "ru_alive st" "ru_anrSampleCnt st = 1 \<or> ru_anrSampleCnt st = 2"
  shows "int (ru_reports (run_monitor rs st)) =
    int (ru_reports st) + (int (length (filter anr_round (takeWhile goes_on rs))) + (2 - ru_anrSampleCnt st)) div 2"
  using assms
proof (induction rs arbitrary: st)
  case Nil
  then show ?case by (auto simp: run_monitor_def)
next
  case (Cons r rs)
  show ?case
  proof (cases "goes_on r")
    case False
    then have "\<not> ru_alive (monitor_round r st)" "ru_reports (monitor_round r st) = ru_reports st"
      using Cons.prems(1) by (cases r; auto simp: monitor_round_def Let_def)+
    then show ?thesis using False Cons.prems(2) by (auto simp: run_monitor_Cons dead_rounds)
  next
    case True
    then obtain s c e i where r: "r = Waited s c e i" by (cases r) auto
    then show ?thesis
      using True Cons.prems Cons.IH [of "monitor_round r st"]
      by (cases "inANRState s c") (auto simp: run_monitor_Cons monitor_round_def Let_def ANR_SAMPLE_CNT_def max_def)
  qed
qed

text \<open>No body runs before the thread is started, one has run once it is, and the future of a later
  task is never running.\<close>

definition once_inv :: "monitor \<Rightarrow> bool" where
  "once_inv m \<longleftrightarrow> mo_bodies m = (if mo_thread_started m then 1 else 0) \<and>
     (mo_future m = Some Running \<longrightarrow> mo_thread_started m)"

lemma once_inv_step: "monitor_step m m' \<Longrightarrow> once_inv m \<Longrightarrow> once_inv m'"
  by (induction rule: monitor_step.induct)
    (auto simp: once_inv_def startMonitor_def stopMonitor_def task_begins_def split: if_splits)

lemma spent_step:
  "monitor_step m m' \<Longrightarrow> mo_thread_started m \<and> mo_future m \<noteq> Some Running \<Longrightarrow>
   mo_thread_started m' \<and> mo_future m' \<noteq> Some Running"
  by (induction rule: monitor_step.induct) (auto simp: startMonitor_def stopMonitor_def task_begins_def split: if_splits)

lemma spent_steps:
  "monitor_step\<^sup>*\<^sup>* m m' \<Longrightarrow> mo_thread_started m \<Longrightarrow> mo_future m \<noteq> Some Running \<Longrightarrow>
   mo_thread_started m' \<and> mo_future m' \<noteq> Some Running"
proof (induction rule: rtranclp_induct)
  case (step m1 m2)
  then show ?case using spent_step [OF step(2)] by blast
qed simp

lemma once_inv_reachable: "monitor_step\<^sup>*\<^sup>* monitor_created m \<Longrightarrow> once_inv m"
  by (induction rule: rtranclp_induct) (auto simp: once_inv_def monitor_created_def dest: once_inv_step)

lemma retry_runs_bounds:
  "i \<le> fst (retry_runs info i n attributes) \<and> fst (retry_runs info i n attributes) \<le> i + n"
proof (induction n arbitrary: i)
  case (Suc n)
  show ?case
  proof (cases "info i")
    case None
    then show ?thesis using Suc [of "Suc i"] by simp
  qed simp
qed simp

lemma retry_runs_spec:
  "retry_runs info i n attributes = (k, a) \<Longrightarrow>
   (\<forall>j. i \<le> j \<and> j < k \<longrightarrow> info j = None) \<and> (info k = None \<longrightarrow> k = i + n \<and> a = attributes) \<and>
   (\<forall>e. info k = Some e \<longrightarrow> a = error_attributes e attributes)"
proof (induction n arbitrary: i)
  case (Suc n)
  show ?case
  proof (cases "info i")
    case None
    then have "retry_runs info (Suc i) n attributes = (k, a)" using Suc.prems by simp
    then show ?thesis using Suc.IH [of "Suc i"] None by (auto simp: Suc_le_eq) (metis le_neq_implies_less)+
  next
    case (Some e)
    then show ?thesis using Suc.prems by auto
  qed
qed (auto split: option.splits)

section \<open>Properties\<close>

text \<open>
  C35. The monitor works once. In every interleaving of starts, stops and the executor, the
  monitor's loop is entered at most once in the life of the process; and when it has ended or was
  stopped, it never runs again, whatever is started, because its thread cannot be started twice.
\<close>

theorem monitor_runs_once:
  assumes "monitor_step\<^sup>*\<^sup>* monitor_created m"
  shows "mo_bodies m \<le> 1 \<and>
    (mo_bodies m = 1 \<longrightarrow> mo_future m \<noteq> Some Running \<longrightarrow>
       (\<forall>m'. monitor_step\<^sup>*\<^sup>* m m' \<longrightarrow> mo_future m' \<noteq> Some Running \<and> mo_bodies m' = 1))"
proof -
  have once: "once_inv m" by (rule once_inv_reachable [OF assms])
  have "mo_future m' \<noteq> Some Running \<and> mo_bodies m' = 1"
    if "mo_bodies m = 1" "mo_future m \<noteq> Some Running" "monitor_step\<^sup>*\<^sup>* m m'" for m'
  proof -
    have "mo_thread_started m" using once that(1) by (cases "mo_thread_started m") (simp_all add: once_inv_def)
    then have "mo_thread_started m' \<and> mo_future m' \<noteq> Some Running" by (rule spent_steps [OF that(3) _ that(2)])
    moreover have "once_inv m'" by (rule once_inv_reachable [OF rtranclp_trans [OF assms that(3)]])
    ultimately show ?thesis by (simp add: once_inv_def)
  qed
  moreover have "mo_bodies m \<le> 1" using once by (simp add: once_inv_def)
  ultimately show ?thesis by blast
qed

text \<open>A monitor that was started, ran, was stopped and started again.\<close>

definition sample_restarted :: monitor where
  "sample_restarted = \<lparr>mo_future = Some Queued, mo_cancelled = 1, mo_thread_started = True, mo_bodies = 1\<rparr>"

theorem monitor_runs_once_witness:
  "monitor_step\<^sup>*\<^sup>* monitor_created sample_restarted \<and>
   monitor_step\<^sup>*\<^sup>* sample_restarted (sample_restarted\<lparr>mo_cancelled := 0, mo_future := Some Done\<rparr>) \<and>
   mo_bodies (sample_restarted\<lparr>mo_cancelled := 0, mo_future := Some Done\<rparr>) = 1"
proof -
  define m1 where "m1 = startMonitor monitor_created"
  define m2 where "m2 = m1\<lparr>mo_thread_started := True, mo_future := Some Running, mo_bodies := 1\<rparr>"
  have m1: "monitor_step monitor_created m1" unfolding m1_def by (rule Start_monitor)
  have m2: "monitor_step m1 m2"
    by (rule Begin_task) (simp add: m2_def m1_def startMonitor_def monitor_created_def isRunning_def task_begins_def)
  have m3: "monitor_step m2 (stopMonitor m2)" by (rule Stop_monitor)
  have m4: "monitor_step (stopMonitor m2) (startMonitor (stopMonitor m2))" by (rule Start_monitor)
  have "startMonitor (stopMonitor m2) = sample_restarted"
    by (simp add: m2_def m1_def startMonitor_def stopMonitor_def monitor_created_def isRunning_def sample_restarted_def)
  with m1 m2 m3 m4 have steps: "monitor_step\<^sup>*\<^sup>* monitor_created sample_restarted"
    by (metis rtranclp.simps)
  have "monitor_step sample_restarted (sample_restarted\<lparr>mo_cancelled := 0\<rparr>)"
    by (rule End_cancelled) (simp add: sample_restarted_def)
  moreover have "monitor_step (sample_restarted\<lparr>mo_cancelled := 0\<rparr>) (sample_restarted\<lparr>mo_cancelled := 0, mo_future := Some Done\<rparr>)"
    by (rule Begin_task) (simp add: sample_restarted_def task_begins_def)
  ultimately have ended: "monitor_step\<^sup>*\<^sup>* sample_restarted (sample_restarted\<lparr>mo_cancelled := 0, mo_future := Some Done\<rparr>)"
    by (metis rtranclp.simps)
  have "mo_bodies sample_restarted = 1" "mo_future sample_restarted \<noteq> Some Running"
    by (simp_all add: sample_restarted_def)
  with monitor_runs_once [OF steps] ended have
    "mo_bodies (sample_restarted\<lparr>mo_cancelled := 0, mo_future := Some Done\<rparr>) = 1" by blast
  with steps ended show ?thesis by blast
qed

text \<open>
  Every second round of an ANR is reported. Among the rounds up to the end of the loop, the
  number of reports is half the number of the rounds in which the main thread hung and the
  system had noticed, rounded down: healthy rounds in between do not start the count again.
\<close>

theorem every_second_anr_reported:
  assumes "ru_alive st" "ru_anrSampleCnt st = ANR_SAMPLE_CNT" "ru_reports st = 0"
  shows "ru_reports (run_monitor rs st) = length (filter anr_round (takeWhile goes_on rs)) div 2"
  using run_monitor_counts [OF assms(1), of rs] assms(2,3) by (simp add: ANR_SAMPLE_CNT_def)

theorem every_second_anr_reported_witness:
  "ru_reports (run_monitor
      [Waited False (Some NOT_RESPONDING) 6000 False, Waited True None 10 False, Waited False (Some NOT_RESPONDING) 6000 False,
       Wait_interrupted, Waited False (Some NOT_RESPONDING) 6000 False]
      \<lparr>ru_alive = True, ru_anrSampleCnt = ANR_SAMPLE_CNT, ru_reports = 0, ru_sleeps = []\<rparr>) = 1"
  by (subst every_second_anr_reported) (simp_all add: inANRState_def)

text \<open>
  An ANR report is sent once and soon: by the first of at most eleven runs that sees an error
  state of the process, whose data it adds, or else by the eleventh.
\<close>

theorem anr_report_sent:
  assumes "reportWithRetry info tr = (k, a)"
  shows "k \<le> 10 \<and> (\<forall>j < k. info j = None) \<and>
    (case info k of None \<Rightarrow> k = 10 \<and> a = report_attributes tr
     | Some e \<Rightarrow> a = error_attributes e (report_attributes tr))"
  using retry_runs_bounds [of 0 info 10 "report_attributes tr"] retry_runs_spec [of info 0 10 "report_attributes tr" k a] assms
  by (auto simp: reportWithRetry_def split: option.split)

end
