(* ===== verification/Managed_Agent.thy ===== *)
theory Managed_Agent
  imports Agent_System Report_Flush Anr_Monitor
begin

text \<open>
  The managed agent as the application sees it: the builder, the start and the stop of
  \<open>AgentNDK.kt\<close>, the settings of \<open>ManagedContext.kt\<close> that the native side reads, the delegate of
  \<open>JVMDelegate.kt\<close> and the threads of \<open>NativeCrash.kt\<close>. The application context, the listener and the
  loader are parameters; an exception that nobody catches is \<open>Faults\<close>.
\<close>

section \<open>Files\<close>

text \<open>\<open>java.io.File\<close>: double and trailing slashes are dropped; \<open>cwd\<close> is the working directory.\<close>

fun single_slashes :: "string \<Rightarrow> string" where
  "single_slashes (c # d # s) = (if c = CHR ''/'' \<and> d = CHR ''/'' then single_slashes (d # s) else c # single_slashes (d # s))"
| "single_slashes s = s"

definition java_file :: "string \<Rightarrow> string" where
  "java_file path =
     (let s = single_slashes path in if length s > 1 \<and> last s = CHR ''/'' then butlast s else s)"

definition absolutePath :: "string \<Rightarrow> string \<Rightarrow> string" where
  "absolutePath cwd path =
     (if path = '''' then cwd
      else if hd path = CHR ''/'' then path
      else if cwd = ''/'' then cwd @ path
      else cwd @ ''/'' @ path)"

section \<open>The settings\<close>

record app_context =
  ac_cacheDir :: "string option"
  ac_nativeLibraryDir :: "string option"

record managed_settings =
  ms_context :: "app_context option"
  ms_sessionId :: "string option"
  ms_buildId :: "string option"
  ms_reportsDir :: "string option"
  ms_nativeReportListener :: "(callback list \<Rightarrow> bool option) option"
  ms_anrMonitor :: bool
  ms_expirationPeriod :: int

definition DEFAULT_TTL :: int where
  "DEFAULT_TTL = 7 * 24 * 60 * 60"

text \<open>The template prints a null reference as its name.\<close>

definition getNativeReportsDir :: "string \<Rightarrow> string option \<Rightarrow> string" where
  "getNativeReportsDir cwd rootDir =
     java_file ((case rootDir of Some d \<Rightarrow> absolutePath cwd d | None \<Rightarrow> ''null'') @ ''/newrelic/nativeReporting'')"

definition getNativeLibraryDir :: "app_context option \<Rightarrow> string outcome" where
  "getNativeLibraryDir context =
     (case context of
        None \<Rightarrow> Faults
      | Some c \<Rightarrow> Returns (case ac_nativeLibraryDir c of Some d \<Rightarrow> java_file d | None \<Rightarrow> java_file ''./''))"

definition new_settings :: "string \<Rightarrow> app_context option \<Rightarrow> managed_settings" where
  "new_settings cwd context =
     \<lparr>ms_context = context, ms_sessionId = None, ms_buildId = None,
      ms_reportsDir = Some (getNativeReportsDir cwd (case context of Some c \<Rightarrow> ac_cacheDir c | None \<Rightarrow> None)),
      ms_nativeReportListener = None, ms_anrMonitor = True, ms_expirationPeriod = DEFAULT_TTL\<rparr>"

section \<open>Loading\<close>

datatype load_result = Load_ok | Load_exception | Link_error

definition SUPPORTABILITY_NATIVE_CRASH :: string where
  "SUPPORTABILITY_NATIVE_CRASH = ''Supportability/AgentHealth/NativeReporting/Crash''"

definition SUPPORTABILITY_NATIVE_LOAD_ERR :: string where
  "SUPPORTABILITY_NATIVE_LOAD_ERR = ''Supportability/AgentHealth/NativeReporting/Error/LoadLibrary''"

text \<open>The result, and the metric that is counted.\<close>

definition loadAgent :: "load_result \<Rightarrow> bool \<times> string" where
  "loadAgent l =
     (case l of
        Load_ok \<Rightarrow> (True, SUPPORTABILITY_NATIVE_CRASH)
      | Load_exception \<Rightarrow> (False, SUPPORTABILITY_NATIVE_LOAD_ERR)
      | Link_error \<Rightarrow> (False, SUPPORTABILITY_NATIVE_LOAD_ERR))"

section \<open>The builder\<close>

datatype builder_call =
    WithBuildId string
  | WithSessionId string
  | WithStorageDir "string option"
  | WithReportListener "callback list \<Rightarrow> bool option"
  | WithManagedContext managed_settings
  | WithExpiration int
  | WithLogger
  | WithANRMonitor bool

record agent_builder =
  bu_managedContext :: managed_settings
  bu_mkdirs :: "string list"
  bu_metrics :: "string list"

text \<open>The initializer ignores whether the library was loaded.\<close>

definition new_builder :: "string \<Rightarrow> app_context \<Rightarrow> load_result \<Rightarrow> agent_builder" where
  "new_builder cwd context l =
     \<lparr>bu_managedContext = new_settings cwd (Some context), bu_mkdirs = [], bu_metrics = [snd (loadAgent l)]\<rparr>"

definition make_dirs :: "agent_builder \<Rightarrow> agent_builder" where
  "make_dirs bu =
     (case ms_reportsDir (bu_managedContext bu) of
        None \<Rightarrow> bu
      | Some dir \<Rightarrow> bu\<lparr>bu_mkdirs := bu_mkdirs bu @ [dir]\<rparr>)"

definition set_settings :: "(managed_settings \<Rightarrow> managed_settings) \<Rightarrow> agent_builder \<Rightarrow> agent_builder" where
  "set_settings f bu = bu\<lparr>bu_managedContext := f (bu_managedContext bu)\<rparr>"

fun builder_step :: "string \<Rightarrow> builder_call \<Rightarrow> agent_builder \<Rightarrow> agent_builder" where
  "builder_step cwd (WithBuildId buildId) bu = set_settings (ms_buildId_update (\<lambda>_. Some buildId)) bu"
| "builder_step cwd (WithSessionId sessionId) bu = set_settings (ms_sessionId_update (\<lambda>_. Some sessionId)) bu"
| "builder_step cwd (WithStorageDir storageRootDir) bu =
     make_dirs (set_settings (ms_reportsDir_update (\<lambda>_. Some (getNativeReportsDir cwd storageRootDir))) bu)"
| "builder_step cwd (WithReportListener ndkListener) bu = set_settings (ms_nativeReportListener_update (\<lambda>_. Some ndkListener)) bu"
| "builder_step cwd (WithManagedContext managedContext) bu = bu\<lparr>bu_managedContext := managedContext\<rparr>"
| "builder_step cwd (WithExpiration expirationPeriod) bu = set_settings (ms_expirationPeriod_update (\<lambda>_. expirationPeriod)) bu"
| "builder_step cwd WithLogger bu = bu"
| "builder_step cwd (WithANRMonitor enabled) bu = set_settings (ms_anrMonitor_update (\<lambda>_. enabled)) bu"

text \<open>The calls in their order, then \<open>build\<close>, which installs the agent: its settings are the builder's.\<close>

definition build_agent :: "string \<Rightarrow> app_context \<Rightarrow> load_result \<Rightarrow> builder_call list \<Rightarrow> agent_builder" where
  "build_agent cwd context l calls = make_dirs (fold (builder_step cwd) calls (new_builder cwd context l))"

section \<open>Start, stop and flush\<close>

text \<open>The installed agent; without one, an agent of an empty context is made.\<close>

definition getInstance :: "string \<Rightarrow> managed_settings option \<Rightarrow> managed_settings" where
  "getInstance cwd agentNdk = (case agentNdk of Some c \<Rightarrow> c | None \<Rightarrow> new_settings cwd None)"

definition monitors :: "managed_settings option \<Rightarrow> bool" where
  "monitors managedContext = (case managedContext of Some c \<Rightarrow> ms_anrMonitor c | None \<Rightarrow> False)"

text \<open>\<open>native\<close> is the native function, as the virtual machine finds it: without the library the call throws.\<close>

definition agent_start ::
  "(agent \<Rightarrow> (bool \<times> agent) outcome) \<Rightarrow> bool \<Rightarrow> managed_settings option \<Rightarrow> monitor \<Rightarrow> agent \<Rightarrow> (bool \<times> monitor \<times> agent) outcome" where
  "agent_start native linked managedContext m ag =
     (let m = (if monitors managedContext then startMonitor m else m)
      in case managedContext of
           None \<Rightarrow> Faults
         | Some _ \<Rightarrow>
             if \<not> linked then Faults
             else bind_outcome (native ag) (\<lambda>(r, ag). Returns (r, m, ag)))"

definition agent_stop ::
  "(agent \<Rightarrow> agent outcome) \<Rightarrow> bool \<Rightarrow> managed_settings option \<Rightarrow> monitor \<Rightarrow> agent \<Rightarrow> (monitor \<times> agent) outcome" where
  "agent_stop native linked managedContext m ag =
     (let m = (if monitors managedContext then stopMonitor m else m)
      in if \<not> linked then Faults else bind_outcome (native ag) (\<lambda>ag. Returns (m, ag)))"

text \<open>The flush of this agent: its directory, its listener and its expiration period.\<close>

definition agent_flush :: "string \<Rightarrow> managed_settings option \<Rightarrow> flush_env \<Rightarrow> flush_state \<Rightarrow> flush_state" where
  "agent_flush cwd managedContext env st =
     (case managedContext of
        None \<Rightarrow> st
      | Some c \<Rightarrow>
          flushPendingReports (env\<lparr>fe_listener := ms_nativeReportListener c, fe_expirationPeriod := ms_expirationPeriod c\<rparr>)
            (map_option (absolutePath cwd) (ms_reportsDir c)) st)"

section \<open>The delegate and what reports need\<close>

definition forward :: "managed_settings \<Rightarrow> callback \<Rightarrow> callback list" where
  "forward c call = (case ms_nativeReportListener c of None \<Rightarrow> [] | Some _ \<Rightarrow> [call])"

definition onNativeCrash :: "string \<Rightarrow> managed_settings option \<Rightarrow> string \<Rightarrow> callback list" where
  "onNativeCrash cwd agentNdk crashAsString = forward (getInstance cwd agentNdk) (OnNativeCrash crashAsString)"

definition onNativeException :: "string \<Rightarrow> managed_settings option \<Rightarrow> string \<Rightarrow> callback list" where
  "onNativeException cwd agentNdk exceptionAsString = forward (getInstance cwd agentNdk) (OnNativeException exceptionAsString)"

text \<open>
  \<open>am\<close>: \<open>None\<close> when there is no activity manager or it throws, \<open>Some None\<close> when its answer is null.
\<close>

definition getProcessErrorStateInfoOrNull ::
  "managed_settings \<Rightarrow> error_info list option option \<Rightarrow> int \<Rightarrow> error_info option" where
  "getProcessErrorStateInfoOrNull c am myPid =
     (case (ms_context c, am) of
        (Some _, Some (Some infos)) \<Rightarrow> find (\<lambda>e. ei_pid e = myPid) infos
      | _ \<Rightarrow> None)"

definition extractNativeThreads :: "native_stack_trace option \<Rightarrow> native_thread_info list" where
  "extractNativeThreads tr = (case tr of Some t \<Rightarrow> ns_threads t | None \<Rightarrow> [])"

text \<open>\<open>None\<close>: the throwable is no \<open>NativeException\<close>, and the host agent extracts its threads.\<close>

definition extractThreads ::
  "native_thread_info list \<Rightarrow> native_stack_trace option option \<Rightarrow> native_thread_info list" where
  "extractThreads extracted throwable =
     (case throwable of Some tr \<Rightarrow> extractNativeThreads tr | None \<Rightarrow> extracted)"

section \<open>What a build leaves\<close>

text \<open>The argument of the last call of a kind.\<close>

definition last_arg :: "('c \<Rightarrow> 'a option) \<Rightarrow> 'c list \<Rightarrow> 'a option" where
  "last_arg f calls = fold (\<lambda>c acc. case f c of None \<Rightarrow> acc | Some a \<Rightarrow> Some a) calls None"

lemma last_arg_snoc [simp]:
  "last_arg f (calls @ [c]) = (case f c of None \<Rightarrow> last_arg f calls | Some a \<Rightarrow> Some a)"
  by (cases "f c") (simp_all add: last_arg_def)

lemma last_arg_Nil [simp]: "last_arg f [] = None"
  by (simp add: last_arg_def)

fun session_arg :: "builder_call \<Rightarrow> string option" where
  "session_arg (WithSessionId s) = Some s"
| "session_arg c = None"

fun build_arg :: "builder_call \<Rightarrow> string option" where
  "build_arg (WithBuildId s) = Some s"
| "build_arg c = None"

fun storage_arg :: "builder_call \<Rightarrow> string option option" where
  "storage_arg (WithStorageDir d) = Some d"
| "storage_arg c = None"

fun monitor_arg :: "builder_call \<Rightarrow> bool option" where
  "monitor_arg (WithANRMonitor e) = Some e"
| "monitor_arg c = None"

fun keeps_context :: "builder_call \<Rightarrow> bool" where
  "keeps_context (WithManagedContext c) = False"
| "keeps_context c = True"

lemma make_dirs_context [simp]: "bu_managedContext (make_dirs bu) = bu_managedContext bu"
  by (simp add: make_dirs_def split: option.split)

lemma set_settings_context [simp]: "bu_managedContext (set_settings f bu) = f (bu_managedContext bu)"
  by (simp add: set_settings_def)

text \<open>The directory of the reports: under the last storage root given, or else under the cache.\<close>

definition built_dir :: "string \<Rightarrow> app_context \<Rightarrow> builder_call list \<Rightarrow> string" where
  "built_dir cwd context calls =
     getNativeReportsDir cwd (case last_arg storage_arg calls of Some d \<Rightarrow> d | None \<Rightarrow> ac_cacheDir context)"

definition built_monitor :: "builder_call list \<Rightarrow> bool" where
  "built_monitor calls \<longleftrightarrow> last_arg monitor_arg calls \<noteq> Some False"

lemma built_settings:
  assumes "list_all keeps_context calls"
  shows "let c = bu_managedContext (build_agent cwd context l calls) in
    ms_sessionId c = last_arg session_arg calls \<and> ms_buildId c = last_arg build_arg calls \<and>
    ms_reportsDir c = Some (built_dir cwd context calls) \<and> ms_anrMonitor c = built_monitor calls \<and> ms_context c = Some context"
  using assms
proof (induction calls rule: rev_induct)
  case Nil
  show ?case by (simp add: build_agent_def new_builder_def new_settings_def built_dir_def built_monitor_def)
next
  case (snoc c calls)
  then show ?case
    by (cases c) (auto simp: build_agent_def built_dir_def built_monitor_def Let_def split: option.splits)
qed

section \<open>Across the native interface\<close>

text \<open>The virtual machine answers the native side's questions with these settings.\<close>

definition vm_holds :: "vm \<Rightarrow> nat \<Rightarrow> string \<Rightarrow> managed_settings \<Rightarrow> bool" where
  "vm_holds vm mc cwd c \<longleftrightarrow>
     (case ms_reportsDir c of
        None \<Rightarrow> False
      | Some dir \<Rightarrow> managed_context vm mc (Some (absolutePath cwd dir)) (ms_sessionId c) (ms_buildId c) (ms_anrMonitor c))"

text \<open>Every settings with a report directory have a virtual machine that holds them.\<close>

fun settings_vm :: "string \<Rightarrow> string option \<Rightarrow> string option \<Rightarrow> bool \<Rightarrow> vm" where
  "settings_vm path s i anr log (GetFieldID cls name sig) =
     \<lparr>ja_ref = if name = ''reportsDir'' then 31 else if name = ''sessionId'' then 32 else if name = ''buildId'' then 33 else 34,
      ja_bool = False, ja_chars = None, ja_throws = False\<rparr>"
| "settings_vm path s i anr log (GetObjectField obj f) =
     \<lparr>ja_ref = if f = 32 then (if s = None then 0 else 42) else if f = 33 then (if i = None then 0 else 43) else 41,
      ja_bool = False, ja_chars = None, ja_throws = False\<rparr>"
| "settings_vm path s i anr log (CallObjectMethod obj m args) = \<lparr>ja_ref = 44, ja_bool = False, ja_chars = None, ja_throws = False\<rparr>"
| "settings_vm path s i anr log (GetStringUTFChars obj) =
     \<lparr>ja_ref = 0, ja_bool = False, ja_chars = if obj = 42 then s else if obj = 43 then i else Some path, ja_throws = False\<rparr>"
| "settings_vm path s i anr log (GetBooleanField obj f) = \<lparr>ja_ref = 0, ja_bool = anr, ja_chars = None, ja_throws = False\<rparr>"
| "settings_vm path s i anr log c = sample_vm log c"

lemma settings_vm_reports: "has_reports_dir (settings_vm path s i anr) 20 16 (Some path)"
  unfolding has_reports_dir_def string_object_def
  by (rule exI [of _ 11], rule exI [of _ 12], rule exI [of _ 31], rule exI [of _ 41], rule exI [of _ 44]) simp

lemma settings_vm_strings:
  "has_string_field (settings_vm path s i anr) 20 16 ''sessionId'' s"
  "has_string_field (settings_vm path s i anr) 20 16 ''buildId'' i"
proof -
  show "has_string_field (settings_vm path s i anr) 20 16 ''sessionId'' s"
    unfolding has_string_field_def string_object_def
    by (rule exI [of _ 32], rule exI [of _ "if s = None then 0 else 42"]) (simp split: option.split)
  show "has_string_field (settings_vm path s i anr) 20 16 ''buildId'' i"
    unfolding has_string_field_def string_object_def
    by (rule exI [of _ 33], rule exI [of _ "if i = None then 0 else 43"]) (simp split: option.split)
qed

lemma settings_vm_context: "managed_context (settings_vm path s i anr) 20 (Some path) s i anr"
  unfolding managed_context_def using settings_vm_reports settings_vm_strings
  by (intro exI [of _ 16] exI [of _ 34]) simp

lemma settings_vm_holds:
  assumes "ms_reportsDir c = Some dir"
  shows "vm_holds (settings_vm (absolutePath cwd dir) (ms_sessionId c) (ms_buildId c) (ms_anrMonitor c)) 20 cwd c"
  by (simp add: vm_holds_def assms settings_vm_context)

lemma start_without_context:
  assumes "managed_context vm mc path session build anr" "mc \<noteq> 0" "env \<noteq> 0"
    and "\<not> j_pending (ag_jni ag) env" "mc \<notin> set (j_deleted (ag_jni ag))"
    and "context_of b path session build anr (ag_native ag) = Faults"
  shows "nativeStart b vm fs pid sc env mc ag = Faults"
proof -
  have "jsafe env {mc} (j_globals (ag_jni ag)) (ag_jni ag)" using assms(4,5) by (simp add: jsafe_def)
  from set_native_context_reads [OF assms(1-3) this, of b "ag_native ag"] assms(6) show ?thesis
    by (simp add: nativeStart_def)
qed

section \<open>Properties\<close>

text \<open>
  C5. What a build and a start make. Take an agent built by any sequence of builder calls that does
  not replace the settings, the native library loaded and linked, a virtual machine that holds the
  agent's settings, an environment without a pending exception, a task directory that can be read,
  and any state that an orderly run reaches (see \<open>Agent_System\<close>; the calls of the start itself may
  fail). Then the start depends on two of the builder calls: with a session id and a build id it
  returns true, the native side has the last of each, cut to 39 characters, the absolute path of the
  report directory under the last storage root or the cache, cut to the platform's limit, and
  monitors ANRs unless the last call about it switched that off, in which case the managed monitor
  is not started either; and when no call gave a session id, or none gave a build id, the native
  side follows a null pointer. The README promises otherwise: that both ids have a random UUID as
  their default, and that 40 characters of them are reported.
\<close>

theorem built_agent_start:
  assumes "agent_reachable b fs pid ag" "list_all keeps_context calls"
    and "c = bu_managedContext (build_agent cwd context l calls)" "vm_holds vm mc cwd c" "mc \<noteq> 0" "env \<noteq> 0"
    and "\<not> j_pending (ag_jni ag) env" "mc \<notin> set (j_deleted (ag_jni ag))" "fs_dir fs (get_task_path b pid) \<noteq> None"
  shows "case (last_arg session_arg calls, last_arg build_arg calls) of
      (Some s, Some i) \<Rightarrow>
        (\<exists>ag'. agent_start (nativeStart b vm fs pid sc env mc) True (Some c) m ag =
             Returns (True, if built_monitor calls then startMonitor m else m, ag') \<and>
           nc_sessionId (ag_native ag') = take 39 (c_str s) \<and> nc_buildId (ag_native ag') = take 39 (c_str i) \<and>
           nc_reportPathAbsolute (ag_native ag') = take (b_path_max b - 1) (c_str (absolutePath cwd (built_dir cwd context calls))) \<and>
           nc_anrMonitorEnabled (ag_native ag') = built_monitor calls)
    | _ \<Rightarrow> agent_start (nativeStart b vm fs pid sc env mc) True (Some c) m ag = Faults"
proof -
  let ?dir = "absolutePath cwd (built_dir cwd context calls)"
  let ?s = "last_arg session_arg calls" and ?i = "last_arg build_arg calls" and ?anr = "built_monitor calls"
  have c: "ms_sessionId c = ?s" "ms_buildId c = ?i" "ms_reportsDir c = Some (built_dir cwd context calls)" "ms_anrMonitor c = ?anr"
    using built_settings [OF assms(2), of cwd "context" l] by (simp_all add: assms(3) Let_def)
  have vm: "managed_context vm mc (Some ?dir) ?s ?i ?anr"
    using assms(4) by (simp add: vm_holds_def c)
  show ?thesis
  proof (cases "?s = None \<or> ?i = None")
    case True
    then have "context_of b (Some ?dir) ?s ?i ?anr (ag_native ag) = Faults"
      by (auto simp: context_of_def split: option.split)
    from start_without_context [OF vm assms(5-8) this] True show ?thesis
      by (auto simp: agent_start_def Let_def split: option.split)
  next
    case False
    then obtain s i where si: "?s = Some s" "?i = Some i" by auto
    from start_returns [OF assms(1) vm assms(5-8) _ assms(9), of _ sc]
    obtain ag' where "nativeStart b vm fs pid sc env mc ag = Returns (True, ag')"
      "nc_sessionId (ag_native ag') = take 39 (c_str s)" "nc_buildId (ag_native ag') = take 39 (c_str i)"
      "nc_reportPathAbsolute (ag_native ag') = take (b_path_max b - 1) (c_str ?dir)" "nc_anrMonitorEnabled (ag_native ag') = ?anr"
      by (auto simp: context_of_def si)
    with si show ?thesis by (auto simp: agent_start_def monitors_def c)
  qed
qed

text \<open>The application's context, the working directory of an Android process, and a build.\<close>

definition sample_app_context :: app_context where
  "sample_app_context = \<lparr>ac_cacheDir = Some ''/data/cache'', ac_nativeLibraryDir = Some ''/data/lib''\<rparr>"

definition sample_settings :: "builder_call list \<Rightarrow> managed_settings" where
  "sample_settings calls = bu_managedContext (build_agent ''/'' sample_app_context Load_ok calls)"

definition sample_settings_vm :: "builder_call list \<Rightarrow> vm" where
  "sample_settings_vm calls =
     (let c = sample_settings calls in
      settings_vm (absolutePath ''/'' (the (ms_reportsDir c))) (ms_sessionId c) (ms_buildId c) (ms_anrMonitor c))"

lemma sample_settings_held:
  assumes "list_all keeps_context calls"
  shows "vm_holds (sample_settings_vm calls) 20 ''/'' (sample_settings calls)"
proof -
  have "ms_reportsDir (sample_settings calls) = Some (built_dir ''/'' sample_app_context calls)"
    using built_settings [OF assms] by (simp add: sample_settings_def Let_def)
  then show ?thesis using settings_vm_holds by (simp add: sample_settings_vm_def Let_def)
qed

lemma sample_directory: "built_dir ''/'' sample_app_context [WithSessionId s, WithBuildId i] = ''/data/cache/newrelic/nativeReporting''"
  by (simp add: built_dir_def last_arg_def sample_app_context_def getNativeReportsDir_def absolutePath_def java_file_def)

text \<open>The sample agent after a start with the settings of a build, on 32-bit ARM, with its
  interceptors installed.\<close>

lemma sample_built_agent:
  "\<exists>ag. agent_reachable arm_build quit_fs 7 ag \<and>
     start_up 8192 sh_all_ok (loaded sample_kernel Map.empty) = Returns (ag_sh ag) \<and>
     nc_sessionId (ag_native ag) = ''abc'' \<and> nc_buildId (ag_native ag) = ''def'' \<and>
     nc_reportPathAbsolute (ag_native ag) = ''/data/cache/newrelic/nativeReporting''"
proof -
  let ?vm = "settings_vm ''/data/cache/newrelic/nativeReporting'' (Some ''abc'') (Some ''def'') False"
  have mc: "managed_context ?vm 20 (Some ''/data/cache/newrelic/nativeReporting'') (Some ''abc'') (Some ''def'') False"
    by (rule settings_vm_context)
  have nc: "context_of arm_build (Some ''/data/cache/newrelic/nativeReporting'') (Some ''abc'') (Some ''def'') False (ag_native sample_agent) =
      Returns ((ag_native sample_agent)\<lparr>nc_reportPathAbsolute := ''/data/cache/newrelic/nativeReporting'', nc_sessionId := ''abc'',
        nc_buildId := ''def'', nc_anrMonitorEnabled := False\<rparr>)"
    by (simp add: context_of_def c_str_def arm_build_def)
  obtain ag1 where ag1: "nativeStart arm_build ?vm quit_fs 7 sample_calls 1 20 sample_agent = Returns (True, ag1)"
      "nc_reportPathAbsolute (ag_native ag1) = ''/data/cache/newrelic/nativeReporting''"
      "nc_sessionId (ag_native ag1) = ''abc''" "nc_buildId (ag_native ag1) = ''def''"
    using start_returns [OF sample_agent_reachable mc _ _ sample_facts(1,2) nc sample_facts(8), where sc = sample_calls] by auto
  obtain q where sh: "signal_handler_initialize 8192 sh_all_ok (loaded sample_kernel Map.empty) = Returns (q, ag_sh ag1)"
    using nativeStart_Returns(1) [OF ag1(1)] by (auto simp: sample_calls_def sample_agent_def)
  obtain s where "signal_handler_initialize 8192 sh_all_ok (loaded sample_kernel Map.empty) = Returns (True, s)" "sh_pending s = Suc 0"
    by (simp add: initialize_ok loaded_def)
  then have pending: "sh_pending (ag_sh ag1) = Suc 0" using sh by simp
  let ?ag = "ag1\<lparr>ag_sh := install_signal_observers sh_all_ok ((ag_sh ag1)\<lparr>sh_pending := 0\<rparr>)\<rparr>"
  have "agent_step arm_build quit_fs 7 sample_agent ag1"
    by (rule agent_step.Start [OF sample_good_calls(1) ag1(1)]) (simp add: sample_agent_def anr_loaded_def)
  moreover have "agent_step arm_build quit_fs 7 ag1 ?ag"
    by (rule agent_step.Installer [OF sample_good_calls(2) pending])
  ultimately have "agent_reachable arm_build quit_fs 7 ?ag"
    using sample_agent_reachable [of arm_build quit_fs] unfolding agent_reachable_def by (meson rtranclp.rtrancl_into_rtrancl)
  moreover have "start_up 8192 sh_all_ok (loaded sample_kernel Map.empty) = Returns (ag_sh ?ag)"
    by (simp add: start_up_def sh pending)
  ultimately show ?thesis using ag1(2-4) by (intro exI [of _ ?ag]) simp
qed

theorem built_agent_start_witness:
  "(\<exists>m ag'. agent_start (nativeStart arm64_build (sample_settings_vm [WithSessionId ''abc'', WithBuildId ''def'']) quit_fs 7 sample_calls 1 20)
        True (Some (sample_settings [WithSessionId ''abc'', WithBuildId ''def''])) monitor_created sample_agent = Returns (True, m, ag') \<and>
      isRunning m \<and> nc_sessionId (ag_native ag') = ''abc'' \<and> nc_buildId (ag_native ag') = ''def'' \<and>
      nc_reportPathAbsolute (ag_native ag') = ''/data/cache/newrelic/nativeReporting'') \<and>
   agent_start (nativeStart arm64_build (sample_settings_vm [WithSessionId ''abc'']) quit_fs 7 sample_calls 1 20)
        True (Some (sample_settings [WithSessionId ''abc''])) monitor_created sample_agent = Faults"
proof -
  let ?ok = "[WithSessionId ''abc'', WithBuildId ''def'']" and ?bare = "[WithSessionId ''abc'']"
  have keeps: "list_all keeps_context ?ok" "list_all keeps_context ?bare" by simp_all
  have args: "last_arg session_arg ?ok = Some ''abc''" "last_arg build_arg ?ok = Some ''def''" "built_monitor ?ok"
    "last_arg session_arg ?bare = Some ''abc''" "last_arg build_arg ?bare = None"
    by (simp_all add: last_arg_def built_monitor_def)
  have running: "isRunning (startMonitor monitor_created)"
    by (simp add: startMonitor_def isRunning_def monitor_created_def)
  note start = built_agent_start [OF sample_agent_reachable _ sample_settings_def sample_settings_held _ _ sample_facts(1,2,8),
      where b = arm64_build and sc = sample_calls and m = monitor_created]
  show ?thesis
    using start [OF keeps(1,1)] start [OF keeps(2,2)] running
    by (simp add: args sample_directory absolutePath_def) (auto simp: c_str_def arm64_build_def)
qed

text \<open>
  C6. The native side's reports lie where the managed side looks. When the start of an agent returned,
  and its report directory has a path without null characters that fits, every crash, exception
  and ANR report is written under a name of its kind in the directory that the agent's flush lists.
\<close>

theorem reports_in_flushed_directory:
  assumes "agent_reachable b fs pid ag" "vm_holds vm mc cwd c" "mc \<noteq> 0" "env \<noteq> 0"
    and "\<not> j_pending (ag_jni ag) env" "mc \<notin> set (j_deleted (ag_jni ag))" "fs_dir fs (get_task_path b pid) \<noteq> None"
    and "ms_sessionId c = Some s" "ms_buildId c = Some i" "ms_reportsDir c = Some dir"
    and "NUL \<notin> set (absolutePath cwd dir)" "length (absolutePath cwd dir) < b_path_max b"
    and "agent_start (nativeStart b vm fs pid sc env mc) True (Some c) m ag = Returns (r, m', ag')"
    and "fe_listing e = Some names" "p \<in> set report_prefixes"
  shows "report_path (ag_native ag') t p = in_dir (absolutePath cwd dir) (report_name t p) \<and>
    agent_flush cwd (Some c) e st =
      flush_reports (e\<lparr>fe_listener := ms_nativeReportListener c, fe_expirationPeriod := ms_expirationPeriod c\<rparr>)
        (absolutePath cwd dir) names st"
proof -
  let ?dir = "absolutePath cwd dir"
  have vm: "managed_context vm mc (Some ?dir) (Some s) (Some i) (ms_anrMonitor c)"
    using assms(2) by (simp add: vm_holds_def assms(8-10))
  from start_returns [OF assms(1) vm assms(3-6) _ assms(7), of _ sc]
  obtain ag1 where "nativeStart b vm fs pid sc env mc ag = Returns (True, ag1)"
    "nc_reportPathAbsolute (ag_native ag1) = take (b_path_max b - 1) (c_str ?dir)"
    by (auto simp: context_of_def)
  then have "nc_reportPathAbsolute (ag_native ag') = ?dir"
    using assms(11-13) by (simp add: agent_start_def Let_def c_str_id)
  then show ?thesis
    using report_path_in_dir [of "ag_native ag'" p t] assms(10,11,14,15)
    by (simp add: agent_flush_def flushPendingReports_def)
qed

theorem reports_in_flushed_directory_witness:
  "\<exists>ag' :: agent. report_path (ag_native ag') sample_clock ''crash-'' =
      in_dir ''/data/cache/newrelic/nativeReporting'' (report_name sample_clock ''crash-'') \<and>
    nc_sessionId (ag_native ag') = ''abc''"
proof -
  let ?ok = "[WithSessionId ''abc'', WithBuildId ''def'']"
  let ?c = "sample_settings ?ok" and ?vm = "sample_settings_vm ?ok"
  have keeps: "list_all keeps_context ?ok" by simp
  have c: "ms_sessionId ?c = Some ''abc''" "ms_buildId ?c = Some ''def''"
      "ms_reportsDir ?c = Some ''/data/cache/newrelic/nativeReporting''"
    using built_settings [OF keeps, of "''/''" sample_app_context Load_ok]
    by (simp_all add: sample_settings_def Let_def sample_directory) (simp_all add: last_arg_def)
  note held = sample_settings_held [OF keeps]
  obtain dir where "managed_context ?vm 20 (Some dir) (Some ''abc'') (Some ''def'') (ms_anrMonitor ?c)"
    using held by (simp add: vm_holds_def c)
  from start_returns [OF sample_agent_reachable this _ _ sample_facts(1,2) _ sample_facts(8), where sc = sample_calls]
  obtain ag' where start: "nativeStart arm64_build ?vm quit_fs 7 sample_calls 1 20 sample_agent = Returns (True, ag')"
      "nc_sessionId (ag_native ag') = ''abc''"
    by (auto simp: context_of_def c_str_def)
  have "agent_start (nativeStart arm64_build ?vm quit_fs 7 sample_calls 1 20) True (Some ?c) monitor_created sample_agent =
      Returns (True, if monitors (Some ?c) then startMonitor monitor_created else monitor_created, ag')"
    by (simp add: agent_start_def start(1) del: One_nat_def)
  note place = reports_in_flushed_directory [OF sample_agent_reachable held _ _ sample_facts(1,2,8) c _ _ this,
      where e = "\<lparr>fe_listing = Some [], fe_listener = None, fe_readable = (\<lambda>_. True), fe_deletable = (\<lambda>_. True),
           fe_lastModified = (\<lambda>_. 0), fe_currentTimeMillis = 0, fe_expirationPeriod = 0\<rparr>" and names = "[]" and p = "''crash-''"
        and t = sample_clock and st = "\<lparr>fl_files = Map.empty, fl_calls = [], fl_deleteOnExit = []\<rparr>"]
  have "report_path (ag_native ag') sample_clock ''crash-'' =
      in_dir ''/data/cache/newrelic/nativeReporting'' (report_name sample_clock ''crash-'')"
    using place by (simp add: absolutePath_def arm64_build_def report_prefixes_def)
  with start(2) show ?thesis by blast
qed

end
