(* ===== verification/Anr_Race.thy ===== *)
theory Anr_Race
  imports Anr_Safety
begin

text \<open>
  SIGQUITs that overlap with each other, with a stop and with a second start (\<open>anr-handler.cpp\<close>).
  \<open>anr_interceptor\<close> is cut where it reads or writes what is shared: the flag \<open>enabled\<close>, the pointer
  \<open>reportBuffer\<close>, which it reads three times, the block the pointer leads to, the trigger and the
  semaphore. A second start replaces the watchdog's handle, and the first thread goes on.
\<close>

section \<open>The report buffer\<close>

text \<open>The pointer, the blocks that are allocated with what they hold, and the next new block.\<close>

record buffers =
  bf_current :: "nat option"
  bf_blocks :: "nat \<rightharpoonup> string"
  bf_fresh :: nat

definition no_buffers :: buffers where
  "no_buffers = \<lparr>bf_current = None, bf_blocks = Map.empty, bf_fresh = 0\<rparr>"

text \<open>\<open>new char[BACKTRACE_SZ_MAX]\<close> is not initialized: \<open>old\<close> is what the memory held.\<close>

definition alloc_buffer :: "string \<Rightarrow> buffers \<Rightarrow> buffers" where
  "alloc_buffer old bf =
     \<lparr>bf_current = Some (bf_fresh bf), bf_blocks = (bf_blocks bf)(bf_fresh bf \<mapsto> old), bf_fresh = Suc (bf_fresh bf)\<rparr>"

definition free_buffer :: "buffers \<Rightarrow> buffers" where
  "free_buffer bf =
     (case bf_current bf of
        None \<Rightarrow> bf
      | Some p \<Rightarrow> bf\<lparr>bf_blocks := (bf_blocks bf)(p := None), bf_current := None\<rparr>)"

section \<open>The stages of one interception\<close>

record quit =
  qt_info :: siginfo
  qt_context :: "mcontext option"
  qt_world :: world
  qt_time :: wall_clock
  qt_disk :: disk
  qt_posted :: bool

datatype quit_stage =
    Q_arrived
  | Q_enabled
  | Q_checked
  | Q_passed "nat option"
  | Q_collected
  | Q_trigger
  | Q_post
  | Q_left

text \<open>
  One piece of the handler's body. \<open>Q_passed\<close> holds the pointer given to \<open>collect_backtrace\<close>, which
  writes through it at the end; the serializer is given the pointer read anew. A null pointer,
  and a block that has been freed, are faults.
\<close>

fun quit_advance :: "build \<Rightarrow> quit \<Rightarrow> quit_stage \<Rightarrow> anr_state \<Rightarrow> buffers \<Rightarrow> (quit_stage \<times> anr_state \<times> buffers) outcome" where
  "quit_advance b c Q_arrived st bf = Returns (if an_enabled st then Q_enabled else Q_trigger, st, bf)"
| "quit_advance b c Q_enabled st bf = Returns (if bf_current bf \<noteq> None then Q_checked else Q_trigger, st, bf)"
| "quit_advance b c Q_checked st bf = Returns (Q_passed (bf_current bf), st, bf)"
| "quit_advance b c (Q_passed p) st bf =
     (case collect_backtrace b (qt_world c) BACKTRACE_SZ_MAX (Some (qt_info c)) (qt_context c) of
        None \<Rightarrow> Faults
      | Some (complete, buffer) \<Rightarrow>
          (case p of
             None \<Rightarrow> Faults
           | Some q \<Rightarrow>
               if bf_blocks bf q = None then Faults
               else Returns (if complete then Q_collected else Q_trigger, st, bf\<lparr>bf_blocks := (bf_blocks bf)(q \<mapsto> buffer)\<rparr>)))"
| "quit_advance b c Q_collected st bf =
     (case bf_current bf of
        None \<Rightarrow> Faults
      | Some q \<Rightarrow>
          (case bf_blocks bf q of
             None \<Rightarrow> Faults
           | Some reportBuffer \<Rightarrow>
               Returns (Q_trigger,
                 st\<lparr>an_files := from_anr (w_native (qt_world c)) (qt_time c) (qt_disk c) reportBuffer BACKTRACE_SZ_MAX (an_files st)\<rparr>,
                 bf)))"
| "quit_advance b c Q_trigger st bf = Returns (Q_post, st\<lparr>an_triggered := True\<rparr>, bf)"
| "quit_advance b c Q_post st bf =
     Returns (Q_left,
       if \<not> an_must_poll st then
         (let (ok, st) = sem_post (qt_posted c) st in if ok then st else st\<lparr>an_must_poll := True\<rparr>)
       else st, bf)"
| "quit_advance b c Q_left st bf = Returns (Q_left, st, bf)"

fun quit_alone :: "build \<Rightarrow> quit \<Rightarrow> nat \<Rightarrow> quit_stage \<Rightarrow> anr_state \<Rightarrow> buffers \<Rightarrow> (quit_stage \<times> anr_state \<times> buffers) outcome" where
  "quit_alone b c 0 s st bf = Returns (s, st, bf)"
| "quit_alone b c (Suc n) s st bf =
     bind_outcome (quit_advance b c s st bf) (\<lambda>(s, st, bf). quit_alone b c n s st bf)"

text \<open>The pointer and the flag of \<open>Anr_Handler\<close> agree, and the pointer leads to a block.\<close>

definition buffers_ok :: "anr_state \<Rightarrow> buffers \<Rightarrow> bool" where
  "buffers_ok st bf \<longleftrightarrow> (an_buffer st \<longleftrightarrow> bf_current bf \<noteq> None) \<and> (\<forall>p. bf_current bf = Some p \<longrightarrow> bf_blocks bf p \<noteq> None) \<and>
     (\<forall>p. bf_fresh bf \<le> p \<longrightarrow> bf_blocks bf p = None)"

section \<open>Interleavings\<close>

record anr_process =
  ap_module :: anr_state
  ap_buffers :: buffers
  ap_lost :: "watchdog list"
  ap_runs :: "nat \<rightharpoonup> quit \<times> quit_stage"

definition set_module :: "anr_state \<Rightarrow> anr_process \<Rightarrow> anr_process" where
  "set_module st r = r\<lparr>ap_module := st\<rparr>"

text \<open>The stages that use the buffer.\<close>

fun holds_buffer :: "quit_stage \<Rightarrow> bool" where
  "holds_buffer Q_checked = True"
| "holds_buffer (Q_passed p) = True"
| "holds_buffer Q_collected = True"
| "holds_buffer s = False"

definition buffer_in_use :: "anr_process \<Rightarrow> bool" where
  "buffer_in_use r \<longleftrightarrow> (\<exists>i c s. ap_runs r i = Some (c, s) \<and> holds_buffer s)"

text \<open>A thread that lost its handle runs the watchdog's code on its own program counter.\<close>

definition lost_step :: "bool \<Rightarrow> nat \<Rightarrow> anr_process \<Rightarrow> anr_process option" where
  "lost_step waited k r =
     (if k < length (ap_lost r) then
        map_option (\<lambda>st. r\<lparr>ap_module := st\<lparr>an_watchdog := an_watchdog (ap_module r)\<rparr>, ap_lost := (ap_lost r)[k := an_watchdog st]\<rparr>)
          (watchdog_step waited ((ap_module r)\<lparr>an_watchdog := ap_lost r ! k\<rparr>))
      else None)"

text \<open>
  The steps of \<open>anr_step\<close>, with a start allowed while a watchdog runs, its buffer a block of its
  own, and an interception in pieces. With \<open>calm\<close> a stop frees the buffer only while no
  interception uses it.
\<close>

inductive ap_step :: "bool \<Rightarrow> build \<Rightarrow> filesystem \<Rightarrow> cint \<Rightarrow> anr_process \<Rightarrow> anr_process \<Rightarrow> bool" for calm b fs pid where
  Ap_begin: "an_control (ap_module r) = Idle \<Longrightarrow> init_begin b fs pid created (ap_module r) = Returns st \<Longrightarrow>
    lost = (if created \<and> an_watchdog (ap_module r) \<noteq> W_none then [an_watchdog (ap_module r)] else []) \<Longrightarrow>
    ap_step calm b fs pid r (r\<lparr>ap_module := st, ap_lost := ap_lost r @ lost\<rparr>)"
| Ap_sem: "an_control (ap_module r) = I_sem_init \<Longrightarrow> ap_step calm b fs pid r (set_module (init_sem ok (ap_module r)) r)"
| Ap_install: "an_control (ap_module r) = I_install \<Longrightarrow> ap_step calm b fs pid r (set_module (init_install ok (ap_module r)) r)"
| Ap_alloc: "an_control (ap_module r) = I_alloc \<Longrightarrow>
    ap_step calm b fs pid r (r\<lparr>ap_module := init_alloc (ap_module r), ap_buffers := alloc_buffer old (ap_buffers r)\<rparr>)"
| Ap_enable: "an_control (ap_module r) = I_enable \<Longrightarrow> ap_step calm b fs pid r (set_module (init_enable (ap_module r)) r)"
| Ap_shutdown: "an_control (ap_module r) = Idle \<Longrightarrow> ap_step calm b fs pid r (set_module (shutdown_begin (ap_module r)) r)"
| Ap_post: "an_control (ap_module r) = S_post \<Longrightarrow> ap_step calm b fs pid r (set_module (shutdown_post ok (ap_module r)) r)"
| Ap_join: "an_control (ap_module r) = S_join \<Longrightarrow> shutdown_join (ap_module r) = Some st \<Longrightarrow>
    ap_step calm b fs pid r (set_module st r)"
| Ap_close: "an_control (ap_module r) = S_close \<Longrightarrow> \<not> calm \<or> \<not> buffer_in_use r \<Longrightarrow>
    ap_step calm b fs pid r (r\<lparr>ap_module := shutdown_close (ap_module r), ap_buffers := free_buffer (ap_buffers r)\<rparr>)"
| Ap_watchdog: "watchdog_step waited (ap_module r) = Some st \<Longrightarrow> ap_step calm b fs pid r (set_module st r)"
| Ap_lost: "lost_step waited k r = Some r' \<Longrightarrow> ap_step calm b fs pid r r'"
| Ap_arrive: "an_disp (ap_module r) = Anr_Interceptor \<Longrightarrow> ap_runs r i = None \<Longrightarrow>
    ap_step calm b fs pid r (r\<lparr>ap_runs := (ap_runs r)(i \<mapsto> (c, Q_arrived))\<rparr>)"
| Ap_piece: "ap_runs r i = Some (c, s) \<Longrightarrow> quit_advance b c s (ap_module r) (ap_buffers r) = Returns (s', st, bf) \<Longrightarrow>
    ap_step calm b fs pid r (r\<lparr>ap_module := st, ap_buffers := bf, ap_runs := (ap_runs r)(i \<mapsto> (c, s'))\<rparr>)"

definition ap_loaded :: "cint \<Rightarrow> handler \<Rightarrow> files \<Rightarrow> anr_process" where
  "ap_loaded pid h files = \<lparr>ap_module = anr_loaded pid h files, ap_buffers = no_buffers, ap_lost = [], ap_runs = Map.empty\<rparr>"

definition ap_reachable :: "bool \<Rightarrow> build \<Rightarrow> filesystem \<Rightarrow> cint \<Rightarrow> anr_process \<Rightarrow> bool" where
  "ap_reachable calm b fs pid r \<longleftrightarrow> (\<exists>h files. (ap_step calm b fs pid)\<^sup>*\<^sup>* (ap_loaded pid h files) r)"

lemma ap_reachable_induct [consumes 1, case_names load step]:
  assumes "ap_reachable calm b fs pid r"
    and "\<And>h files. P (ap_loaded pid h files)"
    and "\<And>r r'. P r \<Longrightarrow> ap_step calm b fs pid r r' \<Longrightarrow> P r'"
  shows "P r"
proof -
  obtain h files where "(ap_step calm b fs pid)\<^sup>*\<^sup>* (ap_loaded pid h files) r"
    using assms(1) by (auto simp: ap_reachable_def)
  then show ?thesis by (induction rule: rtranclp_induct) (auto intro: assms(2,3))
qed

section \<open>Alone, the pieces are the interceptor\<close>

lemma collect_with_siginfo: "\<exists>ok buf. collect_backtrace b w n (Some si) uc = Some (ok, buf)"
  by (simp add: collect_backtrace_def Let_def)

text \<open>
  The cut is faithful: an interception that meets no other step ends after seven pieces, in the
  state of \<open>anr_interceptor\<close>, with the pointer to the buffer unchanged.
\<close>

lemma alone_is_anr_interceptor:
  assumes "buffers_ok st bf"
  shows "\<exists>bf'. quit_alone b c 7 Q_arrived st bf = Returns (Q_left,
      anr_interceptor b (qt_world c) (qt_time c) (qt_disk c) (qt_posted c) (qt_info c) (qt_context c) st, bf') \<and>
    buffers_ok st bf' \<and> bf_current bf' = bf_current bf"
proof (cases "an_enabled st \<and> an_buffer st")
  case False
  then show ?thesis
    using assms by (auto simp: numeral_eq_Suc anr_interceptor_def buffers_ok_def Let_def)
next
  case True
  then obtain p old where p: "bf_current bf = Some p" "bf_blocks bf p = Some old"
    using assms by (auto simp: buffers_ok_def)
  obtain ok buf where cb: "collect_backtrace b (qt_world c) BACKTRACE_SZ_MAX (Some (qt_info c)) (qt_context c) = Some (ok, buf)"
    using collect_with_siginfo by blast
  have "p < bf_fresh bf" using assms p(2) by (auto simp: buffers_ok_def not_less [symmetric])
  then have "buffers_ok st (bf\<lparr>bf_blocks := (bf_blocks bf)(p \<mapsto> buf)\<rparr>)"
    using assms p by (auto simp: buffers_ok_def)
  then show ?thesis
    using True p by (intro exI [of _ "bf\<lparr>bf_blocks := (bf_blocks bf)(p \<mapsto> buf)\<rparr>"])
      (cases ok; simp add: numeral_eq_Suc cb anr_interceptor_def Let_def)
qed

section \<open>The buffer stays as long as it is used\<close>

fun stage_ok :: "buffers \<Rightarrow> quit_stage \<Rightarrow> bool" where
  "stage_ok bf Q_checked \<longleftrightarrow> bf_current bf \<noteq> None"
| "stage_ok bf (Q_passed p) \<longleftrightarrow> bf_current bf \<noteq> None \<and> (\<exists>q. p = Some q \<and> bf_blocks bf q \<noteq> None)"
| "stage_ok bf Q_collected \<longleftrightarrow> bf_current bf \<noteq> None"
| "stage_ok bf s \<longleftrightarrow> True"

definition buffer_inv :: "anr_process \<Rightarrow> bool" where
  "buffer_inv r \<longleftrightarrow> buffers_ok (ap_module r) (ap_buffers r) \<and>
     (\<forall>i c s. ap_runs r i = Some (c, s) \<longrightarrow> stage_ok (ap_buffers r) s)"

text \<open>Steps that leave the buffer alone.\<close>

lemma buffer_inv_frame:
  assumes "buffer_inv r" "an_buffer (ap_module r') = an_buffer (ap_module r)" "ap_buffers r' = ap_buffers r" "ap_runs r' = ap_runs r"
  shows "buffer_inv r'"
  using assms by (simp add: buffer_inv_def buffers_ok_def)

lemma stage_ok_free: "\<not> holds_buffer s \<Longrightarrow> stage_ok bf s"
  by (cases s) simp_all

lemma stage_ok_alloc:
  "buffers_ok st bf \<Longrightarrow> stage_ok bf s \<Longrightarrow> stage_ok (alloc_buffer old bf) s"
  by (cases s) (auto simp: alloc_buffer_def)

lemma stage_ok_blocks:
  "stage_ok bf s \<Longrightarrow> stage_ok (bf\<lparr>bf_blocks := (bf_blocks bf)(q \<mapsto> t)\<rparr>) s"
  by (cases s) auto

lemma buffers_ok_alloc: "buffers_ok st bf \<Longrightarrow> buffers_ok (init_alloc st) (alloc_buffer old bf)"
  by (simp add: buffers_ok_def alloc_buffer_def init_alloc_def)

lemma buffers_ok_free: "buffers_ok st bf \<Longrightarrow> buffers_ok (shutdown_close st) (free_buffer bf)"
  by (auto simp: buffers_ok_def free_buffer_def shutdown_close_def reset_android_anr_handler_def split: option.split)

text \<open>A piece keeps the pointer and every block, and its own next stage may use them.\<close>

lemma quit_advance_buffers:
  assumes "quit_advance b c s st bf = Returns (s', st', bf')" "buffers_ok st bf" "stage_ok bf s"
  shows "an_buffer st' = an_buffer st" "buffers_ok st bf'" "stage_ok bf' s'" "stage_ok bf t \<Longrightarrow> stage_ok bf' t"
proof -
  have fresh: "p < bf_fresh bf" if "bf_blocks bf p = Some x" for p x
    using assms(2) that by (auto simp: buffers_ok_def not_less [symmetric])
  show "an_buffer st' = an_buffer st"
    using assms(1) by (cases s) (auto simp: sem_post_def Let_def split: option.splits if_splits)
  show "buffers_ok st bf'"
    using assms fresh by (cases s) (auto simp: buffers_ok_def split: option.splits if_splits prod.splits)
  show "stage_ok bf' s'"
    using assms by (cases s) (auto simp: buffers_ok_def split: option.splits if_splits)
  show "stage_ok bf' t" if "stage_ok bf t"
    using assms(1) that by (cases s) (auto simp: stage_ok_blocks split: option.splits if_splits)
qed

lemma quit_advance_runs:
  assumes "buffers_ok st bf" "stage_ok bf s"
  shows "\<exists>x. quit_advance b c s st bf = Returns x"
proof (cases s)
  case (Q_passed p)
  obtain ok buf where "collect_backtrace b (qt_world c) BACKTRACE_SZ_MAX (Some (qt_info c)) (qt_context c) = Some (ok, buf)"
    using collect_with_siginfo by blast
  with Q_passed assms(2) show ?thesis by auto
qed (use assms in \<open>auto simp: buffers_ok_def\<close>)

lemma init_begin_buffer:
  assumes "init_begin b fs pid created st = Returns st'"
  shows "an_buffer st' = an_buffer st"
  using init_begin_Returns [OF assms] by (cases created) auto

lemma buffer_inv_step: "ap_step True b fs pid r r' \<Longrightarrow> buffer_inv r \<Longrightarrow> buffer_inv r'"
proof (induction rule: ap_step.induct)
  case (Ap_begin r created st lost)
  then have "an_buffer st = an_buffer (ap_module r)" using init_begin_buffer by blast
  then show ?case by (intro buffer_inv_frame [OF Ap_begin(4)]) simp_all
next
  case (Ap_alloc r old)
  then show ?case by (auto simp: buffer_inv_def buffers_ok_alloc stage_ok_alloc)
next
  case (Ap_join r st)
  then have "an_buffer st = an_buffer (ap_module r)" by (auto simp: shutdown_join_def split: if_splits)
  then show ?case by (intro buffer_inv_frame [OF Ap_join(3)]) (simp_all add: set_module_def)
next
  case (Ap_close r)
  then have "\<not> holds_buffer s" if "ap_runs r i = Some (c, s)" for i c s
    using that by (auto simp: buffer_in_use_def)
  then show ?case using Ap_close(3) by (auto simp: buffer_inv_def buffers_ok_free stage_ok_free)
next
  case (Ap_watchdog waited r st)
  then show ?case by (intro buffer_inv_frame [OF Ap_watchdog(2)]) (simp_all add: set_module_def watchdog_step_frame(8))
next
  case (Ap_lost waited k r r')
  then show ?case
    by (intro buffer_inv_frame [OF Ap_lost(2)]) (auto simp: lost_step_def dest!: watchdog_step_frame(8) split: if_splits)
next
  case (Ap_arrive r i c)
  then show ?case by (simp add: buffer_inv_def)
next
  case (Ap_piece r i c s s' st bf)
  then have s: "buffers_ok (ap_module r) (ap_buffers r)" "stage_ok (ap_buffers r) s" by (auto simp: buffer_inv_def)
  note piece = quit_advance_buffers [OF Ap_piece(2) s]
  show ?case using piece Ap_piece(3) by (auto simp: buffer_inv_def buffers_ok_def)
qed (auto elim!: buffer_inv_frame simp: set_module_def anr_control_defs Let_def)

lemma buffer_inv_reachable: "ap_reachable True b fs pid r \<Longrightarrow> buffer_inv r"
proof (induction rule: ap_reachable_induct)
  case (load h files)
  show ?case
    by (simp add: ap_loaded_def anr_loaded_def no_buffers_def buffer_inv_def buffers_ok_def)
qed (rule buffer_inv_step)

section \<open>Runs from the load\<close>

lemma ap_reachable_step: "ap_reachable calm b fs pid r \<Longrightarrow> ap_step calm b fs pid r r' \<Longrightarrow> ap_reachable calm b fs pid r'"
  unfolding ap_reachable_def by (meson rtranclp.rtrancl_into_rtrancl)

lemma ap_reachable_loaded: "ap_reachable calm b fs pid (ap_loaded pid h files)"
  unfolding ap_reachable_def by blast

text \<open>A start that goes through, with the handle of the watchdog that it replaces lost.\<close>

definition started_module :: "cint \<Rightarrow> anr_state \<Rightarrow> anr_state" where
  "started_module tid st =
     st\<lparr>an_monitor_tid := tid, an_has_thread := True, an_watchdog := W_head, an_sem := 0, an_must_poll := False,
        an_disp := Anr_Interceptor, an_buffer := True, an_enabled := True, an_control := Idle\<rparr>"

definition started_process :: "cint \<Rightarrow> string \<Rightarrow> anr_process \<Rightarrow> anr_process" where
  "started_process tid old r =
     r\<lparr>ap_module := started_module tid (ap_module r), ap_buffers := alloc_buffer old (ap_buffers r),
       ap_lost := ap_lost r @ (if an_watchdog (ap_module r) \<noteq> W_none then [an_watchdog (ap_module r)] else [])\<rparr>"

lemma start_reachable:
  assumes reach: "ap_reachable calm b fs pid r" and idle: "an_control (ap_module r) = Idle"
    and found: "detect_android_anr_handler b fs pid (an_monitor_tid (ap_module r)) = Returns (f, tid)"
  shows "ap_reachable calm b fs pid (started_process tid old r)"
proof -
  define st where "st = (ap_module r)\<lparr>an_monitor_tid := tid, an_has_thread := True, an_watchdog := W_head, an_control := I_sem_init\<rparr>"
  define lost where "lost = (if True \<and> an_watchdog (ap_module r) \<noteq> W_none then [an_watchdog (ap_module r)] else [])"
  define r1 where "r1 = r\<lparr>ap_module := st, ap_lost := ap_lost r @ lost\<rparr>"
  define r2 where "r2 = set_module (init_install True (init_sem True st)) r1"
  define r3 where "r3 = r2\<lparr>ap_module := init_alloc (ap_module r2), ap_buffers := alloc_buffer old (ap_buffers r2)\<rparr>"
  note defs = r3_def r2_def r1_def st_def set_module_def anr_control_defs
  have begun: "init_begin b fs pid True (ap_module r) = Returns st"
    using found by (simp add: init_begin_def st_def)
  have r1: "ap_reachable calm b fs pid r1"
    unfolding r1_def by (rule ap_reachable_step [OF reach Ap_begin [OF idle begun lost_def]])
  have "ap_reachable calm b fs pid (set_module (init_sem True st) r1)"
    using ap_reachable_step [OF r1 Ap_sem [of r1 calm b fs pid True]] by (simp add: r1_def st_def)
  then have r2: "ap_reachable calm b fs pid r2"
    unfolding r2_def
    by (rule ap_reachable_step) (use Ap_install [of "set_module (init_sem True st) r1" calm b fs pid True] in \<open>simp add: set_module_def init_sem_def\<close>)
  have r3: "ap_reachable calm b fs pid r3"
    unfolding r3_def by (rule ap_reachable_step [OF r2 Ap_alloc]) (simp add: r2_def set_module_def init_install_def)
  have "ap_reachable calm b fs pid (set_module (init_enable (ap_module r3)) r3)"
    by (rule ap_reachable_step [OF r3 Ap_enable]) (simp add: r3_def init_alloc_def)
  moreover have "set_module (init_enable (ap_module r3)) r3 = started_process tid old r"
    by (simp add: defs started_process_def started_module_def lost_def)
  ultimately show ?thesis by simp
qed

lemma watchdog_reachable:
  "ap_reachable calm b fs pid r \<Longrightarrow> watchdog_step waited (ap_module r) = Some st \<Longrightarrow> ap_reachable calm b fs pid (set_module st r)"
  by (blast intro: ap_reachable_step Ap_watchdog)

lemma stop_begun_reachable:
  assumes "ap_reachable calm b fs pid r" "an_control (ap_module r) = Idle"
  shows "ap_reachable calm b fs pid (set_module (shutdown_post ok (shutdown_begin (ap_module r))) r)"
proof -
  have "ap_reachable calm b fs pid (set_module (shutdown_begin (ap_module r)) r)"
    by (rule ap_reachable_step [OF assms(1) Ap_shutdown [OF assms(2)]])
  then show ?thesis
    by (rule ap_reachable_step)
      (use Ap_post [of "set_module (shutdown_begin (ap_module r)) r" calm b fs pid ok] in \<open>simp add: set_module_def shutdown_begin_def\<close>)
qed

lemma arrival_reachable:
  "ap_reachable calm b fs pid r \<Longrightarrow> an_disp (ap_module r) = Anr_Interceptor \<Longrightarrow> ap_runs r i = None \<Longrightarrow>
    ap_reachable calm b fs pid (r\<lparr>ap_runs := (ap_runs r)(i \<mapsto> (c, Q_arrived))\<rparr>)"
  by (blast intro: ap_reachable_step Ap_arrive)

lemma piece_reachable:
  "ap_reachable calm b fs pid r \<Longrightarrow> ap_runs r i = Some (c, s) \<Longrightarrow>
    quit_advance b c s (ap_module r) (ap_buffers r) = Returns (s', ap_module r, ap_buffers r) \<Longrightarrow>
    ap_reachable calm b fs pid (r\<lparr>ap_runs := (ap_runs r)(i \<mapsto> (c, s'))\<rparr>)"
  using ap_reachable_step [OF _ Ap_piece] by fastforce

text \<open>An interception comes to hold the pointer: it arrives and finds the module enabled.\<close>

lemma passed_reachable:
  assumes "ap_reachable calm b fs pid r" "ap_runs r i = None"
    and "an_disp (ap_module r) = Anr_Interceptor" "an_enabled (ap_module r)" "bf_current (ap_buffers r) = Some q"
  shows "ap_reachable calm b fs pid (r\<lparr>ap_runs := (ap_runs r)(i \<mapsto> (c, Q_passed (Some q)))\<rparr>)"
proof -
  let ?at = "\<lambda>s. r\<lparr>ap_runs := (ap_runs r)(i \<mapsto> (c, s))\<rparr>"
  have "ap_reachable calm b fs pid (?at Q_arrived)"
    by (rule arrival_reachable [OF assms(1,3,2)])
  then have "ap_reachable calm b fs pid (?at Q_enabled)"
    using piece_reachable [of calm b fs pid "?at Q_arrived" i c Q_arrived Q_enabled] assms by simp
  then have "ap_reachable calm b fs pid (?at Q_checked)"
    using piece_reachable [of calm b fs pid "?at Q_enabled" i c Q_enabled Q_checked] assms by simp
  then show ?thesis
    using piece_reachable [of calm b fs pid "?at Q_checked" i c Q_checked "Q_passed (Some q)"] assms by simp
qed

text \<open>A stop whose watchdog has not yet looked at \<open>enabled\<close>, up to the free.\<close>

lemma stop_reachable:
  assumes reach: "ap_reachable False b fs pid r" and st: "an_control (ap_module r) = Idle"
    "an_has_thread (ap_module r)" "an_watchdog (ap_module r) = W_head"
  shows "\<exists>st. an_control st = Idle \<and>
    ap_reachable False b fs pid (r\<lparr>ap_module := st, ap_buffers := free_buffer (ap_buffers r)\<rparr>)"
proof -
  define m where "m = shutdown_post True (shutdown_begin (ap_module r))"
  define r1 where "r1 = set_module (m\<lparr>an_watchdog := W_stopped\<rparr>) r"
  define r2 where "r2 = set_module (m\<lparr>an_has_thread := False, an_watchdog := W_none, an_control := S_close\<rparr>) r"
  have m: "an_control m = S_join" "an_watchdog m = W_head" "\<not> an_enabled m"
    using st by (simp_all add: m_def anr_control_defs Let_def)
  have "ap_reachable False b fs pid (set_module m r)"
    unfolding m_def by (rule stop_begun_reachable [OF reach st(1)])
  then have r1: "ap_reachable False b fs pid r1"
    using watchdog_reachable [of False b fs pid "set_module m r" True] m by (simp add: r1_def set_module_def watchdog_step_simps)
  have "ap_step False b fs pid r1 r2"
    using Ap_join [of r1 "ap_module r2" False b fs pid] m(1) by (simp add: r1_def r2_def set_module_def shutdown_join_def)
  then have r2: "ap_reachable False b fs pid r2" by (rule ap_reachable_step [OF r1])
  have "ap_step False b fs pid r2 (r2\<lparr>ap_module := shutdown_close (ap_module r2), ap_buffers := free_buffer (ap_buffers r2)\<rparr>)"
    by (rule Ap_close) (simp_all add: r2_def set_module_def)
  from ap_reachable_step [OF r2 this] show ?thesis
    by (intro exI [of _ "shutdown_close (ap_module r2)"]) (simp add: r2_def set_module_def shutdown_close_def reset_android_anr_handler_def)
qed

text \<open>
  The state of a stop after two starts: the watchdog whose handle was lost took the stop's post, the
  other one waits for a post of its own.
\<close>

definition stop_hung :: "anr_process \<Rightarrow> bool" where
  "stop_hung r \<longleftrightarrow> an_control (ap_module r) = S_join \<and> an_watchdog (ap_module r) = W_sem \<and> an_sem (ap_module r) = 0 \<and>
     ap_lost r = [W_stopped] \<and> ap_runs r = Map.empty"

lemma stop_hung_steps:
  assumes "ap_step calm b fs pid r r'" "stop_hung r"
  shows "(\<exists>i c. r' = r\<lparr>ap_runs := [i \<mapsto> (c, Q_arrived)]\<rparr>) \<or> (\<exists>st. watchdog_step False (ap_module r) = Some st \<and> r' = set_module st r)"
  using assms
proof (induction rule: ap_step.induct)
  case (Ap_join r st)
  then show ?case by (simp add: stop_hung_def shutdown_join_def)
next
  case (Ap_watchdog waited r st)
  then show ?case by (cases waited) (auto simp: stop_hung_def watchdog_step_simps)
next
  case (Ap_lost waited k r r')
  then show ?case by (auto simp: stop_hung_def lost_step_def watchdog_step_simps split: if_splits)
next
  case (Ap_arrive r i c)
  then have "(ap_runs r)(i \<mapsto> (c, Q_arrived)) = [i \<mapsto> (c, Q_arrived)]" by (simp add: stop_hung_def)
  then show ?case by metis
qed (simp_all add: stop_hung_def)

lemma detect_again:
  "detect_android_anr_handler b fs pid t = Returns x \<Longrightarrow> \<exists>f tid. detect_android_anr_handler b fs pid u = Returns (f, tid)"
  by (auto simp: detect_android_anr_handler_def Let_def split: option.splits)

lemma lost_reachable:
  "ap_reachable calm b fs pid r \<Longrightarrow> lost_step waited k r = Some r' \<Longrightarrow> ap_reachable calm b fs pid r'"
  by (blast intro: ap_reachable_step Ap_lost)

text \<open>A started watchdog comes to wait; a lost one that waits takes a post and ends.\<close>

lemma waiting_reachable:
  assumes "ap_reachable calm b fs pid r" "an_watchdog (ap_module r) = W_head" "an_enabled (ap_module r)" "\<not> an_must_poll (ap_module r)"
  shows "ap_reachable calm b fs pid (set_module ((ap_module r)\<lparr>an_triggered := False, an_watchdog := W_sem\<rparr>) r)"
proof -
  have "ap_reachable calm b fs pid (set_module ((ap_module r)\<lparr>an_triggered := False, an_watchdog := W_wait\<rparr>) r)"
    by (rule watchdog_reachable [OF assms(1), where waited = True]) (simp add: watchdog_step_simps assms)
  then show ?thesis
    using watchdog_reachable [of calm b fs pid "set_module ((ap_module r)\<lparr>an_triggered := False, an_watchdog := W_wait\<rparr>) r" True]
    by (simp add: watchdog_step_simps set_module_def assms)
qed

lemma lost_takes_post:
  assumes reach: "ap_reachable calm b fs pid r" and lost: "ap_lost r = [W_sem]"
    and st: "an_sem (ap_module r) = 1" "\<not> an_enabled (ap_module r)"
  shows "ap_reachable calm b fs pid (r\<lparr>ap_module := (ap_module r)\<lparr>an_sem := 0\<rparr>, ap_lost := [W_stopped]\<rparr>)"
proof -
  let ?at = "\<lambda>w. r\<lparr>ap_module := (ap_module r)\<lparr>an_sem := 0\<rparr>, ap_lost := [w]\<rparr>"
  have "lost_step True 0 r = Some (?at W_raise)"
    by (simp add: lost_step_def watchdog_step_simps lost st)
  with reach have "ap_reachable calm b fs pid (?at W_raise)" by (rule lost_reachable)
  moreover have "lost_step True 0 (?at W_raise) = Some (?at W_unblock)"
    by (simp add: lost_step_def watchdog_step_simps st)
  ultimately have "ap_reachable calm b fs pid (?at W_unblock)" by (rule lost_reachable)
  moreover have "lost_step True 0 (?at W_unblock) = Some (?at W_head)"
    by (simp add: lost_step_def watchdog_step_simps)
  ultimately have "ap_reachable calm b fs pid (?at W_head)" by (rule lost_reachable)
  moreover have "lost_step True 0 (?at W_head) = Some (?at W_stopped)"
    by (simp add: lost_step_def watchdog_step_simps st)
  ultimately show ?thesis by (rule lost_reachable)
qed

text \<open>A SIGQUIT from the system, and a disk with room.\<close>

definition quit_example :: quit where
  "quit_example =
     \<lparr>qt_info = \<lparr>si_signo = 3, si_code = 0, si_addr = 0\<rparr>, qt_context = None, qt_world = sample_world,
      qt_time = \<lparr>tm_year = 2024, tm_mon = 1, tm_mday = 2, tm_hour = 3, tm_min = 4, tm_sec = 5, tm_ms = 6\<rparr>,
      qt_disk = \<lparr>d_open = (\<lambda>_. True), d_room = (\<lambda>_. BACKTRACE_SZ_MAX)\<rparr>, qt_posted = True\<rparr>"

section \<open>Properties\<close>

text \<open>
  C26. As long as no stop frees the report buffer under an interception, no interleaving of SIGQUITs,
  of starts, second starts among them, and of stops, and no failure of the system's calls makes the
  interceptor follow a null or freed pointer: every piece of every interception runs.
\<close>

theorem buffer_survives_when_calm:
  assumes "ap_reachable True b fs pid r" "ap_runs r i = Some (c, s)"
  shows "\<exists>x. quit_advance b c s (ap_module r) (ap_buffers r) = Returns x"
proof -
  have "buffer_inv r" by (rule buffer_inv_reachable [OF assms(1)])
  with assms(2) show ?thesis by (intro quit_advance_runs) (auto simp: buffer_inv_def)
qed

theorem buffer_survives_when_calm_witness:
  "\<exists>r x. ap_reachable True arm64_build quit_fs 7 r \<and> ap_runs r 0 = Some (quit_example, Q_passed (Some 0)) \<and>
     quit_advance arm64_build quit_example (Q_passed (Some 0)) (ap_module r) (ap_buffers r) = Returns x"
proof -
  define r0 where "r0 = started_process 9 [] (ap_loaded 7 SIG_DFL Map.empty)"
  define r1 where "r1 = r0\<lparr>ap_runs := (ap_runs r0)(0 \<mapsto> (quit_example, Q_passed (Some 0)))\<rparr>"
  note defs = r0_def started_process_def started_module_def ap_loaded_def anr_loaded_def no_buffers_def alloc_buffer_def
  have "ap_reachable True arm64_build quit_fs 7 r0"
    unfolding r0_def by (rule start_reachable [OF ap_reachable_loaded]) (use quit_fs_detects in \<open>simp_all add: ap_loaded_def anr_loaded_def\<close>)
  then have r1: "ap_reachable True arm64_build quit_fs 7 r1"
    unfolding r1_def by (rule passed_reachable) (simp_all add: defs)
  have at: "ap_runs r1 0 = Some (quit_example, Q_passed (Some 0))" by (simp add: r1_def)
  show ?thesis using buffer_survives_when_calm [OF r1 at] r1 at by blast
qed

text \<open>
  C27. A stop frees the buffer under an interception: wherever detection succeeds, a SIGQUIT that has
  passed its check of the pointer when the application stops the agent writes its report through a
  pointer to freed memory.
\<close>

theorem stop_frees_buffer_in_use:
  assumes "detect_android_anr_handler b fs pid (-1) = Returns (found, tid)"
  shows "\<exists>r i q. ap_reachable False b fs pid r \<and> an_control (ap_module r) = Idle \<and>
    ap_runs r i = Some (c, Q_passed (Some q)) \<and> bf_blocks (ap_buffers r) q = None \<and>
    quit_advance b c (Q_passed (Some q)) (ap_module r) (ap_buffers r) = Faults"
proof -
  define r0 where "r0 = started_process tid [] (ap_loaded pid SIG_DFL Map.empty)"
  define r1 where "r1 = r0\<lparr>ap_runs := [0 \<mapsto> (c, Q_passed (Some 0))]\<rparr>"
  note defs = r0_def started_process_def started_module_def ap_loaded_def anr_loaded_def no_buffers_def alloc_buffer_def
  have "ap_reachable False b fs pid r0"
    unfolding r0_def by (rule start_reachable [OF ap_reachable_loaded]) (use assms in \<open>simp_all add: ap_loaded_def anr_loaded_def\<close>)
  from passed_reachable [OF this, of 0 0 c] have "ap_reachable False b fs pid r1"
    by (simp add: r1_def defs)
  from stop_reachable [OF this] obtain st where "an_control st = Idle"
    "ap_reachable False b fs pid (r1\<lparr>ap_module := st, ap_buffers := free_buffer (ap_buffers r1)\<rparr>)"
    by (auto simp: r1_def defs)
  moreover obtain ok buf where "collect_backtrace b (qt_world c) BACKTRACE_SZ_MAX (Some (qt_info c)) (qt_context c) = Some (ok, buf)"
    using collect_with_siginfo by blast
  ultimately show ?thesis
    by (intro exI [of _ "r1\<lparr>ap_module := st, ap_buffers := free_buffer (ap_buffers r1)\<rparr>"] exI [of _ 0])
      (simp add: r1_def defs free_buffer_def)
qed

theorem stop_frees_buffer_in_use_witness:
  "\<exists>r i q. ap_reachable False arm64_build quit_fs 7 r \<and> ap_runs r i = Some (quit_example, Q_passed (Some q)) \<and>
     quit_advance arm64_build quit_example (Q_passed (Some q)) (ap_module r) (ap_buffers r) = Faults"
  using stop_frees_buffer_in_use [OF quit_fs_detects] by blast

text \<open>
  Two SIGQUITs on two threads share the buffer: when the second one collects between the first one's
  collecting and its saving, the first one's file gets the second one's report.
\<close>

theorem overlapping_quits_mix_reports:
  assumes "bf_current bf = Some q" "bf_blocks bf q \<noteq> None"
    and "collect_backtrace b (qt_world c2) BACKTRACE_SZ_MAX (Some (qt_info c2)) (qt_context c2) = Some (True, second)"
  shows "\<exists>bf'. quit_advance b c2 (Q_passed (Some q)) st bf = Returns (Q_collected, st, bf') \<and>
    quit_advance b c1 Q_collected st bf' = Returns (Q_trigger,
      st\<lparr>an_files := from_anr (w_native (qt_world c1)) (qt_time c1) (qt_disk c1) second BACKTRACE_SZ_MAX (an_files st)\<rparr>, bf')"
  using assms by simp



end
