(* ===== verification/Spec2Isabelle.thy ===== *)
theory Spec2Isabelle
  imports Sample_App Report_Limits Signal_Race Managed_Reader Report_Flush Managed_Agent Anr_Race
begin

text \<open>
  A model of the native half of the agent (\<open>src/agent-ndk/src/main/cpp\<close>): a library that an
  Android application loads, that intercepts fatal signals and SIGQUIT, collects a report of the
  process as JSON and leaves it in a file for the next start of the application.

  \<^bold>\<open>Parts, in the order a report goes through them.\<close>
  \<^item> \<open>Ndk_Prelude\<close>, \<open>C_Library\<close>, \<open>C_Format\<close>: machine types, calls that return, block or fault, the
    C string functions and the \<open>printf\<close> conversions the sources use. A string is its characters;
    an array is what it holds before its terminator; the size of the format buffer is 2048.
  \<^item> \<open>Agent_Config\<close> (\<open>include/agent-ndk.h\<close>, \<open>get_arch\<close>, \<open>arch_is_32b\<close>): limits, the ABI as a record
    \<open>build\<close>, and the register contexts of the four ABIs.
  \<^item> \<open>Unwinder\<close> (\<open>unwinder.cpp\<close>, the structs of \<open>backtrace.h\<close>): the platform unwinder is the list of
    instruction pointers it reports, \<open>dladdr\<close> and the demangler are parameters. The frame array is
    shown to compute a walk over a list, never to be overrun, and to hold the crashed stack.
  \<^item> \<open>Procfs\<close> (\<open>procfs.cpp\<close>) and \<open>Thread_State\<close> (the thread half of \<open>backtrace.cpp\<close>): the file system is a
    parameter; a stat line as the kernel prints it is read back, and the collected list is bounded.
  \<^item> \<open>Native_Context\<close>, \<open>Emitter\<close> (\<open>emitter.cpp\<close>): the report text. \<open>Json_Spec\<close> is an independent JSON
    datatype, printer and parser (its fuel, twice the length of the input, is shown to be enough),
    and \<open>Emitter_Spec\<close> shows that the emitter prints a document of its fields, register mistakes included.
  \<^item> \<open>Backtrace_Collect\<close> (\<open>collect_backtrace\<close>): all of the above at once; a report of at most 100
    threads takes at most 340000 bytes, the buffer has 1048576. \<open>Report_Limits\<close>: what is lost.
  \<^item> \<open>Serializer\<close> (\<open>serializer.cpp\<close>): the disk is a map from paths to contents; the interface the
    handlers rely on is the locale \<open>report_store\<close>, interpreted for the three kinds of report.
  \<^item> \<open>Signal_Utils\<close> (\<open>signal-utils.cpp\<close>), \<open>Signal_Handler\<close> and \<open>Signal_Safety\<close> (\<open>signal-handler.cpp\<close>): the
    kernel's signal table, the alternate stack, the interceptor and its chaining. Operations are
    atomic steps of \<open>sh_step\<close>; the installer thread is a pending step of its own. \<open>Signal_Race\<close> cuts
    the interceptor at its accesses to shared state and interleaves any number of activations:
    seven pieces are enough for one, and alone they are the interceptor.
  \<^item> \<open>Anr_Handler\<close> and \<open>Anr_Safety\<close> (\<open>anr-handler.cpp\<close>): detection of the runtime's thread, the SIGQUIT
    interceptor and the watchdog. Start, stop and watchdog are cut at their blocking and publishing
    points and interleaved by \<open>anr_step\<close>; five steps of the watchdog are enough for a stop. \<open>Anr_Race\<close>
    goes further: the report buffer is memory that is allocated and freed, SIGQUITs overlap in
    pieces (seven are one interception), and a second start leaves a watchdog without a handle.
  \<^item> \<open>Terminate_Handler\<close> (\<open>terminate-handler.cpp\<close>): the runtime's two handler slots.
  \<^item> \<open>Jni_Env\<close> (\<open>jni/jni.cpp\<close>): the virtual machine is a function from the calls so far and a call to
    its answer; the rules of the JNI specification on pending exceptions and deleted references are
    in \<open>jni_call\<close>, where breaking them is a fault. The contract of the wrappers is the locale
    \<open>jni_wrapper\<close>, extended by \<open>object_wrapper\<close>, and interpreted for every wrapper.
  \<^item> \<open>Jni_Delegate\<close> (\<open>jni/jni-delegate.cpp\<close>), \<open>Managed_Context\<close> (\<open>jni/native-context.cpp\<close>, the load
    hooks): binding the managed delegate, passing a report to it on a detached worker thread, and
    reading the managed context.
  \<^item> \<open>Agent_Entry\<close> (\<open>agent-ndk.cpp\<close>): start, stop, stack dump and the other exports, over the states of
    all components. \<open>Agent_System\<close>: the agent in its process, a step relation over the entry points,
    the installer, the signals, the watchdog and the application's own handlers; each step is
    a run of \<open>sh_step\<close> and \<open>anr_step\<close>, so the components' invariants hold in every state of the agent.
  \<^item> \<open>Sample_App\<close>, \<open>Sample_Procfs\<close> (\<open>samples/.../native-lib.cpp\<close>, \<open>procfs.cpp\<close>): the deliberate crashes
    of the sample, and its readers at the level of their buffers.
  \<^item> The managed side, \<open>src/main/java/.../ndk\<close>.
    \<open>Report_Flush\<close> (\<open>AgentNDK.kt\<close>): the report directory at the next start. \<open>Managed_Reader\<close>
    (\<open>NativeStackTrace.kt\<close>, \<open>NativeThreadInfo.kt\<close>, \<open>NativeStackFrame.kt\<close>, \<open>NativeException.kt\<close>): the report
    read back; \<open>org.json\<close> is a parameter with its documented laws as the locale \<open>org_json\<close>.
    \<open>Anr_Monitor\<close> (\<open>ANRMonitor.kt\<close>, \<open>JVMDelegate.kt\<close>): the managed ANR detection, round by round, the
    life of its task, and the report that is retried at most ten times. \<open>Managed_Agent\<close> (\<open>AgentNDK.kt\<close>,
    \<open>ManagedContext.kt\<close>, \<open>JVMDelegate.kt\<close>, \<open>NativeCrash.kt\<close>): the builder, and the start and stop that hand its
    settings to the native side; \<open>vm_holds\<close> ties the settings to what the virtual machine answers.

  \<^bold>\<open>What the theorems show.\<close> End to end, below: after any orderly run of the agent a crash of a clean
  process is written as a JSON file that reads back as the collected state and is handed on to the
  action that was there before, which is not the agent's; at the next start that file reaches the
  listener, with a text the managed reader turns into the collected trace; an ANR is written and
  signalled to the runtime's thread, until a stop makes that signal void. In \<open>Agent_System\<close>: in an
  orderly run no entry point hangs, and a stop removes every interceptor, frees the alternate stack
  and ends the watchdog, while the SIGQUIT handler and the kernel's pointer to the freed stack stay.
  In \<open>Managed_Agent\<close>: which builder calls make a start succeed and what the native side gets from
  them. Per component: refinement of the unwinder, round trips of the stat line, the report and the
  start/stop pairs, invariants over every interleaving of the two handlers, mutual exclusion of
  overlapping interceptions, the contract of the JNI wrappers, no report lost by a flush, and
  bounds. What happens outside these conditions are theorems of their own, several of them faults
  of the code: a failed start wedges the module, a second start hangs a later stop, a watchdog that
  waits before its semaphore is initialized can be lost, a stop frees a buffer in use, a restored
  interceptor chains to itself, a quoted symbol or a long library path breaks the JSON.

  \<^bold>\<open>Conditions that recur.\<close> An orderly run (\<open>agent_reachable\<close>): entry points one at a time, library
  calls that succeed as \<open>good_calls\<close> says (threads need not be created), no ANR start while a
  watchdog runs, and no other code that sets the agent's own handlers. A clean process
  (\<open>clean_world\<close>): its name, the symbols, the library paths and the identifiers hold no quote,
  backslash or control character, and the paths stored in frames have at most 1023 characters.
  \<open>distinct_tids\<close>: the listed tasks have distinct ids. A siginfo and a register context come with
  the signal. The file can be opened and has room for 340000 bytes.

  \<^bold>\<open>Assumptions.\<close> The operations of a handler are atomic where no step relation says otherwise; memory
  allocated by \<open>new\<close> is there; logging has no effect; the POSIX, JNI and C++ runtime calls do what
  their documentation says, failing when the parameters that name their outcomes say so. A
  semaphore is its value: a wait on it before \<open>sem_init\<close>, which POSIX leaves undefined, is taken as
  a wait on value 0, and the termination of a stop is shown without such waits. The kernel has one
  alternate stack here; on Linux each thread has its own. The counters of the signal handler are
  unbounded. The three handlers keep the files they write apart, which \<open>report_paths_distinct\<close>
  justifies.

  \<^bold>\<open>Not modelled.\<close> The root check of \<open>AgentNDK.kt\<close> hands its context to a library that is not here; of the
  managed code \<open>hasNativeStackFrames\<close>, \<open>allFrames\<close> and \<open>allNativeFrames\<close> are called by nothing, and so is
  \<open>env_detach\<close> of the native code; the unit tests are test code. Builder calls after \<open>build\<close>, which
  would change the settings of the agent already built, are left out. An entry point is atomic in
  \<open>agent_step\<close>, where no start comes while a watchdog runs; the finer cuts are \<open>advance\<close>, \<open>anr_step\<close> and
  \<open>ap_step\<close>, the last with second starts. The signal masks of the SIGQUIT handling are left out: a SIGQUIT
  may arrive whenever the handler is installed. \<open>JNI_OnUnload\<close> is a function of \<open>Managed_Context\<close> and
  no step of \<open>agent_step\<close>.
\<close>

section \<open>Properties that span components\<close>

text \<open>The report of a collected world, and the run of the interceptor that writes it.\<close>

abbreviation collected_report :: "build \<Rightarrow> world \<Rightarrow> siginfo \<Rightarrow> mcontext \<Rightarrow> json" where
  "collected_report b w si mc \<equiv>
     report_json b (w_fs w) (w_symbols w) (w_native w) (fill_backtrace b w si (Some mc)) mc si"

lemma crash_written:
  assumes "clean_world b w" "distinct_tids b w" "b_ngreg b \<le> 64"
    and "d_open d (report_path (w_native w) t ''crash-'')" "340000 \<le> d_room d (report_path (w_native w) t ''crash-'')"
    and "sh_intercepting st = 0" "\<not> sh_locked st" "sh_initialized st > 0"
    and "so_lock os" "so_unlock os" "sigactions_work os"
    and "distinct (signos (sh_signals st))" "prev_of (sh_signals st) signo = Some act"
  shows "\<exists>st'. interceptor b w t d os signo (Some si) (Some mc) st = Returns st' \<and>
    sh_files st' = (sh_files st)(report_path (w_native w) t ''crash-'' \<mapsto> show_json DQ (collected_report b w si mc)) \<and>
    k_disp (sh_kernel st') = (\<lambda>n. case prev_of (sh_signals st) n of Some a \<Rightarrow> a | None \<Rightarrow> k_disp (sh_kernel st) n) \<and>
    sh_events st' = sh_events st @ chained_events signo act \<and>
    sh_intercepting st' = 0 \<and> \<not> sh_locked st' \<and> sh_initialized st' = sh_initialized st - 1"
proof -
  let ?text = "show_json DQ (collected_report b w si mc)"
  let ?path = "report_path (w_native w) t ''crash-''"
  note doc = report_text [OF assms(1-3), of si mc]
  have len: "length ?text \<le> d_room d ?path"
    using doc(3) assms(5) by simp
  have "crash_store.report (w_native w) t d (length (c_str ?text)) (Some (True, ?text)) (sh_files st) =
      Some ((sh_files st)(?path \<mapsto> ?text))"
    using crash_store.complete_report_saved [OF refl doc(2) _ len assms(4)] doc(2) by (simp add: c_str_id)
  then have saved: "from_crash (w_native w) t d ?text (length (c_str ?text)) (sh_files st) = (sh_files st)(?path \<mapsto> ?text)"
    by (simp add: crash_store.report_def)
  show ?thesis
    using interceptor_run [OF assms(6-13) doc(1), of t d] saved by auto
qed

text \<open>
  A crash is reported and handed on. When an observed signal arrives at an installed, idle
  module, the interceptor returns; one file is written, at the crash path of the moment, and it
  holds a JSON document that reads back as the collected report (context, registers, exception
  and threads with the crashed thread's stack); no other file changes; the action that was
  there before the agent is called exactly once, with the kernel's table already restored for
  every observed signal; and the module is idle again with its mutex free.
\<close>

theorem crash_is_reported:
  assumes "clean_world b w" "distinct_tids b w" "b_ngreg b \<le> 64"
    and "d_open d (report_path (w_native w) t ''crash-'')" "340000 \<le> d_room d (report_path (w_native w) t ''crash-'')"
    and "sh_intercepting st = 0" "\<not> sh_locked st" "sh_initialized st > 0"
    and "so_lock os" "so_unlock os" "sigactions_work os"
    and "distinct (signos (sh_signals st))" "prev_of (sh_signals st) signo = Some act"
  shows "\<exists>st' text. interceptor b w t d os signo (Some si) (Some mc) st = Returns st' \<and>
    sh_files st' = (sh_files st)(report_path (w_native w) t ''crash-'' \<mapsto> text) \<and>
    parse_json text = Some (report_json b (w_fs w) (w_symbols w) (w_native w) (fill_backtrace b w si (Some mc)) mc si) \<and>
    k_disp (sh_kernel st') = (\<lambda>n. case prev_of (sh_signals st) n of Some a \<Rightarrow> a | None \<Rightarrow> k_disp (sh_kernel st) n) \<and>
    sh_events st' = sh_events st @ chained_events signo act \<and>
    sh_intercepting st' = 0 \<and> \<not> sh_locked st' \<and> sh_initialized st' = sh_initialized st - 1"
  using crash_written [OF assms, of si mc] report_text(4) [OF assms(1-3), of si mc] by blast

theorem crash_is_reported_witness:
  "\<exists>st st' text. start_up 8192 sh_all_ok (loaded sample_kernel Map.empty) = Returns st \<and>
     interceptor arm64_build sample_world sample_clock \<lparr>d_open = (\<lambda>_. True), d_room = (\<lambda>_. 340000)\<rparr> sh_all_ok SIGSEGV
       (Some \<lparr>si_signo = 11, si_code = 1, si_addr = 0\<rparr>) (Some zero_mcontext) st = Returns st' \<and>
     sh_files st' = [report_path (w_native sample_world) sample_clock ''crash-'' \<mapsto> text] \<and>
     parse_json text \<noteq> None \<and> sh_events st' = [Called_handler (App_Handler 5) SIGSEGV]"
proof -
  obtain st where st: "start_up 8192 sh_all_ok (loaded sample_kernel Map.empty) = Returns st"
    "sh_intercepting st = 0" "\<not> sh_locked st" "sh_initialized st = 1" "sh_files st = Map.empty" "sh_events st = []"
    "distinct (signos (sh_signals st))" "prev_of (sh_signals st) SIGSEGV = Some \<lparr>sa_flags = 0, sa_handler = App_Handler 5\<rparr>"
    using sample_started by blast
  have ok: "so_lock sh_all_ok" "so_unlock sh_all_ok" "sigactions_work sh_all_ok"
    by (simp_all add: sh_all_ok_def sigactions_work_def all_ok_def)
  have "b_ngreg arm64_build \<le> 64" by (simp add: arm64_build_def)
  from crash_is_reported [OF sample_world_facts(1,2) this _ _ st(2,3) _ ok st(7,8),
      of "\<lparr>d_open = (\<lambda>_. True), d_room = (\<lambda>_. 340000)\<rparr>" sample_clock "\<lparr>si_signo = 11, si_code = 1, si_addr = 0\<rparr>" zero_mcontext]
  show ?thesis using st by (fastforce simp: chained_events_def)
qed


text \<open>The sample world with the context of an agent.\<close>

lemma sample_world_of:
  assumes "nc_sessionId nc = ''abc''" "nc_buildId nc = ''abc''"
  shows "clean_world arm64_build (sample_world\<lparr>w_native := nc\<rparr>)" "distinct_tids arm64_build (sample_world\<lparr>w_native := nc\<rparr>)"
  using sample_world_facts(1,2) assms
  by (simp_all add: clean_world_def distinct_tids_def thread_entries_def clean_simps clean_char_def)

text \<open>
  C1. A crash is reported after any orderly run: any order of starts, stops, contexts, signals,
  installer threads, watchdog steps and handlers of the application, entry points one at a time,
  library calls that succeed, no ANR start while a watchdog runs, and no other code that sets the
  agent's interceptor. A signal with a siginfo and a register context that has the interceptor
  while no other interception is under way, in a process whose strings need no escape and whose
  library paths have at most 1023 characters, with distinct tasks, on a platform of at most 64
  numbered registers, with room for the file, and a mutex and \<open>sigaction\<close> calls that work, leaves
  one file, under the report directory of the current
  context, that reads back as the collected report; no signal has the interceptor afterwards; and
  the signal is passed on to the action that was there before, which is not the agent's: called
  once if it is a handler, raised again if it is the default, nothing if it is to be ignored.
\<close>

theorem crash_in_any_run:
  assumes "agent_reachable b fs pid ag"
    and "sa_handler (k_disp (sh_kernel (ag_sh ag)) signo) = Interceptor" "sh_intercepting (ag_sh ag) = 0"
    and "clean_world b w" "distinct_tids b w" "b_ngreg b \<le> 64" "w_native w = ag_native ag"
    and "d_open d (report_path (ag_native ag) t ''crash-'')" "340000 \<le> d_room d (report_path (ag_native ag) t ''crash-'')"
    and "so_lock os" "so_unlock os" "sigactions_work os"
  shows "\<exists>st' text act. interceptor b w t d os signo (Some si) (Some mc) (ag_sh ag) = Returns st' \<and>
    sh_files st' = (sh_files (ag_sh ag))(report_path (ag_native ag) t ''crash-'' \<mapsto> text) \<and>
    parse_json text = Some (report_json b (w_fs w) (w_symbols w) (ag_native ag) (fill_backtrace b w si (Some mc)) mc si) \<and>
    (\<forall>n. sa_handler (k_disp (sh_kernel st') n) \<noteq> Interceptor) \<and>
    prev_of (sh_signals (ag_sh ag)) signo = Some act \<and> sa_handler act \<noteq> Interceptor \<and>
    sh_events st' = sh_events (ag_sh ag) @ chained_events signo act \<and>
    sh_intercepting st' = 0 \<and> \<not> sh_locked st'"
proof -
  note inv = agent_invariants [OF assms(1)]
  obtain act where act: "sh_initialized (ag_sh ag) > 0" "distinct (signos (sh_signals (ag_sh ag)))"
      "prev_of (sh_signals (ag_sh ag)) signo = Some act"
    using chain_inv_installed [OF inv(2) assms(2)] by blast
  have foreign: "sa_handler a \<noteq> Interceptor" if "prev_of (sh_signals (ag_sh ag)) n = Some a" for n a
    using chain_inv_foreign [OF inv(2) that] .
  obtain st' where st': "interceptor b w t d os signo (Some si) (Some mc) (ag_sh ag) = Returns st'"
      "sh_files st' = (sh_files (ag_sh ag))(report_path (ag_native ag) t ''crash-'' \<mapsto> show_json DQ (collected_report b w si mc))"
      "k_disp (sh_kernel st') = (\<lambda>n. case prev_of (sh_signals (ag_sh ag)) n of Some a \<Rightarrow> a | None \<Rightarrow> k_disp (sh_kernel (ag_sh ag)) n)"
      "sh_events st' = sh_events (ag_sh ag) @ chained_events signo act" "sh_intercepting st' = 0" "\<not> sh_locked st'"
    using crash_written [OF assms(4-6) _ _ assms(3) inv(1) act(1) assms(10-12) act(2,3), of d t si mc] assms(7-9) by auto
  have "sa_handler (k_disp (sh_kernel st') n) \<noteq> Interceptor" for n
    using foreign [of n] chain_inv_others [OF inv(2), of n] by (auto simp: st'(3) split: option.split)
  with st' act(3) foreign [OF act(3)] report_text(4) [OF assms(4-6), of si mc] assms(7) show ?thesis by auto
qed

theorem crash_in_any_run_witness:
  "\<exists>ag st' text. agent_reachable arm64_build quit_fs 7 ag \<and>
     interceptor arm64_build (sample_world\<lparr>w_native := ag_native ag\<rparr>) sample_clock
       \<lparr>d_open = (\<lambda>_. True), d_room = (\<lambda>_. 340000)\<rparr> sh_all_ok SIGSEGV
       (Some \<lparr>si_signo = 11, si_code = 1, si_addr = 0\<rparr>) (Some zero_mcontext) (ag_sh ag) = Returns st' \<and>
     sh_files st' = [report_path (ag_native ag) sample_clock ''crash-'' \<mapsto> text] \<and> parse_json text \<noteq> None \<and>
     sh_events st' = [Called_handler (App_Handler 5) SIGSEGV]"
proof -
  obtain ag where ag: "agent_reachable arm64_build quit_fs 7 ag"
      "nc_sessionId (ag_native ag) = ''abc''" "nc_buildId (ag_native ag) = ''abc''"
      "start_up 8192 sh_all_ok (loaded sample_kernel Map.empty) = Returns (ag_sh ag)"
    using sample_agent_started by blast
  have st: "sh_intercepting (ag_sh ag) = 0" "sa_handler (k_disp (sh_kernel (ag_sh ag)) SIGSEGV) = Interceptor"
    "prev_of (sh_signals (ag_sh ag)) SIGSEGV = Some \<lparr>sa_flags = 0, sa_handler = App_Handler 5\<rparr>"
    "sh_files (ag_sh ag) = Map.empty" "sh_events (ag_sh ag) = []"
    using ag(4) sample_started [of Map.empty] by auto
  have ok: "so_lock sh_all_ok" "so_unlock sh_all_ok" "sigactions_work sh_all_ok" "b_ngreg arm64_build \<le> 64"
    by (simp_all add: sh_all_ok_def sigactions_work_def all_ok_def arm64_build_def)
  note world = sample_world_of [OF ag(2,3)]
  from crash_in_any_run [OF ag(1) st(2,1) world ok(4) _ _ _ ok(1-3), of "\<lparr>d_open = (\<lambda>_. True), d_room = (\<lambda>_. 340000)\<rparr>"
      sample_clock "\<lparr>si_signo = 11, si_code = 1, si_addr = 0\<rparr>" zero_mcontext]
  show ?thesis using ag(1) st(3-5) by (fastforce simp: chained_events_def)
qed

text \<open>
  A crash reaches the listener of the next start. When an observed signal arrives at an
  installed, idle module, and the managed agent of a later start flushes a listing that has
  the report, the listener is called exactly once for it, with a text that the managed reader
  turns into the collected threads, the crashed thread's stack and the signal's message; and
  once the listener took it, a file that can be deleted is gone.
\<close>

theorem crash_reaches_listener:
  assumes "clean_world b w" "distinct_tids b w" "b_ngreg b \<le> 64"
    and "d_open d (report_path (w_native w) t ''crash-'')" "340000 \<le> d_room d (report_path (w_native w) t ''crash-'')"
    and "sh_intercepting st = 0" "\<not> sh_locked st" "sh_initialized st > 0"
    and "so_lock os" "so_unlock os" "sigactions_work os"
    and "distinct (signos (sh_signals st))" "prev_of (sh_signals st) signo = Some act"
    and "org_json lib" "long_report b (w_symbols w) (fill_backtrace b w si (Some mc)) si"
    and "NUL \<notin> set (nc_reportPathAbsolute (w_native w))"
    and "fe_listener env = Some listener" "fe_listing env = Some (rs @ report_name t ''crash-'' # rs')"
    and "distinct (rs @ report_name t ''crash-'' # rs')" "fe_readable env (report_path (w_native w) t ''crash-'')"
  shows "\<exists>st' content before after. interceptor b w t d os signo (Some si) (Some mc) st = Returns st' \<and>
    (let dir = nc_reportPathAbsolute (w_native w);
         fl = flushPendingReports env (Some dir) \<lparr>fl_files = sh_files st', fl_calls = [], fl_deleteOnExit = []\<rparr> in
      fl_calls fl = before @ OnNativeCrash content # after \<and>
      length before \<le> length rs \<and> length after \<le> length rs' \<and>
      transformNativeStackTrace lib content =
        Some (managed_trace b (w_symbols w) (fill_backtrace b w si (Some mc)) si) \<and>
      (listener (before @ [OnNativeCrash content]) = Some True \<longrightarrow>
       fe_deletable env (report_path (w_native w) t ''crash-'') \<longrightarrow>
       fl_files fl (report_path (w_native w) t ''crash-'') = None))"
proof -
  let ?content = "show_json DQ (collected_report b w si mc)" and ?name = "report_name t ''crash-''"
  let ?dir = "nc_reportPathAbsolute (w_native w)" and ?path = "report_path (w_native w) t ''crash-''"
  obtain st' where st': "interceptor b w t d os signo (Some si) (Some mc) st = Returns st'"
    "sh_files st' ?path = Some ?content"
    using crash_written [OF assms(1-13), of si mc] by auto
  let ?st = "\<lparr>fl_files = sh_files st', fl_calls = [], fl_deleteOnExit = []\<rparr>"
  have path: "in_dir ?dir ?name = ?path"
    using report_path_in_dir [OF assms(16), of "''crash-''"] by (simp add: report_prefixes_def)
  have posted: "posted env ?dir (fl_files ?st) ?name = Some (OnNativeCrash ?content)"
    using st'(2) assms(20) by (simp add: posted_def path callback_of_report)
  define before where "before = calls_of env ?dir (sh_files st') rs"
  define after where "after = calls_of env ?dir (sh_files st') rs'"
  have calls: "fl_calls (flushPendingReports env (Some ?dir) ?st) = before @ OnNativeCrash ?content # after"
    using flush_calls [OF assms(17,19), of ?dir ?st] posted assms(18)
    by (simp add: flushPendingReports_def calls_of_append calls_of_Cons before_def after_def)
  have gone: "fl_files (flushPendingReports env (Some ?dir) ?st) ?path = None"
    if "listener (before @ [OnNativeCrash ?content]) = Some True" "fe_deletable env ?path"
    using flush_files_report [OF assms(17,19) refl, of ?dir ?st] posted assms(18) that
    by (simp add: flushPendingReports_def taken_def path before_def)
  have "transformNativeStackTrace lib ?content = Some (managed_trace b (w_symbols w) (fill_backtrace b w si (Some mc)) si)"
    by (rule org_json.report_read [OF assms(14) wf_collected_report [OF assms(1)] assms(15)])
  then show ?thesis
    using st'(1) calls gone length_calls_of unfolding Let_def before_def after_def by blast
qed

theorem crash_reaches_listener_witness:
  "\<exists>st st' content. start_up 8192 sh_all_ok (loaded sample_kernel Map.empty) = Returns st \<and>
     interceptor arm_build sample_world sample_clock \<lparr>d_open = (\<lambda>_. True), d_room = (\<lambda>_. 340000)\<rparr> sh_all_ok SIGSEGV
       (Some \<lparr>si_signo = 11, si_code = 1, si_addr = 0\<rparr>) (Some zero_mcontext) st = Returns st' \<and>
     (let fl = flushPendingReports
          \<lparr>fe_listing = Some [report_name sample_clock ''crash-''], fe_listener = Some (\<lambda>_. Some True),
           fe_readable = (\<lambda>_. True), fe_deletable = (\<lambda>_. True), fe_lastModified = (\<lambda>_. 0),
           fe_currentTimeMillis = 0, fe_expirationPeriod = 0\<rparr>
          (Some (nc_reportPathAbsolute (w_native sample_world))) \<lparr>fl_files = sh_files st', fl_calls = [], fl_deleteOnExit = []\<rparr> in
      fl_calls fl = [OnNativeCrash content] \<and> transformNativeStackTrace reference_lib content \<noteq> None \<and>
      fl_files fl (report_path (w_native sample_world) sample_clock ''crash-'') = None)"
proof -
  let ?env = "\<lparr>fe_listing = Some [report_name sample_clock ''crash-''], fe_listener = Some (\<lambda>_. Some True),
           fe_readable = (\<lambda>_. True), fe_deletable = (\<lambda>_. True), fe_lastModified = (\<lambda>_. 0),
           fe_currentTimeMillis = 0, fe_expirationPeriod = 0\<rparr>"
  obtain st where st: "start_up 8192 sh_all_ok (loaded sample_kernel Map.empty) = Returns st"
    "sh_intercepting st = 0" "\<not> sh_locked st" "sh_initialized st = 1" "sh_files st = Map.empty" "sh_events st = []"
    "distinct (signos (sh_signals st))" "prev_of (sh_signals st) SIGSEGV = Some \<lparr>sa_flags = 0, sa_handler = App_Handler 5\<rparr>"
    using sample_started by blast
  have ok: "so_lock sh_all_ok" "so_unlock sh_all_ok" "sigactions_work sh_all_ok"
    by (simp_all add: sh_all_ok_def sigactions_work_def all_ok_def)
  have world: "b_ngreg arm_build \<le> 64" "abi_bits arm_build = 32" "NUL \<notin> set (nc_reportPathAbsolute (w_native sample_world))"
    by (simp_all add: arm_build_def abi_bits_def sample_world_def zero_native_context_def)
  from crash_reaches_listener [OF sample_world_arm world(1) _ _ st(2,3) _ ok st(7,8) reference.org_json_axioms
      long_report_32 [OF world(2)] world(3), of "\<lparr>d_open = (\<lambda>_. True), d_room = (\<lambda>_. 340000)\<rparr>" sample_clock
      ?env "\<lambda>_. Some True" "[]" "[]" "\<lparr>si_signo = 11, si_code = 1, si_addr = 0\<rparr>" zero_mcontext]
  show ?thesis using st(1,4) by (fastforce simp: Let_def)
qed

text \<open>
  C2. A crash reaches the application at its next start. After any orderly run, and under the
  conditions of C1 (strings without escapes, short paths, distinct tasks, room for the file,
  working mutex and \<open>sigaction\<close> calls, siginfo and register context), the report of a crash whose
  addresses are below \<open>2^63\<close> is handed to the listener of an agent whose report directory is the
  one the native side had (a path without null characters), through an \<open>org.json\<close> that keeps its laws, when that agent has a listener and flushes a listing without repetitions
  that has the report, and the report can be read: the listener is called once for it, with a text
  that the managed reader turns into the collected threads, the crashed thread's stack and the
  signal's message; and once the listener took it, a file that can be deleted is gone.
\<close>

theorem crash_reaches_next_start:
  assumes "agent_reachable b fs pid ag"
    and "sa_handler (k_disp (sh_kernel (ag_sh ag)) signo) = Interceptor" "sh_intercepting (ag_sh ag) = 0"
    and "clean_world b w" "distinct_tids b w" "b_ngreg b \<le> 64" "w_native w = ag_native ag"
    and "d_open d (report_path (ag_native ag) t ''crash-'')" "340000 \<le> d_room d (report_path (ag_native ag) t ''crash-'')"
    and "so_lock os" "so_unlock os" "sigactions_work os"
    and "org_json lib" "long_report b (w_symbols w) (fill_backtrace b w si (Some mc)) si"
    and "ms_reportsDir c = Some dir" "nc_reportPathAbsolute (ag_native ag) = absolutePath cwd dir" "NUL \<notin> set (absolutePath cwd dir)"
    and "ms_nativeReportListener c = Some listener" "fe_listing e = Some (rs @ report_name t ''crash-'' # rs')"
    and "distinct (rs @ report_name t ''crash-'' # rs')" "fe_readable e (report_path (ag_native ag) t ''crash-'')"
  shows "\<exists>st' content before after. interceptor b w t d os signo (Some si) (Some mc) (ag_sh ag) = Returns st' \<and>
    (let fl = agent_flush cwd (Some c) e \<lparr>fl_files = sh_files st', fl_calls = [], fl_deleteOnExit = []\<rparr> in
      fl_calls fl = before @ OnNativeCrash content # after \<and>
      length before \<le> length rs \<and> length after \<le> length rs' \<and>
      transformNativeStackTrace lib content =
        Some (managed_trace b (w_symbols w) (fill_backtrace b w si (Some mc)) si) \<and>
      (listener (before @ [OnNativeCrash content]) = Some True \<longrightarrow>
       fe_deletable e (report_path (ag_native ag) t ''crash-'') \<longrightarrow>
       fl_files fl (report_path (ag_native ag) t ''crash-'') = None))"
proof -
  let ?e = "e\<lparr>fe_listener := ms_nativeReportListener c, fe_expirationPeriod := ms_expirationPeriod c\<rparr>"
  note inv = agent_invariants [OF assms(1)]
  obtain act where act: "sh_initialized (ag_sh ag) > 0" "distinct (signos (sh_signals (ag_sh ag)))"
      "prev_of (sh_signals (ag_sh ag)) signo = Some act"
    using chain_inv_installed [OF inv(2) assms(2)] by blast
  have flush: "agent_flush cwd (Some c) e st = flushPendingReports ?e (Some (nc_reportPathAbsolute (ag_native ag))) st" for st
    by (simp add: agent_flush_def assms(15,16))
  show ?thesis
    using crash_reaches_listener [OF assms(4-6) _ _ assms(3) inv(1) act(1) assms(10-12) act(2,3) assms(13,14),
        of d t ?e listener rs rs'] assms(7-9,15-21)
    unfolding flush by simp
qed

lemma sample_world_on_arm:
  assumes "nc_sessionId nc = ''abc''" "nc_buildId nc = ''def''"
  shows "clean_world arm_build (sample_world\<lparr>w_native := nc\<rparr>)" "distinct_tids arm_build (sample_world\<lparr>w_native := nc\<rparr>)"
  using sample_world_arm assms
  by (simp_all add: clean_world_def distinct_tids_def thread_entries_def clean_simps clean_char_def)

text \<open>A later start of the application: its listener takes every report.\<close>

definition next_start_settings :: managed_settings where
  "next_start_settings = (sample_settings [WithReportListener (\<lambda>_. Some True)])"

definition next_start_env :: flush_env where
  "next_start_env = \<lparr>fe_listing = Some [report_name sample_clock ''crash-''], fe_listener = None,
     fe_readable = (\<lambda>_. True), fe_deletable = (\<lambda>_. True), fe_lastModified = (\<lambda>_. 0),
     fe_currentTimeMillis = 0, fe_expirationPeriod = 0\<rparr>"

theorem crash_reaches_next_start_witness:
  "\<exists>ag st' content. agent_reachable arm_build quit_fs 7 ag \<and>
     interceptor arm_build (sample_world\<lparr>w_native := ag_native ag\<rparr>) sample_clock \<lparr>d_open = (\<lambda>_. True), d_room = (\<lambda>_. 340000)\<rparr>
       sh_all_ok SIGSEGV (Some \<lparr>si_signo = 11, si_code = 1, si_addr = 0\<rparr>) (Some zero_mcontext) (ag_sh ag) = Returns st' \<and>
     (let fl = agent_flush ''/'' (Some next_start_settings) next_start_env \<lparr>fl_files = sh_files st', fl_calls = [], fl_deleteOnExit = []\<rparr> in
      fl_calls fl = [OnNativeCrash content] \<and> transformNativeStackTrace reference_lib content \<noteq> None \<and>
      fl_files fl (report_path (ag_native ag) sample_clock ''crash-'') = None)"
proof -
  obtain ag where ag: "agent_reachable arm_build quit_fs 7 ag"
      "nc_sessionId (ag_native ag) = ''abc''" "nc_buildId (ag_native ag) = ''def''"
      "nc_reportPathAbsolute (ag_native ag) = ''/data/cache/newrelic/nativeReporting''"
      "start_up 8192 sh_all_ok (loaded sample_kernel Map.empty) = Returns (ag_sh ag)"
    using sample_built_agent by blast
  have st: "sh_intercepting (ag_sh ag) = 0" "sa_handler (k_disp (sh_kernel (ag_sh ag)) SIGSEGV) = Interceptor"
    using ag(5) sample_started [of Map.empty] by auto
  have ok: "so_lock sh_all_ok" "so_unlock sh_all_ok" "sigactions_work sh_all_ok" "b_ngreg arm_build \<le> 64" "abi_bits arm_build = 32"
    by (simp_all add: sh_all_ok_def sigactions_work_def all_ok_def arm_build_def abi_bits_def)
  have c: "ms_reportsDir next_start_settings = Some ''/data/cache/newrelic/nativeReporting''"
      "ms_nativeReportListener next_start_settings = Some (\<lambda>_. Some True)"
    by (simp_all add: next_start_settings_def sample_settings_def build_agent_def new_builder_def new_settings_def
        sample_app_context_def getNativeReportsDir_def absolutePath_def java_file_def)
  note world = sample_world_on_arm [OF ag(2,3)]
  from crash_reaches_next_start [OF ag(1) st(2,1) world ok(4) _ _ _ ok(1-3) reference.org_json_axioms long_report_32 [OF ok(5)] c(1) _ _ c(2),
      where d = "\<lparr>d_open = (\<lambda>_. True), d_room = (\<lambda>_. 340000)\<rparr>" and t = sample_clock and cwd = "''/''" and e = next_start_env
        and rs = "[]" and rs' = "[]" and si = "\<lparr>si_signo = 11, si_code = 1, si_addr = 0\<rparr>" and mc = zero_mcontext]
  have "\<exists>st' content. interceptor arm_build (sample_world\<lparr>w_native := ag_native ag\<rparr>) sample_clock \<lparr>d_open = (\<lambda>_. True), d_room = (\<lambda>_. 340000)\<rparr>
       sh_all_ok SIGSEGV (Some \<lparr>si_signo = 11, si_code = 1, si_addr = 0\<rparr>) (Some zero_mcontext) (ag_sh ag) = Returns st' \<and>
     (let fl = agent_flush ''/'' (Some next_start_settings) next_start_env \<lparr>fl_files = sh_files st', fl_calls = [], fl_deleteOnExit = []\<rparr> in
      fl_calls fl = [OnNativeCrash content] \<and> transformNativeStackTrace reference_lib content \<noteq> None \<and>
      fl_files fl (report_path (ag_native ag) sample_clock ''crash-'') = None)"
    by (fastforce simp: ag(4) absolutePath_def next_start_env_def Let_def)
  with ag(1) show ?thesis by blast
qed

lemma anr_written:
  assumes "clean_world b w" "distinct_tids b w" "b_ngreg b \<le> 64"
    and "d_open d (report_path (w_native w) t ''anr-'')" "340000 \<le> d_room d (report_path (w_native w) t ''anr-'')"
    and "an_enabled st" "an_buffer st" "\<not> an_must_poll st"
  shows "\<exists>text. let st' = anr_interceptor b w t d True si (Some mc) st in
    an_files st' = (an_files st)(report_path (w_native w) t ''anr-'' \<mapsto> text) \<and>
    parse_json text = Some (collected_report b w si mc) \<and>
    an_sem st' > 0 \<and> \<not> an_must_poll st' \<and> an_triggered st'"
proof -
  let ?text = "show_json DQ (collected_report b w si mc)" and ?path = "report_path (w_native w) t ''anr-''"
  let ?st' = "anr_interceptor b w t d True si (Some mc) st"
  note doc = report_text [OF assms(1-3), of si mc]
  have len: "length ?text \<le> BACKTRACE_SZ_MAX" "length ?text \<le> d_room d ?path"
    using doc(3) assms(5) by (simp_all add: BACKTRACE_SZ_MAX_def)
  have "anr_store.report (w_native w) t d BACKTRACE_SZ_MAX (Some (True, ?text)) (an_files st) =
      Some ((an_files st)(?path \<mapsto> ?text))"
    by (rule anr_store.complete_report_saved [OF refl doc(2) len assms(4)])
  then have saved: "from_anr (w_native w) t d ?text BACKTRACE_SZ_MAX (an_files st) = (an_files st)(?path \<mapsto> ?text)"
    by (simp add: anr_store.report_def)
  then have "an_files ?st' = (an_files st)(?path \<mapsto> ?text)" "an_sem ?st' > 0" "\<not> an_must_poll ?st'" "an_triggered ?st'"
    using assms(6-8) by (simp_all add: anr_interceptor_def doc(1) sem_post_def)
  with doc(4) show ?thesis by (auto simp: Let_def)
qed

text \<open>
  An ANR is reported and handed to the runtime. When SIGQUIT arrives at a started module
  whose watchdog waits for the semaphore, the interceptor writes exactly one file, at the ANR
  path of the moment, holding a JSON document that reads back as the collected report; and the
  watchdog, woken by the post, signals the runtime's catcher thread once.
\<close>

theorem anr_is_reported:
  assumes "clean_world b w" "distinct_tids b w" "b_ngreg b \<le> 64"
    and "d_open d (report_path (w_native w) t ''anr-'')" "340000 \<le> d_room d (report_path (w_native w) t ''anr-'')"
    and "an_enabled st" "an_buffer st" "\<not> an_must_poll st" "an_watchdog st = W_sem"
    and "0 \<le> sint (an_pid st)" "0 \<le> sint (an_monitor_tid st)"
  shows "\<exists>text. let st' = anr_interceptor b w t d True si (Some mc) st in
    an_files st' = (an_files st)(report_path (w_native w) t ''anr-'' \<mapsto> text) \<and>
    parse_json text = Some (report_json b (w_fs w) (w_symbols w) (w_native w) (fill_backtrace b w si (Some mc)) mc si) \<and>
    an_raised (run_watchdog 2 st') = an_raised st @ [(an_pid st, an_monitor_tid st)]"
proof -
  let ?st' = "anr_interceptor b w t d True si (Some mc) st"
  obtain rep where written: "an_files ?st' = (an_files st)(report_path (w_native w) t ''anr-'' \<mapsto> rep)"
      "parse_json rep = Some (collected_report b w si mc)" "an_sem ?st' > 0" "\<not> an_must_poll ?st'"
    using anr_written [OF assms(1-8), of si mc] by (auto simp: Let_def)
  then have "an_raised (run_watchdog 2 ?st') = an_raised st @ [(an_pid st, an_monitor_tid st)]"
    using assms(6,9-11) by (simp add: numeral_2_eq_2 watchdog_step_simps)
  with written show ?thesis by (auto simp: Let_def)
qed

theorem anr_is_reported_witness:
  "\<exists>text. let st = quit_installed\<lparr>an_buffer := True\<rparr>;
      st' = anr_interceptor arm64_build sample_world sample_clock \<lparr>d_open = (\<lambda>_. True), d_room = (\<lambda>_. 340000)\<rparr> True
              \<lparr>si_signo = 3, si_code = 0, si_addr = 0\<rparr> (Some zero_mcontext) st in
    an_files st' = [report_path (w_native sample_world) sample_clock ''anr-'' \<mapsto> text] \<and>
    parse_json text \<noteq> None \<and> an_raised (run_watchdog 2 st') = [(7, 9)]"
proof -
  have "b_ngreg arm64_build \<le> 64" by (simp add: arm64_build_def)
  from anr_is_reported [OF sample_world_facts(1,2) this, of "\<lparr>d_open = (\<lambda>_. True), d_room = (\<lambda>_. 340000)\<rparr>" sample_clock
      "quit_installed\<lparr>an_buffer := True\<rparr>" "\<lparr>si_signo = 3, si_code = 0, si_addr = 0\<rparr>" zero_mcontext]
  show ?thesis by (auto simp: Let_def quit_defs)
qed



end
